(* ===== verification/Go_Numbers.thy ===== *)
theory Go_Numbers
  imports Go_Prelude
begin

text \<open>
  Machine integers, decimal and hexadecimal text, instants and durations.

  A Go \<open>int\<close>, \<open>int64\<close> or \<open>time.Duration\<close> is an \<^typ>\<open>int\<close> in the range of
  64-bit two's complement; every operation whose result can leave that range is followed by
  \<open>wrap64\<close>. A \<open>time.Time\<close> is the number of nanoseconds since Go's zero time, so
  \<open>IsZero\<close> is equality with 0.
\<close>

section \<open>64-bit integers\<close>

definition wrap64 :: "int \<Rightarrow> int" where
  "wrap64 x = (x + 2 ^ 63) mod 2 ^ 64 - 2 ^ 63"

definition in_int64 :: "int \<Rightarrow> bool" where
  "in_int64 x \<longleftrightarrow> - (2 ^ 63) \<le> x \<and> x < 2 ^ 63"

abbreviation max_int64 :: int where
  "max_int64 \<equiv> 2 ^ 63 - 1"

abbreviation min_int64 :: int where
  "min_int64 \<equiv> - (2 ^ 63)"

lemma wrap64_id [simp]: "in_int64 x \<Longrightarrow> wrap64 x = x"
  by (simp add: wrap64_def in_int64_def)

lemma wrap64_range [simp]: "in_int64 (wrap64 x)"
proof -
  have "0 \<le> (x + 2 ^ 63) mod 2 ^ 64" and "(x + 2 ^ 63) mod 2 ^ 64 < 2 ^ 64" by simp_all
  then show ?thesis by (simp add: wrap64_def in_int64_def)
qed

text \<open>Division truncates towards zero.\<close>

definition go_div :: "int \<Rightarrow> int \<Rightarrow> int" where
  "go_div a b = wrap64 (sgn a * sgn b * (\<bar>a\<bar> div \<bar>b\<bar>))"

lemma go_div_nonneg: "0 \<le> a \<Longrightarrow> 0 < b \<Longrightarrow> in_int64 a \<Longrightarrow> go_div a b = a div b"
proof -
  assume a: "0 \<le> a" "0 < b" "in_int64 a"
  then have "0 \<le> a div b" "a div b \<le> a"
    by (simp_all add: pos_imp_zdiv_nonneg_iff div_by_1 zdiv_mono2 [of a 1 b, simplified])
  with a show ?thesis
    by (cases "a = 0") (simp_all add: go_div_def in_int64_def)
qed

section \<open>Instants and durations\<close>

type_synonym gotime = int
type_synonym duration = int

abbreviation ns_second :: int where "ns_second \<equiv> 1000000000"
abbreviation ns_minute :: int where "ns_minute \<equiv> 60000000000"
abbreviation ns_hour :: int where "ns_hour \<equiv> 3600000000000"

definition unix_to_internal :: int where
  "unix_to_internal = 62135596800"

definition time_unix :: "int \<Rightarrow> gotime" where
  "time_unix n = wrap64 (n + unix_to_internal) * ns_second"

definition unix_of :: "gotime \<Rightarrow> int" where
  "unix_of t = wrap64 (t div ns_second - unix_to_internal)"

text \<open>\<open>Time.Sub\<close> saturates at the limits of a duration.\<close>

definition time_sub :: "gotime \<Rightarrow> gotime \<Rightarrow> duration" where
  "time_sub t u = (if max_int64 < t - u then max_int64
                   else if t - u < min_int64 then min_int64 else t - u)"

text \<open>\<open>if age < 0 { age = -age }\<close>, with the wrap of the unary minus.\<close>

definition abs_duration :: "duration \<Rightarrow> duration" where
  "abs_duration d = (if d < 0 then wrap64 (- d) else d)"

lemma abs_duration_normal: "min_int64 < d \<Longrightarrow> d \<le> max_int64 \<Longrightarrow> abs_duration d = \<bar>d\<bar>"
  by (simp add: abs_duration_def in_int64_def)

lemma abs_duration_min: "abs_duration min_int64 = min_int64"
  by (simp add: abs_duration_def wrap64_def)

lemma time_sub_small: "\<bar>t - u\<bar> \<le> max_int64 \<Longrightarrow> time_sub t u = t - u"
  unfolding time_sub_def by arith

lemma time_sub_min: "time_sub t u = min_int64 \<longleftrightarrow> t - u \<le> min_int64"
  by (auto simp: time_sub_def)

text \<open>The age check of the verifiers: what it means for the two instants.\<close>

lemma age_within:
  assumes "abs_duration (time_sub now ts) \<le> w" and "w < max_int64"
  shows "\<bar>now - ts\<bar> \<le> w \<or> now - ts \<le> min_int64"
proof (cases "now - ts \<le> min_int64")
  case False
  then have gt: "min_int64 < now - ts" by simp
  show ?thesis
  proof (cases "max_int64 < now - ts")
    case True
    then have "time_sub now ts = max_int64" by (simp add: time_sub_def)
    with assms show ?thesis by (simp add: abs_duration_def)
  next
    case False
    with gt have "time_sub now ts = now - ts" by (simp add: time_sub_def)
    with assms gt False show ?thesis by (simp add: abs_duration_normal)
  qed
qed simp

section \<open>Decimal text\<close>

definition digit_char :: "nat \<Rightarrow> char" where
  "digit_char d = char_of (48 + d)"

definition digit_val :: "char \<Rightarrow> nat" where
  "digit_val c = of_char c - 48"

definition is_digit :: "char \<Rightarrow> bool" where
  "is_digit c \<longleftrightarrow> 48 \<le> (of_char c :: nat) \<and> (of_char c :: nat) \<le> 57"

fun nat_str :: "nat \<Rightarrow> string" where
  "nat_str n = (if n < 10 then [digit_char n] else nat_str (n div 10) @ [digit_char (n mod 10)])"

declare nat_str.simps [simp del]

definition itoa :: "int \<Rightarrow> string" where
  "itoa n = (if n < 0 then CHR ''-'' # nat_str (nat (- n)) else nat_str (nat n))"

definition digits_val :: "string \<Rightarrow> nat" where
  "digits_val s = foldl (\<lambda>a c. a * 10 + digit_val c) 0 s"

definition parse_digits :: "string \<Rightarrow> nat option" where
  "parse_digits s = (if s \<noteq> [] \<and> list_all is_digit s then Some (digits_val s) else None)"

text \<open>\<open>strconv.ParseInt(s, 10, 64)\<close>, and \<open>strconv.Atoi\<close> on a 64-bit platform.\<close>

definition parse_int64 :: "string \<Rightarrow> int option" where
  "parse_int64 s =
     (case s of
        [] \<Rightarrow> None
      | c # cs \<Rightarrow>
          if c = CHR ''-'' then
            (case parse_digits cs of
               None \<Rightarrow> None
             | Some n \<Rightarrow> if int n \<le> 2 ^ 63 then Some (- int n) else None)
          else
            (case parse_digits (if c = CHR ''+'' then cs else s) of
               None \<Rightarrow> None
             | Some n \<Rightarrow> if int n < 2 ^ 63 then Some (int n) else None))"

lemma digit_char_props [simp]:
  "d < 10 \<Longrightarrow> is_digit (digit_char d)"
  "d < 10 \<Longrightarrow> digit_val (digit_char d) = d"
  by (simp_all add: digit_char_def is_digit_def digit_val_def)

lemma is_digit_neq [simp]:
  "\<not> is_digit CHR ''-''" "\<not> is_digit CHR ''+''" "\<not> is_digit CHR '',''" "\<not> is_digit CHR ''=''"
  by (simp_all add: is_digit_def)

lemma nat_str_digits: "nat_str n \<noteq> [] \<and> list_all is_digit (nat_str n) \<and> digits_val (nat_str n) = n"
proof (induction n rule: nat_str.induct)
  case (1 n)
  show ?case
  proof (cases "n < 10")
    case True
    then show ?thesis by (simp add: nat_str.simps [of n] digits_val_def)
  next
    case False
    with "1.IH" have IH: "nat_str (n div 10) \<noteq> []" "list_all is_digit (nat_str (n div 10))"
        "digits_val (nat_str (n div 10)) = n div 10" by auto
    from False have "nat_str n = nat_str (n div 10) @ [digit_char (n mod 10)]"
      by (simp add: nat_str.simps [of n])
    with IH show ?thesis by (simp add: digits_val_def)
  qed
qed

lemma parse_digits_nat_str [simp]: "parse_digits (nat_str n) = Some n"
  using nat_str_digits [of n] by (simp add: parse_digits_def)

lemma nat_str_Cons: "\<exists>c cs. nat_str n = c # cs \<and> is_digit c"
  using nat_str_digits [of n] by (cases "nat_str n") auto

lemma parse_int64_itoa [simp]: "in_int64 n \<Longrightarrow> parse_int64 (itoa n) = Some n"
proof -
  assume n: "in_int64 n"
  show ?thesis
  proof (cases "n < 0")
    case True
    with n show ?thesis by (simp add: itoa_def parse_int64_def in_int64_def)
  next
    case False
    obtain c cs where c: "nat_str (nat n) = c # cs" "is_digit c"
      using nat_str_Cons by blast
    then have "c \<noteq> CHR ''-''" "c \<noteq> CHR ''+''" by auto
    moreover have "parse_digits (c # cs) = Some (nat n)"
      using c(1) parse_digits_nat_str [of "nat n"] by simp
    ultimately show ?thesis using False n c
      by (simp add: itoa_def parse_int64_def in_int64_def)
  qed
qed

lemma parse_int64_range: "parse_int64 s = Some n \<Longrightarrow> in_int64 n"
  by (auto simp: parse_int64_def in_int64_def split: list.splits if_splits option.splits)

lemma set_nat_str: "c \<in> set (nat_str n) \<Longrightarrow> is_digit c"
  using nat_str_digits [of n] by (auto simp: list_all_iff)

lemma set_itoa: "c \<in> set (itoa n) \<Longrightarrow> is_digit c \<or> c = CHR ''-''"
  by (auto simp: itoa_def dest: set_nat_str split: if_splits)

lemma itoa_not_Nil [simp]: "itoa n \<noteq> []"
  using nat_str_Cons [of "nat n"] by (auto simp: itoa_def)

section \<open>Hexadecimal text\<close>

definition hex_digit :: "nat \<Rightarrow> char" where
  "hex_digit d = (if d < 10 then char_of (48 + d) else char_of (87 + d))"

definition hex_val :: "char \<Rightarrow> nat option" where
  "hex_val c = (let n = (of_char c :: nat) in
     if 48 \<le> n \<and> n \<le> 57 then Some (n - 48)
     else if 97 \<le> n \<and> n \<le> 102 then Some (n - 87)
     else if 65 \<le> n \<and> n \<le> 70 then Some (n - 55)
     else None)"

text \<open>\<open>hex.EncodeToString\<close> and \<open>hex.DecodeString\<close>.\<close>

fun hex_encode :: "string \<Rightarrow> string" where
  "hex_encode [] = []"
| "hex_encode (c # cs) =
     hex_digit (of_char c div 16) # hex_digit (of_char c mod 16) # hex_encode cs"

fun hex_decode :: "string \<Rightarrow> string option" where
  "hex_decode [] = Some []"
| "hex_decode [_] = None"
| "hex_decode (a # b # rest) =
     (case (hex_val a, hex_val b) of
        (Some x, Some y) \<Rightarrow> map_option (\<lambda>r. char_of (x * 16 + y) # r) (hex_decode rest)
      | _ \<Rightarrow> None)"

lemma hex_val_digit [simp]: "d < 16 \<Longrightarrow> hex_val (hex_digit d) = Some d"
  by (simp add: hex_val_def hex_digit_def Let_def)

lemma hex_decode_encode [simp]: "hex_decode (hex_encode s) = Some s"
proof (induction s)
  case Nil
  show ?case by simp
next
  case (Cons c s)
  have "(of_char c :: nat) div 16 < 16"
    using nat_of_char_less_256 [of c] by (simp add: less_mult_imp_div_less)
  then show ?case using Cons.IH by (simp add: div_mod_decomp [symmetric])
qed

lemma hex_encode_inj: "hex_encode a = hex_encode b \<longleftrightarrow> a = b"
  by (metis hex_decode_encode option.inject)

lemma length_hex_encode [simp]: "length (hex_encode s) = 2 * length s"
  by (induction s) auto

end
