(* ===== verification/Retry_Policy.thy ===== *)
theory Retry_Policy
  imports Go_Numbers
begin

text \<open>
  Package internal/retry: the exponential back-off cap of a delivery, the jittered and the
  deterministic delay below it, the seed of the deterministic delay, and the classification of
  HTTP statuses; and the request validation of internal/app/control.go that every stored policy
  has passed. SHA-256 is the parameter \<open>sha\<close>; a source of random numbers is a parameter too,
  with the documented range of its results as a hypothesis.
\<close>

section \<open>Model\<close>

record retry_policy =
  max_attempts :: int
  max_duration :: duration
  initial_delay :: duration
  max_delay :: duration

record classification =
  cls_retryable :: bool
  cls_reason :: string

definition default_policy :: retry_policy where
  "default_policy = \<lparr> max_attempts = 12, max_duration = 72 * ns_hour,
     initial_delay = 10 * ns_second, max_delay = 6 * ns_hour \<rparr>"

definition min_duration :: "duration \<Rightarrow> duration \<Rightarrow> duration" where
  "min_duration a b = (if a < b then a else b)"

fun delay_cap_loop :: "duration \<Rightarrow> nat \<Rightarrow> duration \<Rightarrow> duration" where
  "delay_cap_loop mx 0 cap = cap"
| "delay_cap_loop mx (Suc n) cap =
     (let cap' = wrap64 (cap * 2) in if mx \<le> cap' then mx else delay_cap_loop mx n cap')"

definition normalize_attempt :: "int \<Rightarrow> int" where
  "normalize_attempt attempt = (if attempt < 0 then 0 else attempt)"

definition delay_cap :: "retry_policy \<Rightarrow> int \<Rightarrow> duration" where
  "delay_cap p attempt =
     (let attempt' = (if attempt < 0 then 0 else attempt) in
      min_duration (delay_cap_loop (max_delay p) (nat attempt') (initial_delay p)) (max_delay p))"

text \<open>
  \<open>rng == nil\<close> selects crypto/rand, whose \<open>Int\<close> may fail; otherwise math/rand is used. Both
  panic on a bound that is not positive, which is the outcome \<^term>\<open>None\<close>.
\<close>

datatype rand_source = CryptoRand "int \<Rightarrow> int option" | MathRand "int \<Rightarrow> int"

definition next_delay :: "retry_policy \<Rightarrow> int \<Rightarrow> rand_source \<Rightarrow> duration option" where
  "next_delay p attempt rng =
     (let cap = delay_cap p attempt in
      if cap \<le> 0 then Some 0
      else let bound = wrap64 (cap + 1) in
        if bound \<le> 0 then None
        else (case rng of
            CryptoRand draw \<Rightarrow>
              (case draw bound of None \<Rightarrow> Some cap | Some n \<Rightarrow> Some (wrap64 n))
          | MathRand draw \<Rightarrow> Some (draw bound)))"

fun big_endian :: "nat \<Rightarrow> nat \<Rightarrow> string" where
  "big_endian 0 n = []"
| "big_endian (Suc k) n = big_endian k (n div 256) @ [char_of (n mod 256)]"

definition bytes_val :: "string \<Rightarrow> nat" where
  "bytes_val s = foldl (\<lambda>a c. a * 256 + of_char c) 0 s"

definition seed_material :: "string list \<Rightarrow> string" where
  "seed_material parts = concat (map (\<lambda>part. big_endian 8 (length part) @ part) parts)"

definition seed_of :: "(string \<Rightarrow> string) \<Rightarrow> string list \<Rightarrow> string" where
  "seed_of sha parts = ''retryseed:v1:'' @ hex_encode (sha (seed_material parts))"

definition next_deterministic_delay ::
    "(string \<Rightarrow> string) \<Rightarrow> retry_policy \<Rightarrow> int \<Rightarrow> string \<Rightarrow> duration" where
  "next_deterministic_delay sha p attempt seed =
     (let cap = delay_cap p attempt in
      if cap \<le> 0 then 0
      else let seed' = (if seed = [] then seed_of sha [''empty''] else seed);
               material = seed' @ [char_of (0::nat)] @ itoa (normalize_attempt attempt)
           in int (bytes_val (sha material)) mod \<bar>wrap64 (cap + 1)\<bar>)"

definition classify_status :: "int \<Rightarrow> classification" where
  "classify_status status =
     (if 200 \<le> status \<and> status \<le> 299 then \<lparr> cls_retryable = False, cls_reason = ''success'' \<rparr>
      else if status = 408 \<or> status = 409 \<or> status = 425 \<or> status = 429
      then \<lparr> cls_retryable = True, cls_reason = ''temporary_http'' \<rparr>
      else if 500 \<le> status \<and> status \<le> 599
      then \<lparr> cls_retryable = True, cls_reason = ''temporary_http'' \<rparr>
      else \<lparr> cls_retryable = False, cls_reason = ''permanent_http'' \<rparr>)"

text \<open>The request of internal/app/control.go, with the fields the validation reads.\<close>

record retry_policy_request =
  rp_state :: string
  rp_max_attempts :: int
  rp_max_duration_seconds :: int
  rp_initial_delay_seconds :: int
  rp_max_delay_seconds :: int
  rp_rate_limit_per_minute :: int

definition validate_retry_policy :: "retry_policy_request \<Rightarrow> unit res" where
  "validate_retry_policy req =
     (if rp_state req \<noteq> ''active'' \<and> rp_state req \<noteq> ''disabled''
      then Inl (ErrInvalidInput ''state must be active or disabled'')
      else if rp_max_attempts req \<le> 0 \<or> 100 < rp_max_attempts req
      then Inl (ErrInvalidInput ''max_attempts must be between 1 and 100'')
      else if rp_max_duration_seconds req \<le> 0 \<or> 2592000 < rp_max_duration_seconds req
      then Inl (ErrInvalidInput ''max_duration_seconds must be between 1 and 2592000'')
      else if rp_initial_delay_seconds req \<le> 0
              \<or> rp_max_delay_seconds req < rp_initial_delay_seconds req
      then Inl (ErrInvalidInput
             ''initial_delay_seconds must be positive and no greater than max_delay_seconds'')
      else if rp_max_delay_seconds req \<le> 0 \<or> 86400 < rp_max_delay_seconds req
      then Inl (ErrInvalidInput ''max_delay_seconds must be between 1 and 86400'')
      else if rp_rate_limit_per_minute req < 0 \<or> 60000 < rp_rate_limit_per_minute req
      then Inl (ErrInvalidInput ''rate_limit_per_minute must be between 0 and 60000'')
      else Inr ())"

text \<open>The policy the worker computes from the stored row of such a request (\<open>retryPolicyForDelivery\<close>).\<close>

definition policy_of_row :: "retry_policy_request \<Rightarrow> retry_policy" where
  "policy_of_row row = \<lparr> max_attempts = rp_max_attempts row,
     max_duration = wrap64 (rp_max_duration_seconds row * ns_second),
     initial_delay = wrap64 (rp_initial_delay_seconds row * ns_second),
     max_delay = wrap64 (rp_max_delay_seconds row * ns_second) \<rparr>"

section \<open>The back-off cap\<close>

text \<open>The range in which doubling never leaves 64 bits before the comparison with the maximum.\<close>

definition safe_policy :: "retry_policy \<Rightarrow> bool" where
  "safe_policy p \<longleftrightarrow> 0 < initial_delay p \<and> initial_delay p \<le> max_delay p \<and> max_delay p < 2 ^ 62"

lemma delay_cap_loop_closed:
  "0 < cap \<Longrightarrow> cap \<le> mx \<Longrightarrow> mx < 2 ^ 62 \<Longrightarrow> delay_cap_loop mx n cap = min (cap * 2 ^ n) mx"
proof (induction n arbitrary: cap)
  case 0
  then show ?case by simp
next
  case (Suc n)
  then have w: "wrap64 (cap * 2) = cap * 2" by (simp add: in_int64_def)
  show ?case
  proof (cases "mx \<le> cap * 2")
    case True
    have "cap * 2 \<le> cap * 2 ^ Suc n"
      using Suc.prems(1) by simp
    then show ?thesis using True w by (simp add: Let_def min_def)
  next
    case False
    then show ?thesis using Suc.IH [of "cap * 2"] Suc.prems w
      by (simp add: Let_def mult.assoc)
  qed
qed

lemma delay_cap_closed:
  "safe_policy p \<Longrightarrow> delay_cap p a = min (initial_delay p * 2 ^ nat a) (max_delay p)"
  by (auto simp: delay_cap_def safe_policy_def delay_cap_loop_closed min_duration_def Let_def min_def)

lemma delay_cap_bounds:
  assumes "safe_policy p"
  shows "0 < delay_cap p a" and "initial_delay p \<le> delay_cap p a" and "delay_cap p a \<le> max_delay p"
proof -
  have "initial_delay p * 1 \<le> initial_delay p * 2 ^ nat a"
    using assms by (intro mult_left_mono) (simp_all add: safe_policy_def)
  then show "initial_delay p \<le> delay_cap p a" "delay_cap p a \<le> max_delay p" "0 < delay_cap p a"
    using assms by (auto simp: delay_cap_closed safe_policy_def)
qed

lemma delay_cap_mono:
  assumes "safe_policy p" and "a \<le> b"
  shows "delay_cap p a \<le> delay_cap p b"
proof -
  have "(2::int) ^ nat a \<le> 2 ^ nat b" using assms(2) by (intro power_increasing) auto
  then have "initial_delay p * 2 ^ nat a \<le> initial_delay p * 2 ^ nat b"
    using assms(1) by (intro mult_left_mono) (simp_all add: safe_policy_def)
  then show ?thesis using assms(1) by (auto simp: delay_cap_closed)
qed

lemma delay_cap_le_max: "delay_cap p a \<le> max_delay p"
  by (simp add: delay_cap_def min_duration_def Let_def)

lemma validated_fields:
  assumes "validate_retry_policy req = Inr ()"
  shows "rp_max_attempts req \<in> {1..100}" "0 < rp_initial_delay_seconds req"
    "rp_initial_delay_seconds req \<le> rp_max_delay_seconds req" "rp_max_delay_seconds req \<le> 86400"
    "rp_max_duration_seconds req \<in> {1..2592000}" "rp_rate_limit_per_minute req \<in> {0..60000}"
    "rp_state req \<in> {''active'', ''disabled''}"
  using assms by (auto simp: validate_retry_policy_def split: if_splits)

lemma validated_row_exact:
  assumes "validate_retry_policy req = Inr ()"
  shows "initial_delay (policy_of_row req) = rp_initial_delay_seconds req * ns_second"
    and "max_delay (policy_of_row req) = rp_max_delay_seconds req * ns_second"
    and "max_duration (policy_of_row req) = rp_max_duration_seconds req * ns_second"
  using validated_fields [OF assms] by (simp_all add: policy_of_row_def in_int64_def)

lemma validated_row_safe:
  "validate_retry_policy req = Inr () \<Longrightarrow> safe_policy (policy_of_row req)"
  using validated_fields [of req] by (simp add: safe_policy_def validated_row_exact)

lemma default_policy_safe: "safe_policy default_policy"
  by (simp add: safe_policy_def default_policy_def)

section \<open>Delays\<close>

definition rand_in_range :: "rand_source \<Rightarrow> bool" where
  "rand_in_range rng \<longleftrightarrow> (\<forall>bound > 0. case rng of
       CryptoRand draw \<Rightarrow> (case draw bound of None \<Rightarrow> True | Some n \<Rightarrow> 0 \<le> n \<and> n < bound)
     | MathRand draw \<Rightarrow> 0 \<le> draw bound \<and> draw bound < bound)"

lemma next_delay_in_range:
  assumes "safe_policy p" and "rand_in_range rng"
  shows "\<exists>d. next_delay p a rng = Some d \<and> 0 \<le> d \<and> d \<le> delay_cap p a"
proof -
  let ?cap = "delay_cap p a"
  have cap: "0 < ?cap" "?cap < 2 ^ 62"
    using delay_cap_bounds [OF assms(1), of a] assms(1) by (auto simp: safe_policy_def)
  then have w: "wrap64 (?cap + 1) = ?cap + 1" by (simp add: in_int64_def)
  show ?thesis
  proof (cases rng)
    case (CryptoRand draw)
    have "case draw (?cap + 1) of None \<Rightarrow> True | Some n \<Rightarrow> 0 \<le> n \<and> n < ?cap + 1"
      using assms(2) cap CryptoRand by (simp add: rand_in_range_def)
    then show ?thesis using cap w CryptoRand
      by (auto simp: next_delay_def Let_def in_int64_def split: option.splits)
  next
    case (MathRand draw)
    have "0 \<le> draw b \<and> draw b < b" if "0 < b" for b
      using assms(2) MathRand that by (simp add: rand_in_range_def)
    from this [of "?cap + 1"] show ?thesis using cap w MathRand
      by (auto simp: next_delay_def Let_def)
  qed
qed

lemma deterministic_delay_in_range:
  "0 \<le> next_deterministic_delay sha p a seed \<and>
   (delay_cap p a < max_int64 \<longrightarrow> next_deterministic_delay sha p a seed \<le> max 0 (delay_cap p a))"
proof (cases "delay_cap p a \<le> 0")
  case True
  then show ?thesis by (simp add: next_deterministic_delay_def Let_def)
next
  case False
  let ?m = "\<bar>wrap64 (delay_cap p a + 1)\<bar>"
  have eq: "next_deterministic_delay sha p a seed = x mod ?m" if "x = int (bytes_val (sha
      ((if seed = [] then seed_of sha [''empty''] else seed) @ [char_of (0::nat)] @
       itoa (normalize_attempt a))))" for x
    using False that by (simp add: next_deterministic_delay_def Let_def)
  have "?m \<noteq> 0" if "delay_cap p a < max_int64"
    using that False by (simp add: in_int64_def)
  moreover have "?m = delay_cap p a + 1" if "delay_cap p a < max_int64"
    using that False by (simp add: in_int64_def)
  ultimately show ?thesis using False eq [OF refl] pos_mod_bound [of ?m]
    by (smt (verit) Euclidean_Rings.pos_mod_sign int_one_le_iff_zero_less mod_by_0 of_nat_0_le_iff)
qed

section \<open>Seeds\<close>

lemma length_big_endian [simp]: "length (big_endian k n) = k"
  by (induction k arbitrary: n) auto

lemma bytes_val_snoc: "bytes_val (s @ [c]) = bytes_val s * 256 + of_char c"
  by (simp add: bytes_val_def)

lemma bytes_val_big_endian: "bytes_val (big_endian k n) = n mod 256 ^ k"
proof (induction k arbitrary: n)
  case 0
  show ?case by (simp add: bytes_val_def)
next
  case (Suc k)
  have "n mod 256 ^ Suc k = (n div 256 mod 256 ^ k) * 256 + n mod 256"
    by (simp add: mod_mult2_eq mult.commute)
  then show ?case by (simp add: Suc bytes_val_snoc)
qed

lemma big_endian_inj:
  "n < 256 ^ k \<Longrightarrow> m < 256 ^ k \<Longrightarrow> big_endian k n = big_endian k m \<Longrightarrow> n = m"
  by (metis bytes_val_big_endian mod_less)

lemma seed_material_inj:
  assumes "\<And>x. x \<in> set ps \<union> set qs \<Longrightarrow> length x < 2 ^ 64"
    and "seed_material ps = seed_material qs"
  shows "ps = qs"
  using assms
proof (induction ps arbitrary: qs)
  case Nil
  then show ?case by (cases qs) (auto simp: seed_material_def dest: arg_cong [where f = length])
next
  case (Cons p ps)
  show ?case
  proof (cases qs)
    case Nil
    with Cons.prems show ?thesis
      by (auto simp: seed_material_def dest: arg_cong [where f = length])
  next
    case (Cons q qs')
    with Cons.prems have m: "big_endian 8 (length p) @ p @ seed_material ps =
        big_endian 8 (length q) @ q @ seed_material qs'"
      by (simp add: seed_material_def)
    then have "big_endian 8 (length p) = big_endian 8 (length q)"
      and rest: "p @ seed_material ps = q @ seed_material qs'" by simp_all
    moreover have "length p < 256 ^ 8" "length q < 256 ^ 8"
      using Cons.prems(1) [of p] Cons.prems(1) [of q] Cons by simp_all
    ultimately have "length p = length q" using big_endian_inj by blast
    with rest have "p = q" "seed_material ps = seed_material qs'" by simp_all
    then show ?thesis using Cons.IH [of qs'] Cons.prems(1) Cons by auto
  qed
qed

lemma seed_of_eq_iff:
  assumes "\<And>x. x \<in> set ps \<union> set qs \<Longrightarrow> length x < 2 ^ 64"
    and "inj_on sha {seed_material ps, seed_material qs}"
  shows "seed_of sha ps = seed_of sha qs \<longleftrightarrow> ps = qs"
  using assms seed_material_inj [of ps qs]
  by (auto simp: seed_of_def hex_encode_inj dest: inj_onD)

section \<open>Classification\<close>

lemma classify_retryable_iff:
  "cls_retryable (classify_status st) \<longleftrightarrow>
   st \<in> {408, 409, 425, 429} \<or> (500 \<le> st \<and> st \<le> 599)"
  by (auto simp: classify_status_def)

lemma classify_success_iff:
  "cls_reason (classify_status st) = ''success'' \<longleftrightarrow> 200 \<le> st \<and> st \<le> 299"
  by (simp add: classify_status_def)

section \<open>Properties\<close>

text \<open>
  C19. Under every policy that \<open>validateRetryPolicy\<close> accepts, the back-off cap of attempt
  \<open>a\<close> is exactly the initial delay doubled \<open>a\<close> times, cut at the maximum delay (no
  intermediate overflow); the jittered delay exists (no panic of the random source) and lies
  between 0 and the cap, and so does the deterministic delay, whatever the hash returns.
\<close>

theorem accepted_policy_delays:
  assumes "validate_retry_policy req = Inr ()" and "rand_in_range rng"
  shows "delay_cap (policy_of_row req) a =
      min (rp_initial_delay_seconds req * ns_second * 2 ^ nat a) (rp_max_delay_seconds req * ns_second)
    \<and> (\<exists>d. next_delay (policy_of_row req) a rng = Some d
           \<and> 0 \<le> d \<and> d \<le> delay_cap (policy_of_row req) a)
    \<and> next_deterministic_delay sha (policy_of_row req) a seed \<in> {0..delay_cap (policy_of_row req) a}"
proof -
  note safe = validated_row_safe [OF assms(1)]
  have cap: "0 < delay_cap (policy_of_row req) a" "delay_cap (policy_of_row req) a < max_int64"
    using delay_cap_bounds [OF safe, of a] safe by (auto simp: safe_policy_def)
  then have "next_deterministic_delay sha (policy_of_row req) a seed
      \<in> {0..delay_cap (policy_of_row req) a}"
    using deterministic_delay_in_range [of sha "policy_of_row req" a seed] by simp
  then show ?thesis
    using delay_cap_closed [OF safe, of a] validated_row_exact [OF assms(1)]
      next_delay_in_range [OF safe assms(2), of a] by simp
qed

definition sample_policy_request :: retry_policy_request where
  "sample_policy_request = \<lparr> rp_state = ''active'', rp_max_attempts = 12,
     rp_max_duration_seconds = 259200, rp_initial_delay_seconds = 10,
     rp_max_delay_seconds = 21600, rp_rate_limit_per_minute = 0 \<rparr>"

lemma sample_policy_request_valid: "validate_retry_policy sample_policy_request = Inr ()"
  by (simp add: validate_retry_policy_def sample_policy_request_def)

theorem accepted_policy_delays_witness:
  "delay_cap (policy_of_row sample_policy_request) 3 = 80 * ns_second
   \<and> next_deterministic_delay rev (policy_of_row sample_policy_request) 3 ''s''
       \<in> {0..80 * ns_second}"
proof -
  have "rand_in_range (MathRand (\<lambda>b. b - 1))" by (simp add: rand_in_range_def)
  from accepted_policy_delays [OF sample_policy_request_valid this, of 3 rev "''s''"]
  show ?thesis by (simp add: sample_policy_request_def)
qed

text \<open>
  The seed of the deterministic delay determines the tenant, delivery, event and endpoint it
  was made from: unless SHA-256 collides on the two inputs hashed, two seeds are equal only for
  the same list of parts (the 8-byte length prefixes make the hashed text unambiguous).
\<close>

theorem retry_seed_determines_parts:
  assumes "\<And>x. x \<in> set ps \<union> set qs \<Longrightarrow> length x < 2 ^ 64"
    and "inj_on sha {seed_material ps, seed_material qs}"
  shows "seed_of sha ps = seed_of sha qs \<longleftrightarrow> ps = qs"
  using seed_of_eq_iff [OF assms] by blast

theorem retry_seed_determines_parts_witness:
  "seed_of id [''ab'', ''c''] \<noteq> seed_of id [''a'', ''bc'']"
proof -
  have "length x < 2 ^ 64" if "x \<in> set [''ab'', ''c''] \<union> set [''a'', ''bc'']" for x
    using that by auto
  from retry_seed_determines_parts [where ps = "[''ab'', ''c'']" and qs = "[''a'', ''bc'']" and sha = id,
      OF this] show ?thesis by simp
qed

end
