(* ===== verification/Sql_Store.thy ===== *)
theory Sql_Store
  imports Go_Prelude "HOL-Library.Product_Lexorder"
begin

text \<open>
  How the development models code that talks to PostgreSQL. A table is the list of its rows in
  the order of insertion, a database is a record of tables, and a transaction body is a function
  from the database to an error or to the new database and a result. Every statement takes the
  driver's answer from a parameter \<open>faults\<close>, a function from the statement's label to an
  error: a theorem that holds for every \<open>faults\<close> covers every choice of failing statements.
  A statement inside a loop has one label; every modelled loop leaves its transaction at the
  first error, so a failure in a later iteration has the same outcome, the rollback.
  \<open>run_tx\<close> is Begin, the body, Commit, with the deferred Rollback on every error path.

  \<open>ORDER BY\<close> is a stable sort, so rows that tie keep the order of insertion (PostgreSQL
  leaves their order open).
\<close>

type_synonym faults = "string \<Rightarrow> go_error option"

type_synonym ('s, 'a) tx = "'s \<Rightarrow> ('s \<times> 'a) res"

abbreviation no_faults :: faults where
  "no_faults \<equiv> (\<lambda>_. None)"

section \<open>Queries\<close>

definition order_by :: "('r \<Rightarrow> 'k::linorder) \<Rightarrow> 'r list \<Rightarrow> 'r list" where
  "order_by k rows = sort_key k rows"

text \<open>\<open>QueryRow(...).Scan\<close>: the first row, \<open>pgx.ErrNoRows\<close> when there is none.\<close>

definition query_row :: "faults \<Rightarrow> string \<Rightarrow> 'r list \<Rightarrow> 'r res" where
  "query_row f lbl rows =
     (case f lbl of Some e \<Rightarrow> Inl e
      | None \<Rightarrow> (case rows of [] \<Rightarrow> Inl ErrNoRows | r # _ \<Rightarrow> Inr r))"

definition query_rows :: "faults \<Rightarrow> string \<Rightarrow> 'r list \<Rightarrow> 'r list res" where
  "query_rows f lbl rows = (case f lbl of Some e \<Rightarrow> Inl e | None \<Rightarrow> Inr rows)"

lemma query_row_Inr:
  "query_row f lbl rows = Inr r \<longleftrightarrow> f lbl = None \<and> rows \<noteq> [] \<and> r = hd rows"
  by (auto simp: query_row_def split: option.splits list.splits)

lemma query_row_InrE [elim, res_elims]:
  assumes "query_row f lbl rows = Inr r"
  obtains "f lbl = None" and "rows \<noteq> []" and "r = hd rows" and "r \<in> set rows"
  using assms by (auto simp: query_row_Inr)

lemma query_row_in: "query_row f lbl rows = Inr r \<Longrightarrow> r \<in> set rows"
  by (auto simp: query_row_Inr)

lemma query_row_no_faults [simp]:
  "query_row no_faults lbl rows = (case rows of [] \<Rightarrow> Inl ErrNoRows | r # _ \<Rightarrow> Inr r)"
  by (simp add: query_row_def)

lemma query_rows_Inr [simp]: "query_rows f lbl rows = Inr rs \<longleftrightarrow> f lbl = None \<and> rs = rows"
  by (auto simp: query_rows_def split: option.splits)

lemma set_order_by [simp]: "set (order_by k rows) = set rows"
  by (simp add: order_by_def)

lemma length_order_by [simp]: "length (order_by k rows) = length rows"
  by (simp add: order_by_def)

lemma order_by_Nil [simp]: "order_by k rows = [] \<longleftrightarrow> rows = []"
  by (metis length_0_conv length_order_by)

lemma hd_order_by_least: "r \<in> set rows \<Longrightarrow> k (hd (order_by k rows)) \<le> k r"
proof -
  assume r: "r \<in> set rows"
  then obtain x xs where s: "order_by k rows = x # xs"
    by (metis list.exhaust list.set_cases order_by_Nil neq_Nil_conv)
  have "sorted (map k (x # xs))" using s by (metis order_by_def sorted_sort_key)
  moreover have "r \<in> set (x # xs)" using r s set_order_by [of k rows] by simp
  ultimately show ?thesis using s by auto
qed

lemma hd_order_by_in: "rows \<noteq> [] \<Longrightarrow> hd (order_by k rows) \<in> set rows"
  by (metis hd_in_set order_by_Nil set_order_by)

text \<open>\<open>LEFT JOIN\<close> on the identifier of the right table.\<close>

definition left_join :: "('r \<Rightarrow> bool) \<Rightarrow> 'r list \<Rightarrow> 'r option list" where
  "left_join p rows = (case filter p rows of [] \<Rightarrow> [None] | rs \<Rightarrow> map Some rs)"

lemma left_join_unique:
  assumes "x \<in> set (left_join p rows)" and "distinct (map g rows)"
    and "\<And>r. r \<in> set rows \<Longrightarrow> p r \<Longrightarrow> g r = c" and "r \<in> set rows" and "p r"
  shows "x = Some r"
proof -
  have "\<exists>r'. x = Some r' \<and> r' \<in> set rows \<and> p r'"
    using assms(1,4,5) by (fastforce simp: left_join_def filter_empty_conv split: list.splits
        dest: arg_cong [where f = set])
  then show ?thesis using assms(2-5) by (metis distinct_map inj_onD)
qed

section \<open>Transactions\<close>

definition return_tx :: "'a \<Rightarrow> ('s, 'a) tx" where
  "return_tx a = (\<lambda>s. Inr (s, a))"

definition fail_tx :: "go_error \<Rightarrow> ('s, 'a) tx" where
  "fail_tx e = (\<lambda>s. Inl e)"

definition bind_tx :: "('s, 'a) tx \<Rightarrow> ('a \<Rightarrow> ('s, 'b) tx) \<Rightarrow> ('s, 'b) tx" where
  "bind_tx m k = (\<lambda>s. case m s of Inl e \<Rightarrow> Inl e | Inr (s', a) \<Rightarrow> k a s')"

definition then_tx :: "('s, 'a) tx \<Rightarrow> ('s, 'b) tx \<Rightarrow> ('s, 'b) tx" where
  "then_tx m k = bind_tx m (\<lambda>_. k)"

text \<open>\<open>Exec\<close> of an unconditional write, and a write that may report an error of its own.\<close>

definition exec_tx :: "faults \<Rightarrow> string \<Rightarrow> ('s \<Rightarrow> 's) \<Rightarrow> ('s, unit) tx" where
  "exec_tx f lbl upd = (\<lambda>s. case f lbl of Some e \<Rightarrow> Inl e | None \<Rightarrow> Inr (upd s, ()))"

definition try_tx :: "faults \<Rightarrow> string \<Rightarrow> ('s, 'a) tx \<Rightarrow> ('s, 'a) tx" where
  "try_tx f lbl m = (\<lambda>s. case f lbl of Some e \<Rightarrow> Inl e | None \<Rightarrow> m s)"

definition read_tx :: "('s \<Rightarrow> 'a res) \<Rightarrow> ('s, 'a) tx" where
  "read_tx q = (\<lambda>s. case q s of Inl e \<Rightarrow> Inl e | Inr a \<Rightarrow> Inr (s, a))"

definition run_tx :: "faults \<Rightarrow> ('s, 'a) tx \<Rightarrow> 's \<Rightarrow> 's \<times> 'a res" where
  "run_tx f body s =
     (case f ''begin'' of Some e \<Rightarrow> (s, Inl e)
      | None \<Rightarrow>
         (case body s of Inl e \<Rightarrow> (s, Inl e)
          | Inr (s', a) \<Rightarrow> (case f ''commit'' of Some e \<Rightarrow> (s, Inl e) | None \<Rightarrow> (s', Inr a))))"

lemmas tx_defs = return_tx_def fail_tx_def bind_tx_def then_tx_def exec_tx_def try_tx_def read_tx_def

lemma return_tx_Inr [simp]: "return_tx a s = Inr (s', b) \<longleftrightarrow> s' = s \<and> b = a"
  by (auto simp: return_tx_def)

lemma fail_tx_Inr [simp]: "fail_tx e s = Inr r \<longleftrightarrow> False"
  by (simp add: fail_tx_def)

lemma bind_tx_Inr [simp]:
  "bind_tx m k s = Inr r \<longleftrightarrow> (\<exists>s1 a. m s = Inr (s1, a) \<and> k a s1 = Inr r)"
  by (auto simp: bind_tx_def split: sum.splits)

lemma then_tx_Inr [simp]:
  "then_tx m k s = Inr r \<longleftrightarrow> (\<exists>s1 a. m s = Inr (s1, a) \<and> k s1 = Inr r)"
  by (simp add: then_tx_def)

lemma exec_tx_Inr [simp]: "exec_tx f lbl upd s = Inr (s', u) \<longleftrightarrow> f lbl = None \<and> s' = upd s"
  by (auto simp: exec_tx_def split: option.splits)

lemma try_tx_Inr [simp]: "try_tx f lbl m s = Inr r \<longleftrightarrow> f lbl = None \<and> m s = Inr r"
  by (auto simp: try_tx_def split: option.splits)

lemma read_tx_Inr [simp]: "read_tx q s = Inr (s', a) \<longleftrightarrow> q s = Inr a \<and> s' = s"
  by (auto simp: read_tx_def split: sum.splits)

text \<open>All or nothing: a transaction that reports an error has changed no table.\<close>

lemma run_tx_error: "run_tx f body s = (s', Inl e) \<Longrightarrow> s' = s"
  by (auto simp: run_tx_def split: option.splits sum.splits)

lemma run_tx_ok:
  "run_tx f body s = (s', Inr a) \<longleftrightarrow>
   f ''begin'' = None \<and> f ''commit'' = None \<and> body s = Inr (s', a)"
  by (auto simp: run_tx_def split: option.splits sum.splits)

lemma run_tx_cases:
  obtains (failed) e where "run_tx f body s = (s, Inl e)"
  | (committed) s' a where "run_tx f body s = (s', Inr a)" and "body s = Inr (s', a)"
  by (cases "run_tx f body s"; cases "snd (run_tx f body s)")
    (auto dest: run_tx_error simp: run_tx_ok)

lemma run_tx_rule:
  "P s \<Longrightarrow> (\<And>s' a. body s = Inr (s', a) \<Longrightarrow> P s') \<Longrightarrow> P (fst (run_tx f body s))"
  by (auto simp: run_tx_def split: option.splits sum.splits)

section \<open>Invariants of transaction bodies\<close>

text \<open>A body preserves a predicate of the database when every successful run does.\<close>

definition tx_preserves :: "('s \<Rightarrow> bool) \<Rightarrow> ('s, 'a) tx \<Rightarrow> bool" where
  "tx_preserves I m \<longleftrightarrow> (\<forall>s s' a. I s \<longrightarrow> m s = Inr (s', a) \<longrightarrow> I s')"

named_theorems tx_intros \<open>preservation rules of transaction bodies\<close>

lemma tx_preservesI: "(\<And>s s' a. I s \<Longrightarrow> m s = Inr (s', a) \<Longrightarrow> I s') \<Longrightarrow> tx_preserves I m"
  by (auto simp: tx_preserves_def)

lemma tx_preservesD: "tx_preserves I m \<Longrightarrow> I s \<Longrightarrow> m s = Inr (s', a) \<Longrightarrow> I s'"
  by (auto simp: tx_preserves_def)

lemma tx_preserves_return [tx_intros]: "tx_preserves I (return_tx a)"
  by (simp add: tx_preserves_def)

lemma tx_preserves_fail [tx_intros]: "tx_preserves I (fail_tx e)"
  by (simp add: tx_preserves_def)

lemma tx_preserves_read [tx_intros]: "tx_preserves I (read_tx q)"
  by (simp add: tx_preserves_def)

lemma tx_preserves_exec [tx_intros]: "(\<And>s. I s \<Longrightarrow> I (upd s)) \<Longrightarrow> tx_preserves I (exec_tx f lbl upd)"
  by (simp add: tx_preserves_def)

lemma tx_preserves_try [tx_intros]: "tx_preserves I m \<Longrightarrow> tx_preserves I (try_tx f lbl m)"
  by (simp add: tx_preserves_def)

lemma tx_preserves_bind [tx_intros]:
  "tx_preserves I m \<Longrightarrow> (\<And>a. tx_preserves I (k a)) \<Longrightarrow> tx_preserves I (bind_tx m k)"
  unfolding tx_preserves_def bind_tx_Inr by blast

lemma tx_preserves_then [tx_intros]:
  "tx_preserves I m \<Longrightarrow> tx_preserves I k \<Longrightarrow> tx_preserves I (then_tx m k)"
  unfolding tx_preserves_def then_tx_Inr by blast

lemma tx_preserves_if [tx_intros]:
  "(b \<Longrightarrow> tx_preserves I m) \<Longrightarrow> (\<not> b \<Longrightarrow> tx_preserves I k) \<Longrightarrow> tx_preserves I (if b then m else k)"
  by simp

lemma run_tx_preserves:
  assumes "tx_preserves I body" and "I s"
  shows "I (fst (run_tx f body s))"
  by (cases f body s rule: run_tx_cases) (use assms in \<open>auto dest: tx_preservesD\<close>)

section \<open>Rows\<close>

definition update_where :: "('r \<Rightarrow> bool) \<Rightarrow> ('r \<Rightarrow> 'r) \<Rightarrow> 'r list \<Rightarrow> 'r list" where
  "update_where p upd rows = map (\<lambda>r. if p r then upd r else r) rows"

lemma update_where_Nil [simp]: "update_where p upd [] = []"
  by (simp add: update_where_def)

lemma update_where_Cons [simp]:
  "update_where p upd (r # rs) = (if p r then upd r else r) # update_where p upd rs"
  by (simp add: update_where_def)

lemma length_update_where [simp]: "length (update_where p upd rows) = length rows"
  by (simp add: update_where_def)

lemma set_update_where:
  "set (update_where p upd rows) = (\<lambda>r. if p r then upd r else r) ` set rows"
  by (simp add: update_where_def)

lemma map_update_where:
  "(\<And>r. r \<in> set rows \<Longrightarrow> p r \<Longrightarrow> g (upd r) = g r) \<Longrightarrow> map g (update_where p upd rows) = map g rows"
  by (simp add: update_where_def)

lemma update_where_none: "(\<And>r. r \<in> set rows \<Longrightarrow> \<not> p r) \<Longrightarrow> update_where p upd rows = rows"
  by (induction rows) auto

end
