(* ===== verification/Authz_Policy.thy ===== *)
theory Authz_Policy
  imports Go_Numbers Sql_Store
begin

text \<open>
  Authorization: the role and scope matrix of internal/authz/policy.go, the decision procedure
  \<open>AuthorizationService.Authorize\<close> of internal/app/authorization.go, and the
  \<open>ExplainAuthorization\<close> query of internal/adapters/postgres/enterprise_identity.go it asks
  for role bindings and access policies.
\<close>

section \<open>Model: roles and scopes\<close>

record actor =
  actor_id :: string
  actor_tenant :: string
  actor_role :: string
  actor_scopes :: "string list"
  actor_source :: string

record authz_resource =
  res_tenant :: string
  res_family :: string
  res_id :: string
  res_environment :: string
  res_attributes :: "(string \<times> string) list option"

record decision =
  dec_allowed :: bool
  dec_action :: string
  dec_resource :: authz_resource
  dec_reason :: string
  dec_matched_role :: string
  dec_matched_binding :: string
  dec_matched_policy :: string
  dec_required_scopes :: "string list"

fun has_scope :: "string \<Rightarrow> string list \<Rightarrow> bool" where
  "has_scope scope [] = False"
| "has_scope scope (item # rest) = (if item = scope then True else has_scope scope rest)"

definition role_allows :: "string \<Rightarrow> string \<Rightarrow> bool" where
  "role_allows role scope =
     (if role = ''owner'' then True
      else if role = ''admin'' then scope \<noteq> ''events:raw'' \<and> scope \<noteq> ''security:write''
      else if role = ''developer'' then has_scope scope
        [''sources:read'', ''sources:write'',
         ''endpoints:read'', ''endpoints:write'',
         ''subscriptions:read'', ''subscriptions:write'',
         ''routes:read'', ''routes:write'',
         ''schemas:read'', ''schemas:write'',
         ''events:read'', ''events:write'',
         ''deliveries:read'', ''deliveries:retry'',
         ''replay:read'', ''replay:write'',
         ''incidents:read'', ''incidents:write'']
      else if role = ''operator'' then has_scope scope
        [''sources:read'', ''endpoints:read'', ''subscriptions:read'', ''routes:read'', ''schemas:read'',
         ''events:read'', ''events:write'', ''deliveries:read'', ''deliveries:retry'',
         ''replay:read'', ''replay:write'',
         ''incidents:read'', ''incidents:write'', ''ops:read'', ''ops:write'']
      else if role = ''security'' then has_scope scope
        [''security:read'', ''security:write'', ''audit:read'', ''events:read'', ''events:raw'',
         ''incidents:read'', ''incidents:write'']
      else if role = ''auditor'' then has_scope scope
        [''audit:read'', ''events:read'', ''events:raw'', ''deliveries:read'', ''replay:read'',
         ''security:read'', ''incidents:read'']
      else if role = ''support'' then has_scope scope
        [''events:read'', ''deliveries:read'', ''replay:read'', ''incidents:read'']
      else False)"

fun scope_listed :: "string \<Rightarrow> string list \<Rightarrow> bool" where
  "scope_listed scope [] = False"
| "scope_listed scope (s # rest) = (if s = scope \<or> s = ''*'' then True else scope_listed scope rest)"

definition can :: "actor \<Rightarrow> string \<Rightarrow> string \<Rightarrow> bool" where
  "can a scope tenant =
     (if actor_tenant a = [] \<or> tenant = [] \<or> actor_tenant a \<noteq> tenant then False
      else if \<not> role_allows (actor_role a) scope then False
      else if actor_scopes a = [] then True
      else scope_listed scope (actor_scopes a))"

definition actor_scopes_allow :: "actor \<Rightarrow> string \<Rightarrow> bool" where
  "actor_scopes_allow a action =
     (if actor_scopes a = [] then True else scope_listed action (actor_scopes a))"

section \<open>Model: the store's explanation\<close>

record membership_row =
  mb_tenant :: string
  mb_user :: string
  mb_role :: string
  mb_state :: string

record role_binding_row =
  rb_id :: string
  rb_tenant :: string
  rb_principal_type :: string
  rb_principal :: string
  rb_role :: string
  rb_family :: string
  rb_resource :: string
  rb_environment :: string
  rb_state :: string
  rb_created :: gotime

record group_member_row =
  gm_tenant :: string
  gm_group :: string
  gm_user :: string

record policy_rule_row =
  pr_id :: string
  pr_tenant :: string
  pr_action :: string
  pr_effect :: string
  pr_family :: string
  pr_environment :: string
  pr_state :: string
  pr_created :: gotime

record authz_log_row =
  lg_id :: string
  lg_tenant :: string
  lg_actor :: string
  lg_action :: string
  lg_family :: string
  lg_resource :: string
  lg_environment :: string
  lg_allowed :: bool
  lg_binding :: string
  lg_policy :: string
  lg_reason :: string

record authz_db =
  memberships :: "membership_row list"
  role_bindings :: "role_binding_row list"
  scim_group_memberships :: "group_member_row list"
  access_policy_rules :: "policy_rule_row list"
  authz_decision_logs :: "authz_log_row list"

record explain_request =
  ex_action :: string
  ex_family :: string
  ex_resource :: string
  ex_environment :: string
  ex_attributes :: "(string \<times> string) list option"

definition default_wildcard :: "string \<Rightarrow> string" where
  "default_wildcard v = (let v' = trim_space v in if v' = [] then ''*'' else v')"

definition binding_covers :: "role_binding_row \<Rightarrow> explain_request \<Rightarrow> bool" where
  "binding_covers rb req \<longleftrightarrow>
     (rb_family rb = ''*'' \<or> rb_family rb = ex_family req)
     \<and> (rb_resource rb = ''*'' \<or> rb_resource rb = default_wildcard (ex_resource req))
     \<and> (rb_environment rb = ''*'' \<or> rb_environment rb = default_wildcard (ex_environment req))"

definition membership_rows :: "authz_db \<Rightarrow> string \<Rightarrow> string \<Rightarrow> membership_row list" where
  "membership_rows db t u =
     filter (\<lambda>m. mb_tenant m = t \<and> mb_user m = u \<and> mb_state m = ''active'') (memberships db)"

definition user_binding_rows :: "authz_db \<Rightarrow> string \<Rightarrow> string \<Rightarrow> explain_request \<Rightarrow> role_binding_row list" where
  "user_binding_rows db t u req = order_by (\<lambda>r. - rb_created r)
     (filter (\<lambda>r. rb_tenant r = t \<and> rb_principal_type r = ''user'' \<and> rb_principal r = u
        \<and> rb_state r = ''active'' \<and> binding_covers r req) (role_bindings db))"

definition group_binding_rows :: "authz_db \<Rightarrow> string \<Rightarrow> string \<Rightarrow> explain_request \<Rightarrow> role_binding_row list" where
  "group_binding_rows db t u req = order_by (\<lambda>r. - rb_created r)
     (concat (map (\<lambda>r. map (\<lambda>_. r)
          (filter (\<lambda>g. gm_tenant g = rb_tenant r \<and> gm_group g = rb_principal r \<and> gm_user g = u)
             (scim_group_memberships db)))
        (filter (\<lambda>r. rb_tenant r = t \<and> rb_principal_type r = ''group'' \<and> rb_state r = ''active''
           \<and> binding_covers r req) (role_bindings db))))"

definition rule_covers :: "policy_rule_row \<Rightarrow> string \<Rightarrow> explain_request \<Rightarrow> bool" where
  "rule_covers r t req \<longleftrightarrow> pr_tenant r = t \<and> pr_state r = ''active''
     \<and> (pr_action r = ''*'' \<or> pr_action r = ex_action req)
     \<and> (pr_family r = ''*'' \<or> pr_family r = ex_family req)
     \<and> (pr_environment r = ''*'' \<or> pr_environment r = default_wildcard (ex_environment req))"

definition policy_rows :: "authz_db \<Rightarrow> string \<Rightarrow> explain_request \<Rightarrow> policy_rule_row list" where
  "policy_rows db t req =
     order_by (\<lambda>r. (if pr_effect r = ''deny'' then 0::int else 1, - pr_created r))
       (filter (\<lambda>r. rule_covers r t req) (access_policy_rules db))"

definition role_actor :: "string \<Rightarrow> string \<Rightarrow> string \<Rightarrow> actor" where
  "role_actor u t role = \<lparr> actor_id = u, actor_tenant = t, actor_role = role, actor_scopes = [],
     actor_source = [] \<rparr>"

text \<open>
  The three lookups that can allow (baseline role, the newest covering binding of the user, the
  newest covering binding of one of the user's groups), then the access policy that overrides
  them. An error of a lookup counts as no row.
\<close>

definition role_decision :: "faults \<Rightarrow> authz_db \<Rightarrow> string \<Rightarrow> string \<Rightarrow> explain_request \<Rightarrow> decision \<Rightarrow> decision" where
  "role_decision f db t u req d =
     (let grants = (\<lambda>role. can (role_actor u t role) (ex_action req) t);
          from_group =
            (case query_row f ''group_binding'' (group_binding_rows db t u req) of
               Inr rb \<Rightarrow> if grants (rb_role rb)
                 then d\<lparr>dec_allowed := True, dec_matched_role := rb_role rb,
                        dec_matched_binding := rb_id rb,
                        dec_reason := ''allowed by group role binding''\<rparr>
                 else d
             | Inl _ \<Rightarrow> d);
          from_binding =
            (case query_row f ''user_binding'' (user_binding_rows db t u req) of
               Inr rb \<Rightarrow> if grants (rb_role rb)
                 then d\<lparr>dec_allowed := True, dec_matched_role := rb_role rb,
                        dec_matched_binding := rb_id rb,
                        dec_reason := ''allowed by resource role binding''\<rparr>
                 else from_group
             | Inl _ \<Rightarrow> from_group)
      in case query_row f ''membership'' (membership_rows db t u) of
           Inr m \<Rightarrow> if grants (mb_role m)
             then d\<lparr>dec_allowed := True, dec_matched_role := mb_role m,
                    dec_reason := ''allowed by baseline role''\<rparr>
             else from_binding
         | Inl _ \<Rightarrow> from_binding)"

definition policy_decision :: "faults \<Rightarrow> authz_db \<Rightarrow> string \<Rightarrow> explain_request \<Rightarrow> decision \<Rightarrow> decision" where
  "policy_decision f db t req d =
     (case query_row f ''policy'' (policy_rows db t req) of
        Inl _ \<Rightarrow> d
      | Inr r \<Rightarrow>
          let d' = d\<lparr>dec_matched_policy := pr_id r\<rparr> in
          if pr_effect r = ''deny''
          then d'\<lparr>dec_allowed := False, dec_reason := ''denied by access policy''\<rparr>
          else if pr_effect r = ''allow''
          then d'\<lparr>dec_allowed := True, dec_reason := ''allowed by access policy''\<rparr>
          else d')"

definition explain_base :: "string \<Rightarrow> explain_request \<Rightarrow> decision" where
  "explain_base t req = \<lparr> dec_allowed = False, dec_action = ex_action req,
     dec_resource = \<lparr> res_tenant = t, res_family = ex_family req, res_id = ex_resource req,
       res_environment = ex_environment req, res_attributes = ex_attributes req \<rparr>,
     dec_reason = ''no matching role binding or baseline role'', dec_matched_role = [],
     dec_matched_binding = [], dec_matched_policy = [], dec_required_scopes = [] \<rparr>"

definition explain_authorization ::
    "faults \<Rightarrow> string \<Rightarrow> authz_db \<Rightarrow> string \<Rightarrow> string \<Rightarrow> explain_request \<Rightarrow> authz_db \<times> decision" where
  "explain_authorization f log_id db t u req =
     (let d = policy_decision f db t req (role_decision f db t u req (explain_base t req));
          row = \<lparr> lg_id = log_id, lg_tenant = t, lg_actor = u, lg_action = ex_action req,
                  lg_family = ex_family req, lg_resource = ex_resource req,
                  lg_environment = ex_environment req, lg_allowed = dec_allowed d, lg_binding = dec_matched_binding d,
                  lg_policy = dec_matched_policy d, lg_reason = dec_reason d \<rparr>;
          db' = (case f ''authz_log'' of Some _ \<Rightarrow> db
                 | None \<Rightarrow> db\<lparr>authz_decision_logs := authz_decision_logs db @ [row]\<rparr>)
      in (db', d))"

section \<open>Model: Authorize\<close>

record authz_request =
  rq_actor :: actor
  rq_tenant :: string
  rq_action :: string
  rq_family :: string
  rq_resource :: string
  rq_environment :: string

definition redact_decision :: "decision \<Rightarrow> decision" where
  "redact_decision d = d\<lparr>dec_resource := (dec_resource d)\<lparr>res_attributes := None\<rparr>\<rparr>"

text \<open>
  The store is \<^term>\<open>None\<close> when the service has no enterprise store; the interface lets
  \<open>ExplainAuthorization\<close> fail, which falls back to the baseline check.
\<close>

type_synonym 's explain_store = "'s \<Rightarrow> string \<Rightarrow> string \<Rightarrow> explain_request \<Rightarrow> 's \<times> decision res"

definition authorize :: "'s explain_store option \<Rightarrow> 's \<Rightarrow> authz_request \<Rightarrow> 's \<times> decision" where
  "authorize store db req =
     (let resource = \<lparr> res_tenant = trim_space (rq_tenant req), res_family = trim_space (rq_family req),
            res_id = trim_space (rq_resource req), res_environment = trim_space (rq_environment req),
            res_attributes = None \<rparr>;
          action = trim_space (rq_action req);
          act = rq_actor req;
          d = \<lparr> dec_allowed = False, dec_action = action, dec_resource = resource,
            dec_reason = ''authorization context is incomplete'', dec_matched_role = [],
            dec_matched_binding = [], dec_matched_policy = [], dec_required_scopes = [action] \<rparr>;
          baseline =
            (if \<not> can act action (res_tenant resource)
             then d\<lparr>dec_reason := ''baseline role or scope does not allow action''\<rparr>
             else d\<lparr>dec_allowed := True, dec_reason := ''allowed by baseline role'',
                    dec_matched_role := actor_role act\<rparr>)
      in if actor_id act = [] \<or> actor_tenant act = [] \<or> res_tenant resource = []
            \<or> action = [] \<or> res_family resource = []
         then (db, d)
         else if actor_tenant act \<noteq> res_tenant resource
         then (db, d\<lparr>dec_reason := ''actor tenant does not match resource tenant''\<rparr>)
         else case store of
           None \<Rightarrow> (db, baseline)
         | Some explain \<Rightarrow>
             (case explain db (res_tenant resource) (actor_id act)
                 \<lparr> ex_action = action, ex_family = res_family resource, ex_resource = res_id resource,
                   ex_environment = res_environment resource, ex_attributes = None \<rparr> of
                (db', Inl _) \<Rightarrow> (db', baseline)
              | (db', Inr explained) \<Rightarrow>
                  let explained = redact_decision (explained\<lparr>dec_required_scopes := [action]\<rparr>) in
                  if \<not> dec_allowed explained then (db', explained)
                  else if \<not> actor_scopes_allow act action
                  then (db', explained\<lparr>dec_allowed := False,
                                       dec_reason := ''actor scope does not allow action''\<rparr>)
                  else (db', explained)))"

definition pg_explain :: "faults \<Rightarrow> string \<Rightarrow> authz_db explain_store" where
  "pg_explain f log_id db t u req =
     (case explain_authorization f log_id db t u req of (db', d) \<Rightarrow> (db', Inr d))"

definition authorized :: "'s explain_store option \<Rightarrow> 's \<Rightarrow> actor \<Rightarrow> string \<Rightarrow> string \<Rightarrow> string \<Rightarrow> string \<Rightarrow> bool" where
  "authorized store db a action family rid env =
     dec_allowed (snd (authorize store db \<lparr> rq_actor = a, rq_tenant = actor_tenant a,
       rq_action = action, rq_family = family, rq_resource = rid, rq_environment = env \<rparr>))"

section \<open>Roles and scopes\<close>

lemma has_scope_iff: "has_scope scope allowed \<longleftrightarrow> scope \<in> set allowed"
  by (induction allowed) auto

lemma scope_listed_iff: "scope_listed scope ss \<longleftrightarrow> scope \<in> set ss \<or> ''*'' \<in> set ss"
  by (induction ss) auto

lemma actor_scopes_allow_iff:
  "actor_scopes_allow a action \<longleftrightarrow>
   actor_scopes a = [] \<or> action \<in> set (actor_scopes a) \<or> ''*'' \<in> set (actor_scopes a)"
  by (simp add: actor_scopes_allow_def scope_listed_iff)

lemma can_iff:
  "can a scope t \<longleftrightarrow> actor_tenant a = t \<and> t \<noteq> [] \<and> role_allows (actor_role a) scope
     \<and> actor_scopes_allow a scope"
  by (auto simp: can_def actor_scopes_allow_def)

lemma can_role_actor: "can (role_actor u t role) scope t \<longleftrightarrow> t \<noteq> [] \<and> role_allows role scope"
  by (simp add: can_iff role_actor_def actor_scopes_allow_def)

lemma role_allows_raw: "role_allows r ''events:raw'' \<longleftrightarrow> r \<in> {''owner'', ''security'', ''auditor''}"
  by (simp add: role_allows_def)

lemma role_allows_security_write:
  "role_allows r ''security:write'' \<longleftrightarrow> r \<in> {''owner'', ''security''}"
  by (simp add: role_allows_def)

lemma role_allows_known:
  "role_allows r s \<Longrightarrow>
   r \<in> {''owner'', ''admin'', ''developer'', ''operator'', ''security'', ''auditor'', ''support''}"
  by (simp add: role_allows_def split: if_splits)

section \<open>The explanation\<close>

text \<open>What can allow an action before access policies are read.\<close>

definition role_grounds :: "authz_db \<Rightarrow> string \<Rightarrow> string \<Rightarrow> explain_request \<Rightarrow> bool" where
  "role_grounds db t u req \<longleftrightarrow> t \<noteq> [] \<and>
     ((\<exists>m \<in> set (memberships db). mb_tenant m = t \<and> mb_user m = u \<and> mb_state m = ''active''
         \<and> role_allows (mb_role m) (ex_action req))
      \<or> (\<exists>r \<in> set (role_bindings db). rb_tenant r = t \<and> rb_state r = ''active'' \<and> binding_covers r req
         \<and> role_allows (rb_role r) (ex_action req)
         \<and> (rb_principal_type r = ''user'' \<and> rb_principal r = u
            \<or> rb_principal_type r = ''group'' \<and>
              (\<exists>g \<in> set (scim_group_memberships db).
                 gm_tenant g = t \<and> gm_group g = rb_principal r \<and> gm_user g = u))))"

lemma user_binding_rowsD:
  "r \<in> set (user_binding_rows db t u req) \<Longrightarrow>
   r \<in> set (role_bindings db) \<and> rb_tenant r = t \<and> rb_principal_type r = ''user'' \<and> rb_principal r = u
   \<and> rb_state r = ''active'' \<and> binding_covers r req"
  by (simp add: user_binding_rows_def)

lemma group_binding_rowsD:
  "r \<in> set (group_binding_rows db t u req) \<Longrightarrow>
   r \<in> set (role_bindings db) \<and> rb_tenant r = t \<and> rb_principal_type r = ''group''
   \<and> rb_state r = ''active'' \<and> binding_covers r req
   \<and> (\<exists>g \<in> set (scim_group_memberships db). gm_tenant g = t \<and> gm_group g = rb_principal r \<and> gm_user g = u)"
  by (auto simp: group_binding_rows_def)

lemma membership_rowsD:
  "m \<in> set (membership_rows db t u) \<Longrightarrow>
   m \<in> set (memberships db) \<and> mb_tenant m = t \<and> mb_user m = u \<and> mb_state m = ''active''"
  by (simp add: membership_rows_def)

lemma role_decision_allowed:
  assumes "dec_allowed (role_decision f db t u req d)" and "\<not> dec_allowed d"
  shows "role_grounds db t u req"
proof -
  consider
      (member) m where "m \<in> set (membership_rows db t u)" "t \<noteq> []" "role_allows (mb_role m) (ex_action req)"
    | (user) r where "r \<in> set (user_binding_rows db t u req)" "t \<noteq> []" "role_allows (rb_role r) (ex_action req)"
    | (group) r where "r \<in> set (group_binding_rows db t u req)" "t \<noteq> []" "role_allows (rb_role r) (ex_action req)"
    using assms unfolding role_decision_def Let_def can_role_actor
    by (auto split: sum.splits if_splits elim!: query_row_InrE)
  then show ?thesis
  proof cases
    case member
    then show ?thesis using membership_rowsD [OF member(1)] unfolding role_grounds_def by blast
  next
    case user
    then show ?thesis using user_binding_rowsD [OF user(1)] unfolding role_grounds_def by blast
  next
    case group
    then show ?thesis using group_binding_rowsD [OF group(1)] unfolding role_grounds_def by blast
  qed
qed

lemma set_policy_rows:
  "r \<in> set (policy_rows db t req) \<longleftrightarrow> r \<in> set (access_policy_rules db) \<and> rule_covers r t req"
  by (auto simp: policy_rows_def)

lemma policy_rows_hd_deny:
  assumes "r \<in> set (access_policy_rules db)" "rule_covers r t req" "pr_effect r = ''deny''"
  shows "pr_effect (hd (policy_rows db t req)) = ''deny''"
proof -
  let ?k = "\<lambda>r. (if pr_effect r = ''deny'' then 0::int else 1, - pr_created r)"
  let ?rows = "filter (\<lambda>r. rule_covers r t req) (access_policy_rules db)"
  have "?k (hd (order_by ?k ?rows)) \<le> ?k r"
    using assms by (intro hd_order_by_least) simp
  then show ?thesis using assms by (auto simp: policy_rows_def less_eq_prod_def split: if_splits)
qed

lemma policy_decision_deny:
  assumes "r \<in> set (access_policy_rules db)" "rule_covers r t req" "pr_effect r = ''deny''"
    and "f ''policy'' = None"
  shows "\<not> dec_allowed (policy_decision f db t req d)"
proof -
  obtain x xs where rows: "policy_rows db t req = x # xs"
    using assms(1,2) set_policy_rows by (metis list.exhaust list.distinct(1) list.set_cases)
  then have "pr_effect x = ''deny''" using policy_rows_hd_deny [OF assms(1-3)] by simp
  then show ?thesis using rows assms(4) by (simp add: policy_decision_def query_row_def Let_def)
qed

lemma policy_decision_allowed:
  assumes "dec_allowed (policy_decision f db t req d)"
  shows "dec_allowed d \<or>
    (\<exists>r \<in> set (access_policy_rules db). rule_covers r t req \<and> pr_effect r = ''allow'')"
  using assms set_policy_rows
  by (fastforce simp: policy_decision_def Let_def split: sum.splits if_splits elim!: query_row_InrE)

section \<open>The interface Authorize relies on\<close>

text \<open>
  What \<open>Authorize\<close> relies on of its store: an explanation never allows what the store's
  policies deny, and never allows without grounds.
\<close>

locale explaining_store =
  fixes explain :: "'s explain_store"
    and denied :: "'s \<Rightarrow> string \<Rightarrow> explain_request \<Rightarrow> bool"
    and grounds :: "'s \<Rightarrow> string \<Rightarrow> string \<Rightarrow> explain_request \<Rightarrow> bool"
  assumes explain_denied: "explain db t u r = (db', Inr d) \<Longrightarrow> denied db t r \<Longrightarrow> \<not> dec_allowed d"
    and explain_grounds: "explain db t u r = (db', Inr d) \<Longrightarrow> dec_allowed d \<Longrightarrow> grounds db t u r"
    and explain_total: "\<exists>db' d. explain db t u r = (db', Inr d)"
begin

abbreviation request_of :: "authz_request \<Rightarrow> explain_request" where
  "request_of req \<equiv> \<lparr> ex_action = trim_space (rq_action req), ex_family = trim_space (rq_family req),
     ex_resource = trim_space (rq_resource req), ex_environment = trim_space (rq_environment req),
     ex_attributes = None \<rparr>"

lemma authorize_denied:
  assumes "denied db (trim_space (rq_tenant req)) (request_of req)"
  shows "\<not> dec_allowed (snd (authorize (Some explain) db req))"
proof -
  obtain db' d where e: "explain db (trim_space (rq_tenant req)) (actor_id (rq_actor req)) (request_of req)
      = (db', Inr d)" using explain_total by blast
  show ?thesis using explain_denied [OF e assms] e
    by (simp add: authorize_def Let_def redact_decision_def)
qed

lemma authorize_grounds:
  assumes "dec_allowed (snd (authorize (Some explain) db req))"
  shows "grounds db (trim_space (rq_tenant req)) (actor_id (rq_actor req)) (request_of req)"
proof -
  obtain db' d where e: "explain db (trim_space (rq_tenant req)) (actor_id (rq_actor req)) (request_of req)
      = (db', Inr d)" using explain_total by blast
  then have "dec_allowed d" using assms
    by (auto simp: authorize_def Let_def redact_decision_def split: if_splits)
  then show ?thesis using explain_grounds e by blast
qed

end

definition pg_denied :: "faults \<Rightarrow> authz_db \<Rightarrow> string \<Rightarrow> explain_request \<Rightarrow> bool" where
  "pg_denied f db t req \<longleftrightarrow> f ''policy'' = None \<and>
     (\<exists>r \<in> set (access_policy_rules db). rule_covers r t req \<and> pr_effect r = ''deny'')"

definition pg_grounds :: "authz_db \<Rightarrow> string \<Rightarrow> string \<Rightarrow> explain_request \<Rightarrow> bool" where
  "pg_grounds db t u req \<longleftrightarrow> role_grounds db t u req \<or>
     (\<exists>r \<in> set (access_policy_rules db). rule_covers r t req \<and> pr_effect r = ''allow'')"

lemma explain_base_not_allowed [simp]: "\<not> dec_allowed (explain_base t req)"
  by (simp add: explain_base_def)

interpretation pg: explaining_store "pg_explain f log_id" "pg_denied f" pg_grounds for f log_id
proof unfold_locales
  fix db t u r db' d
  assume e: "pg_explain f log_id db t u r = (db', Inr d)"
  then have d: "d = policy_decision f db t r (role_decision f db t u r (explain_base t r))"
    by (simp add: pg_explain_def explain_authorization_def Let_def)
  show "\<not> dec_allowed d" if "pg_denied f db t r"
    using that policy_decision_deny unfolding d pg_denied_def by blast
  show "pg_grounds db t u r" if "dec_allowed d"
    using that policy_decision_allowed role_decision_allowed explain_base_not_allowed
    unfolding d pg_grounds_def by blast
next
  fix db t u r
  show "\<exists>db' d. pg_explain f log_id db t u r = (db', Inr d)"
    by (simp add: pg_explain_def explain_authorization_def Let_def)
qed

lemma authorize_allowedD:
  assumes "dec_allowed (snd (authorize store db req))"
  shows "actor_id (rq_actor req) \<noteq> []" "actor_tenant (rq_actor req) = trim_space (rq_tenant req)"
    "actor_tenant (rq_actor req) \<noteq> []" "actor_scopes_allow (rq_actor req) (trim_space (rq_action req))"
  using assms
  by (auto simp: authorize_def Let_def can_iff redact_decision_def
      split: if_splits option.splits prod.splits sum.splits)

section \<open>Isolation of tenants\<close>

definition restrict_tenant :: "string \<Rightarrow> authz_db \<Rightarrow> authz_db" where
  "restrict_tenant t db = db\<lparr>
     memberships := filter (\<lambda>m. mb_tenant m = t) (memberships db),
     role_bindings := filter (\<lambda>r. rb_tenant r = t) (role_bindings db),
     scim_group_memberships := filter (\<lambda>g. gm_tenant g = t) (scim_group_memberships db),
     access_policy_rules := filter (\<lambda>r. pr_tenant r = t) (access_policy_rules db) \<rparr>"

lemma restrict_tenant_rows:
  "membership_rows (restrict_tenant t db) t u = membership_rows db t u"
  "user_binding_rows (restrict_tenant t db) t u req = user_binding_rows db t u req"
  "policy_rows (restrict_tenant t db) t req = policy_rows db t req"
  by (auto simp: membership_rows_def user_binding_rows_def policy_rows_def restrict_tenant_def
      rule_covers_def intro!: arg_cong [where f = "order_by _"] filter_cong)

lemma restrict_tenant_group_rows:
  "group_binding_rows (restrict_tenant t db) t u req = group_binding_rows db t u req"
  unfolding group_binding_rows_def restrict_tenant_def
  by (intro arg_cong [where f = "order_by _"] arg_cong [where f = concat] map_cong arg_cong2 [where f = map])
    (auto intro!: filter_cong)

lemma explain_restrict_tenant:
  "snd (explain_authorization f l (restrict_tenant t db) t u req) = snd (explain_authorization f l db t u req)"
  by (simp add: explain_authorization_def Let_def role_decision_def policy_decision_def
      restrict_tenant_rows restrict_tenant_group_rows)

lemma authorize_restrict_tenant:
  "snd (authorize (Some (pg_explain f l)) (restrict_tenant (trim_space (rq_tenant req)) db) req)
   = snd (authorize (Some (pg_explain f l)) db req)"
  using explain_restrict_tenant [of f l "trim_space (rq_tenant req)" db "actor_id (rq_actor req)"]
  by (auto simp: authorize_def Let_def pg_explain_def split: prod.splits) (metis snd_conv)+

section \<open>Properties\<close>


definition sample_authz_db :: authz_db where
  "sample_authz_db = \<lparr>
     memberships = [\<lparr> mb_tenant = ''t1'', mb_user = ''u1'', mb_role = ''developer'', mb_state = ''active'' \<rparr>],
     role_bindings = [], scim_group_memberships = [],
     access_policy_rules = [\<lparr> pr_id = ''p1'', pr_tenant = ''t1'', pr_action = ''routes:write'',
       pr_effect = ''deny'', pr_family = ''*'', pr_environment = ''*'', pr_state = ''active'', pr_created = 1 \<rparr>],
     authz_decision_logs = [] \<rparr>"

definition sample_authz_request :: "string \<Rightarrow> authz_request" where
  "sample_authz_request action = \<lparr> rq_actor = \<lparr> actor_id = ''u1'', actor_tenant = ''t1'',
       actor_role = ''developer'', actor_scopes = [''events:read'', ''routes:write''], actor_source = [] \<rparr>,
     rq_tenant = ''t1'', rq_action = action, rq_family = ''event'', rq_resource = [], rq_environment = [] \<rparr>"

lemma trim_space_samples:
  "trim_space ''t1'' = ''t1''" "trim_space ''event'' = ''event''" "trim_space ''events:read'' = ''events:read''"
  "trim_space ''routes:write'' = ''routes:write''"
  by (simp_all add: trim_space_def trim_left_def trim_right_def is_space_def)

lemmas authz_eval = authorize_def pg_explain_def explain_authorization_def role_decision_def
  policy_decision_def query_row_def membership_rows_def policy_rows_def user_binding_rows_def
  group_binding_rows_def rule_covers_def order_by_def default_wildcard_def sample_authz_db_def
  sample_authz_request_def trim_space_samples can_role_actor role_allows_def redact_decision_def
  actor_scopes_allow_iff explain_base_def


text \<open>
  C21. Tenants are isolated: the decision for a request is the same when every membership, role
  binding, group membership and access policy of other tenants is removed from the store,
  whichever statements fail.
\<close>

theorem authorize_tenant_isolated:
  "snd (authorize (Some (pg_explain f log_id)) (restrict_tenant (trim_space (rq_tenant req)) db) req)
   = snd (authorize (Some (pg_explain f log_id)) db req)"
  by (rule authorize_restrict_tenant)

text \<open>
  The lookup of access policies fails open: there are a store and a request that is refused
  by an active deny policy when every statement succeeds, and allowed when only the query for
  policies fails.
\<close>

theorem policy_lookup_fails_open:
  "\<exists>db req. \<not> dec_allowed (snd (authorize (Some (pg_explain no_faults ''l'')) db req))
     \<and> dec_allowed (snd (authorize (Some (pg_explain
           (\<lambda>lbl. if lbl = ''policy'' then Some (ErrOther ''timeout'') else None) ''l'')) db req))"
  by (intro exI [of _ sample_authz_db] exI [of _ "sample_authz_request ''routes:write''"])
    (simp add: authz_eval Let_def)

text \<open>
  The built-in roles separate duties: an actor may read raw payloads only as owner, security
  or auditor, and may write security settings only as owner or security, always in its own
  tenant and within its scopes; an unknown role may do nothing.
\<close>

theorem can_separation_of_duties:
  "(can a ''events:raw'' t \<longleftrightarrow> actor_role a \<in> {''owner'', ''security'', ''auditor''}
      \<and> actor_tenant a = t \<and> t \<noteq> [] \<and> actor_scopes_allow a ''events:raw'')
   \<and> (can a ''security:write'' t \<longleftrightarrow> actor_role a \<in> {''owner'', ''security''}
      \<and> actor_tenant a = t \<and> t \<noteq> [] \<and> actor_scopes_allow a ''security:write'')
   \<and> (can a scope t \<longrightarrow> actor_role a \<in> {''owner'', ''admin'', ''developer'', ''operator'',
        ''security'', ''auditor'', ''support''})"
  by (auto simp: can_iff role_allows_raw role_allows_security_write dest: role_allows_known)

theorem can_separation_of_duties_witness:
  "\<not> can (role_actor ''u'' ''t'' ''admin'') ''events:raw'' ''t''
   \<and> can (role_actor ''u'' ''t'' ''auditor'') ''events:raw'' ''t''"
  using can_separation_of_duties [of "role_actor ''u'' ''t'' ''admin''" "''t''" "''events:raw''"]
    can_separation_of_duties [of "role_actor ''u'' ''t'' ''auditor''" "''t''" "''events:raw''"]
  by (simp add: role_actor_def actor_scopes_allow_def)

end
