(* ===== verification/Problem_Details.thy ===== *)
theory Problem_Details
  imports Go_Prelude
begin

text \<open>
  Package internal/problem and the translation of application errors into responses
  (\<open>writeError\<close> of internal/adapters/httpapi/server_helpers.go).
\<close>

record problem =
  pb_type :: string
  pb_title :: string
  pb_status :: int
  pb_detail :: string
  pb_code :: string
  pb_stable_code :: string
  pb_request_id :: string
  pb_fields :: "(string \<times> string) list"
  pb_retryable :: bool

definition stable_code_for :: "string \<Rightarrow> string" where
  "stable_code_for code =
     (if code = ''authentication_error'' then ''WEBHOOKERY_AUTHENTICATION_REQUIRED''
      else if code = ''authorization_error'' then ''WEBHOOKERY_TENANT_ACCESS_DENIED''
      else if code = ''headers_too_large'' then ''WEBHOOKERY_HEADERS_TOO_LARGE''
      else if code = ''internal_error'' then ''WEBHOOKERY_INTERNAL_ERROR''
      else if code = ''invalid_signature'' then ''WEBHOOKERY_PROVIDER_SIGNATURE_INVALID''
      else if code = ''not_found'' then ''WEBHOOKERY_RESOURCE_NOT_FOUND''
      else if code \<in> {''not_ready'', ''storage_unavailable''}
      then ''WEBHOOKERY_DURABLE_CAPTURE_UNAVAILABLE''
      else if code = ''payload_expired'' then ''WEBHOOKERY_RAW_PAYLOAD_RETAINED_METADATA_ONLY''
      else if code = ''payload_too_large'' then ''WEBHOOKERY_PAYLOAD_TOO_LARGE''
      else if code \<in> {''notification_channel_url_blocked'', ''siem_sink_url_blocked''}
      then ''WEBHOOKERY_SSRF_BLOCKED_DESTINATION''
      else if code \<in> {''invalid_json'', ''invalid_request'', ''unsupported_grant_type'', ''validation_error''}
      then ''WEBHOOKERY_VALIDATION_FAILED''
      else ''WEBHOOKERY_UNKNOWN_ERROR'')"

definition new_problem :: "int \<Rightarrow> string \<Rightarrow> string \<Rightarrow> string \<Rightarrow> string \<Rightarrow> bool \<Rightarrow> problem" where
  "new_problem status code title detail request_id retryable =
     \<lparr> pb_type = ''https://docs.webhookery.local/errors/'' @ code, pb_title = title,
       pb_status = status, pb_detail = detail, pb_code = code,
       pb_stable_code = stable_code_for code, pb_request_id = request_id,
       pb_fields = [], pb_retryable = retryable \<rparr>"

definition problem_internal :: "string \<Rightarrow> problem" where
  "problem_internal rid = new_problem 500 ''internal_error'' ''Internal server error''
     ''The request could not be completed.'' rid True"

definition problem_unauthorized :: "string \<Rightarrow> problem" where
  "problem_unauthorized rid = new_problem 401 ''authentication_error'' ''Authentication required''
     ''A valid bearer token is required.'' rid False"

definition problem_forbidden :: "string \<Rightarrow> problem" where
  "problem_forbidden rid = new_problem 403 ''authorization_error'' ''Forbidden''
     ''The authenticated actor is not allowed to perform this action.'' rid False"

definition problem_bad_request :: "string \<Rightarrow> string \<Rightarrow> string \<Rightarrow> problem" where
  "problem_bad_request rid code detail = new_problem 400 code ''Bad request'' detail rid False"

text \<open>
  \<open>fmt.Errorf("%w: ...", ErrInvalidInput)\<close> is \<open>ErrInvalidInput msg\<close>, whose text is
  \<open>invalid input: msg\<close>.
\<close>

definition problem_of_error :: "string \<Rightarrow> go_error \<Rightarrow> problem" where
  "problem_of_error rid err =
     (case err of
        ErrUnauthorized \<Rightarrow> problem_unauthorized rid
      | ErrForbidden \<Rightarrow> problem_forbidden rid
      | ErrNotFound \<Rightarrow> new_problem 404 ''not_found'' ''Not found''
          ''The requested resource was not found.'' rid False
      | ErrGone \<Rightarrow> new_problem 410 ''payload_expired'' ''Payload unavailable''
          ''The requested payload body has expired or was removed by retention policy; metadata and hashes remain available.''
          rid False
      | ErrInvalidInput msg \<Rightarrow> problem_bad_request rid ''validation_error''
          (if msg = [] then ''invalid input'' else ''invalid input: '' @ msg)
      | _ \<Rightarrow> problem_internal rid)"

lemma new_problem_sel [simp]:
  "pb_status (new_problem st c t d r b) = st" "pb_code (new_problem st c t d r b) = c"
  "pb_detail (new_problem st c t d r b) = d" "pb_retryable (new_problem st c t d r b) = b"
  "pb_stable_code (new_problem st c t d r b) = stable_code_for c"
  "pb_request_id (new_problem st c t d r b) = r"
  by (simp_all add: new_problem_def)

lemma problem_status [simp]:
  "pb_status (problem_internal r) = 500" "pb_status (problem_unauthorized r) = 401"
  "pb_status (problem_forbidden r) = 403" "pb_status (problem_bad_request r c d) = 400"
  by (simp_all add: problem_internal_def problem_unauthorized_def problem_forbidden_def
      problem_bad_request_def)

text \<open>The detail of an internal error never carries the text of the underlying error.\<close>

lemma internal_error_hides_cause:
  "problem_of_error rid (ErrOther a) = problem_of_error rid (ErrOther b)"
  by (simp add: problem_of_error_def)

lemma problem_of_error_status:
  "pb_status (problem_of_error rid e) \<in> {400, 401, 403, 404, 410, 500}"
  by (cases e) (simp_all add: problem_of_error_def)

lemma problem_of_error_known:
  "pb_stable_code (problem_of_error rid e) \<noteq> ''WEBHOOKERY_UNKNOWN_ERROR''"
  by (cases e) (simp_all add: problem_of_error_def problem_internal_def problem_unauthorized_def
      problem_forbidden_def problem_bad_request_def stable_code_for_def)

end
