(* ===== verification/Authn_Tokens.thy ===== *)
theory Authn_Tokens
  imports Authz_Policy Problem_Details
begin

text \<open>
  Authentication: the token authenticators of internal/app/auth.go, the lookups of the
  PostgreSQL store behind them (store.go, enterprise_identity.go), and the three middlewares of
  internal/adapters/httpapi/server_auth_identity.go. SHA-256 is the parameter \<open>sha\<close>; an X.509
  certificate is its raw bytes, and chain verification (crypto/tls) is an input of the request.
\<close>

section \<open>Model: the credential tables\<close>

record api_key_row =
  ak_hash :: string
  ak_tenant :: string
  ak_user :: string
  ak_scopes :: "string list"
  ak_state :: string
  ak_expires :: "gotime option"
  ak_last_used :: "gotime option"

record session_row =
  se_hash :: string
  se_tenant :: string
  se_user :: string
  se_identity :: "string option"
  se_state :: string
  se_expires :: gotime
  se_last_seen :: "gotime option"

record external_identity_row =
  ei_id :: string
  ei_provider :: string
  ei_state :: string

record identity_provider_row =
  idp_id :: string
  idp_state :: string

record producer_client_row =
  pc_id :: string
  pc_tenant :: string
  pc_source :: "string option"
  pc_state :: string

record producer_token_row =
  pt_hash :: string
  pt_tenant :: string
  pt_client :: string
  pt_scopes :: "string list"
  pt_state :: string
  pt_expires :: gotime
  pt_last_used :: "gotime option"

record mtls_identity_row =
  mi_id :: string
  mi_tenant :: string
  mi_source :: "string option"
  mi_fingerprint :: string
  mi_state :: string
  mi_not_before :: gotime
  mi_not_after :: gotime

record scim_token_row =
  st_id :: string
  st_tenant :: string
  st_hash :: string
  st_state :: string
  st_last_used :: "gotime option"

record auth_db =
  api_keys :: "api_key_row list"
  auth_memberships :: "membership_row list"
  auth_sessions :: "session_row list"
  external_identities :: "external_identity_row list"
  identity_providers :: "identity_provider_row list"
  producer_clients :: "producer_client_row list"
  producer_access_tokens :: "producer_token_row list"
  producer_mtls_identities :: "mtls_identity_row list"
  scim_tokens :: "scim_token_row list"

section \<open>Model: the lookups\<close>

text \<open>\<open>pgx.ErrNoRows\<close> becomes \<open>ErrUnauthorized\<close>, other errors are passed on.\<close>

definition unauthorized_if_no_rows :: "'a res \<Rightarrow> 'a res" where
  "unauthorized_if_no_rows r =
     (case r of Inl ErrNoRows \<Rightarrow> Inl ErrUnauthorized | Inl e \<Rightarrow> Inl e | Inr x \<Rightarrow> Inr x)"

text \<open>An \<open>Exec\<close> whose error is discarded.\<close>

definition exec_ignored :: "faults \<Rightarrow> string \<Rightarrow> ('s \<Rightarrow> 's) \<Rightarrow> 's \<Rightarrow> 's" where
  "exec_ignored f lbl upd s = (case f lbl of Some _ \<Rightarrow> s | None \<Rightarrow> upd s)"

definition active_member :: "auth_db \<Rightarrow> string \<Rightarrow> string \<Rightarrow> membership_row list" where
  "active_member db t u = filter (\<lambda>m. mb_tenant m = t \<and> mb_user m = u \<and> mb_state m = ''active'')
     (auth_memberships db)"

definition api_key_rows :: "gotime \<Rightarrow> auth_db \<Rightarrow> string \<Rightarrow> (api_key_row \<times> membership_row) list" where
  "api_key_rows now db key_hash =
     concat (map (\<lambda>k. map (\<lambda>m. (k, m)) (active_member db (ak_tenant k) (ak_user k)))
       (filter (\<lambda>k. ak_hash k = key_hash \<and> ak_state k = ''active''
          \<and> (case ak_expires k of None \<Rightarrow> True | Some x \<Rightarrow> now < x)) (api_keys db)))"

definition authenticate_api_key ::
    "faults \<Rightarrow> gotime \<Rightarrow> auth_db \<Rightarrow> string \<Rightarrow> auth_db \<times> actor res" where
  "authenticate_api_key f now db key_hash =
     (case unauthorized_if_no_rows (query_row f ''api_key'' (api_key_rows now db key_hash)) of
        Inl e \<Rightarrow> (db, Inl e)
      | Inr (k, m) \<Rightarrow>
          (exec_ignored f ''api_key_used'' (\<lambda>d. d\<lparr>api_keys := update_where
             (\<lambda>k. ak_hash k = key_hash) (\<lambda>k. k\<lparr>ak_last_used := Some now\<rparr>) (api_keys d)\<rparr>) db,
           Inr \<lparr> actor_id = ak_user k, actor_tenant = ak_tenant k, actor_role = mb_role m,
                 actor_scopes = ak_scopes k, actor_source = [] \<rparr>))"

definition session_rows :: "gotime \<Rightarrow> auth_db \<Rightarrow> string \<Rightarrow> (session_row \<times> membership_row) list" where
  "session_rows now db h =
     concat (map (\<lambda>s. concat (map (\<lambda>m. concat (map (\<lambda>ei. concat (map (\<lambda>idp.
         if (case ei of None \<Rightarrow> True | Some x \<Rightarrow> ei_state x = ''active'')
            \<and> (case idp of None \<Rightarrow> True | Some x \<Rightarrow> idp_state x = ''active'')
         then [(s, m)] else [])
         (left_join (\<lambda>i. case ei of None \<Rightarrow> False | Some x \<Rightarrow> idp_id i = ei_provider x) (identity_providers db))))
         (left_join (\<lambda>x. se_identity s = Some (ei_id x)) (external_identities db))))
         (active_member db (se_tenant s) (se_user s))))
       (filter (\<lambda>s. se_hash s = h \<and> se_state s = ''active'' \<and> now < se_expires s) (auth_sessions db)))"

definition authenticate_session ::
    "faults \<Rightarrow> gotime \<Rightarrow> auth_db \<Rightarrow> string \<Rightarrow> auth_db \<times> actor res" where
  "authenticate_session f now db h =
     (case unauthorized_if_no_rows (query_row f ''session'' (session_rows now db h)) of
        Inl e \<Rightarrow> (db, Inl e)
      | Inr (s, m) \<Rightarrow>
          (exec_ignored f ''session_seen'' (\<lambda>d. d\<lparr>auth_sessions := update_where
             (\<lambda>s. se_hash s = h) (\<lambda>s. s\<lparr>se_last_seen := Some now\<rparr>) (auth_sessions d)\<rparr>) db,
           Inr \<lparr> actor_id = se_user s, actor_tenant = se_tenant s, actor_role = mb_role m,
                 actor_scopes = [], actor_source = [] \<rparr>))"

definition coalesce_str :: "string option \<Rightarrow> string" where
  "coalesce_str o' = (case o' of None \<Rightarrow> [] | Some s \<Rightarrow> s)"

definition producer_token_rows :: "gotime \<Rightarrow> auth_db \<Rightarrow> string \<Rightarrow> (producer_token_row \<times> producer_client_row) list" where
  "producer_token_rows now db h =
     concat (map (\<lambda>p. map (\<lambda>c. (p, c))
       (filter (\<lambda>c. pc_tenant c = pt_tenant p \<and> pc_id c = pt_client p \<and> pc_state c = ''active'')
          (producer_clients db)))
       (filter (\<lambda>p. pt_hash p = h \<and> pt_state p = ''active'' \<and> now < pt_expires p)
          (producer_access_tokens db)))"

definition authenticate_producer_access_token ::
    "faults \<Rightarrow> gotime \<Rightarrow> auth_db \<Rightarrow> string \<Rightarrow> auth_db \<times> actor res" where
  "authenticate_producer_access_token f now db h =
     (case unauthorized_if_no_rows (query_row f ''producer_token'' (producer_token_rows now db h)) of
        Inl e \<Rightarrow> (db, Inl e)
      | Inr (p, c) \<Rightarrow>
          (exec_ignored f ''producer_token_used'' (\<lambda>d. d\<lparr>producer_access_tokens := update_where
             (\<lambda>p. pt_hash p = h) (\<lambda>p. p\<lparr>pt_last_used := Some now\<rparr>) (producer_access_tokens d)\<rparr>) db,
           Inr \<lparr> actor_id = ''producer_client:'' @ pt_client p, actor_tenant = pt_tenant p,
                 actor_role = ''developer'', actor_scopes = pt_scopes p,
                 actor_source = coalesce_str (pc_source c) \<rparr>))"

definition authenticate_producer_mtls_identity ::
    "faults \<Rightarrow> gotime \<Rightarrow> auth_db \<Rightarrow> string \<Rightarrow> actor res" where
  "authenticate_producer_mtls_identity f now db fingerprint =
     (case unauthorized_if_no_rows (query_row f ''mtls_identity''
          (filter (\<lambda>i. mi_fingerprint i = fingerprint \<and> mi_state i = ''active''
              \<and> mi_not_before i \<le> now \<and> now < mi_not_after i) (producer_mtls_identities db))) of
        Inl e \<Rightarrow> Inl e
      | Inr i \<Rightarrow> Inr \<lparr> actor_id = ''producer_mtls:'' @ mi_id i, actor_tenant = mi_tenant i,
          actor_role = ''developer'', actor_scopes = [''events:write''],
          actor_source = coalesce_str (mi_source i) \<rparr>)"

definition authenticate_scim_token_hash ::
    "faults \<Rightarrow> gotime \<Rightarrow> auth_db \<Rightarrow> string \<Rightarrow> auth_db \<times> actor res" where
  "authenticate_scim_token_hash f now db h =
     (case unauthorized_if_no_rows (query_row f ''scim_token''
          (filter (\<lambda>t. st_hash t = h \<and> st_state t = ''active'') (scim_tokens db))) of
        Inl e \<Rightarrow> (db, Inl e)
      | Inr t \<Rightarrow>
          (exec_ignored f ''scim_token_used'' (\<lambda>d. d\<lparr>scim_tokens := update_where
             (\<lambda>x. st_id x = st_id t) (\<lambda>x. x\<lparr>st_last_used := Some now\<rparr>) (scim_tokens d)\<rparr>) db,
           Inr \<lparr> actor_id = ''scim:'' @ st_id t, actor_tenant = st_tenant t, actor_role = ''security'',
                 actor_scopes = [''*''], actor_source = [] \<rparr>))"

section \<open>Model: the authenticators\<close>

definition hash_token :: "(string \<Rightarrow> string) \<Rightarrow> string \<Rightarrow> string" where
  "hash_token sha raw = ''sha256:'' @ hex_encode (sha raw)"

definition certificate_fingerprint :: "(string \<Rightarrow> string) \<Rightarrow> string \<Rightarrow> string" where
  "certificate_fingerprint sha raw = ''sha256:'' @ hex_encode (sha raw)"

definition bearer_token :: "string \<Rightarrow> string" where
  "bearer_token header =
     (case cut_char (CHR '' '') header of
        None \<Rightarrow> []
      | Some (scheme, token) \<Rightarrow> if \<not> equal_fold scheme ''Bearer'' then [] else trim_space token)"

text \<open>
  The interface \<open>Authenticator\<close>: from the database and the raw token to the database and an
  actor. \<^term>\<open>None\<close> is a nil lookup or a nil authenticator.
\<close>

type_synonym 's authn = "'s \<Rightarrow> string \<Rightarrow> 's \<times> actor res"

definition lookup_authenticate :: "(string \<Rightarrow> string) \<Rightarrow> 's authn option \<Rightarrow> 's authn" where
  "lookup_authenticate sha lookup db token =
     (case lookup of
        None \<Rightarrow> (db, Inl ErrUnauthorized)
      | Some l \<Rightarrow> if token = [] then (db, Inl ErrUnauthorized) else l db (hash_token sha token))"

definition static_authenticate :: "(string \<Rightarrow> string) \<Rightarrow> string \<Rightarrow> actor \<Rightarrow> 's authn" where
  "static_authenticate sha stored_hash a db token =
     (if token = [] \<or> stored_hash = [] then (db, Inl ErrUnauthorized)
      else if hash_token sha token \<noteq> stored_hash then (db, Inl ErrUnauthorized)
      else (db, Inr a))"

fun multi_authenticate :: "'s authn option list \<Rightarrow> 's authn" where
  "multi_authenticate [] db token = (db, Inl ErrUnauthorized)"
| "multi_authenticate (None # rest) db token = multi_authenticate rest db token"
| "multi_authenticate (Some authn # rest) db token =
     (case authn db token of
        (db', Inr a) \<Rightarrow> (db', Inr a)
      | (db', Inl e) \<Rightarrow> if e = ErrUnauthorized then multi_authenticate rest db' token
                       else (db', Inl e))"

definition authenticate_certificate ::
    "(string \<Rightarrow> string) \<Rightarrow> (string \<Rightarrow> actor res) option \<Rightarrow> string option \<Rightarrow> actor res" where
  "authenticate_certificate sha lookup cert =
     (case (cert, lookup) of
        (Some raw, Some l) \<Rightarrow> l (certificate_fingerprint sha raw)
      | _ \<Rightarrow> Inl ErrUnauthorized)"

definition authenticate_scim_token ::
    "(string \<Rightarrow> string) \<Rightarrow> 's authn res \<Rightarrow> 's authn" where
  "authenticate_scim_token sha store db token =
     (if token = [] then (db, Inl ErrUnauthorized)
      else case store of Inl e \<Rightarrow> (db, Inl e) | Inr l \<Rightarrow> l db (hash_token sha token))"

section \<open>Model: the middlewares\<close>

datatype middleware_result = Next actor | Rejected problem

record auth_http_request =
  ah_request_id :: string
  ah_authorization :: string
  ah_session_cookie :: "string option"
  ah_peer_certificates :: "string list"
  ah_verified_chains :: nat

definition require_auth ::
    "'s authn option \<Rightarrow> 's authn option \<Rightarrow> 's \<Rightarrow> auth_http_request \<Rightarrow> 's \<times> middleware_result" where
  "require_auth auth session_auth db r =
     (let rid = ah_request_id r;
          token = bearer_token (ah_authorization r);
          (token', authenticator) =
            (case (token, session_auth, ah_session_cookie r) of
               ([], Some sa, Some c) \<Rightarrow> (c, Some sa)
             | _ \<Rightarrow> (token, auth))
      in case authenticator of
           None \<Rightarrow> (db, Rejected (problem_unauthorized rid))
         | Some a \<Rightarrow> (case a db token' of
               (db', Inl _) \<Rightarrow> (db', Rejected (problem_unauthorized rid))
             | (db', Inr act) \<Rightarrow> (db', Next act)))"

definition events_write_or_forbidden :: "string \<Rightarrow> actor \<Rightarrow> middleware_result" where
  "events_write_or_forbidden rid act =
     (if \<not> can act ''events:write'' (actor_tenant act) then Rejected (problem_forbidden rid) else Next act)"

definition require_producer_auth ::
    "(string \<Rightarrow> string) \<Rightarrow> ('s \<Rightarrow> string \<Rightarrow> actor res) option \<Rightarrow> 's authn option \<Rightarrow> 's authn option \<Rightarrow>
     's \<Rightarrow> auth_http_request \<Rightarrow> 's \<times> middleware_result" where
  "require_producer_auth sha mtls producer_auth auth db r =
     (let rid = ah_request_id r;
          token = bearer_token (ah_authorization r);
          general = (\<lambda>db. case auth of
              None \<Rightarrow> (db, Rejected (problem_unauthorized rid))
            | Some a \<Rightarrow> (case a db token of
                  (db', Inl _) \<Rightarrow> (db', Rejected (problem_unauthorized rid))
                | (db', Inr act) \<Rightarrow> (db', events_write_or_forbidden rid act)))
      in case (ah_peer_certificates r, mtls) of
           (cert # _, Some lookup) \<Rightarrow>
             if ah_verified_chains r = 0 then (db, Rejected (problem_unauthorized rid))
             else (case authenticate_certificate sha (Some (lookup db)) (Some cert) of
                 Inl _ \<Rightarrow> (db, Rejected (problem_unauthorized rid))
               | Inr act \<Rightarrow> (db, events_write_or_forbidden rid act))
         | _ \<Rightarrow>
             (case producer_auth of
                None \<Rightarrow> general db
              | Some a \<Rightarrow> (case a db token of
                    (db', Inr act) \<Rightarrow> (db', events_write_or_forbidden rid act)
                  | (db', Inl e) \<Rightarrow> if e \<noteq> ErrUnauthorized
                      then (db', Rejected (problem_internal rid)) else general db')))"

definition require_scim_auth ::
    "'s authn option \<Rightarrow> 's \<Rightarrow> auth_http_request \<Rightarrow> 's \<times> middleware_result" where
  "require_scim_auth control db r =
     (case control of
        None \<Rightarrow> (db, Rejected (problem_unauthorized (ah_request_id r)))
      | Some a \<Rightarrow> (case a db (bearer_token (ah_authorization r)) of
            (db', Inl _) \<Rightarrow> (db', Rejected (problem_unauthorized (ah_request_id r)))
          | (db', Inr act) \<Rightarrow> (db', Next act)))"

text \<open>\<open>runtimeAuth\<close> of cmd/whcp/runtime.go: API keys, then the bootstrap key when configured.\<close>

definition bootstrap_actor :: "string \<Rightarrow> actor" where
  "bootstrap_actor tenant = \<lparr> actor_id = ''bootstrap'', actor_tenant = tenant, actor_role = ''owner'',
     actor_scopes = [''*''], actor_source = [] \<rparr>"

definition runtime_auth :: "(string \<Rightarrow> string) \<Rightarrow> 's authn option \<Rightarrow> string \<Rightarrow> string \<Rightarrow> 's authn" where
  "runtime_auth sha lookup bootstrap_hash bootstrap_tenant =
     multi_authenticate (Some (lookup_authenticate sha lookup) #
       (if bootstrap_hash \<noteq> []
        then [Some (static_authenticate sha bootstrap_hash (bootstrap_actor bootstrap_tenant))]
        else []))"

section \<open>Lookups answer only for live credentials\<close>

lemma unauthorized_if_no_rows_Inr [simp]: "unauthorized_if_no_rows r = Inr x \<longleftrightarrow> r = Inr x"
  by (cases r) (auto simp: unauthorized_if_no_rows_def split: go_error.splits)

definition api_key_live :: "gotime \<Rightarrow> auth_db \<Rightarrow> string \<Rightarrow> actor \<Rightarrow> bool" where
  "api_key_live now db h a \<longleftrightarrow> (\<exists>k \<in> set (api_keys db). \<exists>m \<in> set (auth_memberships db).
     ak_hash k = h \<and> ak_state k = ''active'' \<and> (\<forall>x. ak_expires k = Some x \<longrightarrow> now < x)
     \<and> mb_tenant m = ak_tenant k \<and> mb_user m = ak_user k \<and> mb_state m = ''active''
     \<and> a = \<lparr> actor_id = ak_user k, actor_tenant = ak_tenant k, actor_role = mb_role m,
             actor_scopes = ak_scopes k, actor_source = [] \<rparr>)"

lemma active_memberD:
  "m \<in> set (active_member db t u) \<Longrightarrow>
   m \<in> set (auth_memberships db) \<and> mb_tenant m = t \<and> mb_user m = u \<and> mb_state m = ''active''"
  by (simp add: active_member_def)

lemma api_key_rows_live:
  "(k, m) \<in> set (api_key_rows now db h) \<Longrightarrow>
   api_key_live now db h \<lparr> actor_id = ak_user k, actor_tenant = ak_tenant k, actor_role = mb_role m,
     actor_scopes = ak_scopes k, actor_source = [] \<rparr>"
  by (auto simp: api_key_rows_def api_key_live_def dest!: active_memberD split: option.splits)

lemma authenticate_api_key_live:
  "authenticate_api_key f now db h = (db', Inr a) \<Longrightarrow> api_key_live now db h a"
  by (auto simp: authenticate_api_key_def dest!: query_row_in api_key_rows_live
      split: sum.splits prod.splits)

definition session_live :: "gotime \<Rightarrow> auth_db \<Rightarrow> string \<Rightarrow> actor \<Rightarrow> bool" where
  "session_live now db h a \<longleftrightarrow> (\<exists>s \<in> set (auth_sessions db). \<exists>m \<in> set (auth_memberships db).
     se_hash s = h \<and> se_state s = ''active'' \<and> now < se_expires s
     \<and> mb_tenant m = se_tenant s \<and> mb_user m = se_user s \<and> mb_state m = ''active''
     \<and> (\<forall>x \<in> set (external_identities db). se_identity s = Some (ei_id x) \<longrightarrow> ei_state x = ''active''
          \<and> (\<forall>i \<in> set (identity_providers db). idp_id i = ei_provider x \<longrightarrow> idp_state i = ''active''))
     \<and> a = \<lparr> actor_id = se_user s, actor_tenant = se_tenant s, actor_role = mb_role m,
             actor_scopes = [], actor_source = [] \<rparr>)"

lemma session_rowsD:
  assumes "(s, m) \<in> set (session_rows now db h)"
  shows "s \<in> set (auth_sessions db) \<and> se_hash s = h \<and> se_state s = ''active'' \<and> now < se_expires s
    \<and> m \<in> set (active_member db (se_tenant s) (se_user s))
    \<and> (\<exists>ei \<in> set (left_join (\<lambda>x. se_identity s = Some (ei_id x)) (external_identities db)).
       \<exists>idp \<in> set (left_join (\<lambda>i. case ei of None \<Rightarrow> False | Some x \<Rightarrow> idp_id i = ei_provider x)
          (identity_providers db)).
         (case ei of None \<Rightarrow> True | Some x \<Rightarrow> ei_state x = ''active'')
         \<and> (case idp of None \<Rightarrow> True | Some x \<Rightarrow> idp_state x = ''active''))"
  using assms unfolding session_rows_def
  by (auto split: if_splits)

lemma session_rows_live:
  assumes "(s, m) \<in> set (session_rows now db h)"
    and "distinct (map ei_id (external_identities db))" "distinct (map idp_id (identity_providers db))"
  shows "session_live now db h \<lparr> actor_id = se_user s, actor_tenant = se_tenant s,
    actor_role = mb_role m, actor_scopes = [], actor_source = [] \<rparr>"
proof -
  from session_rowsD [OF assms(1)] obtain ei idp
    where r: "s \<in> set (auth_sessions db)" "se_hash s = h" "se_state s = ''active''"
      "now < se_expires s" "m \<in> set (active_member db (se_tenant s) (se_user s))"
    and ei: "ei \<in> set (left_join (\<lambda>x. se_identity s = Some (ei_id x)) (external_identities db))"
    and idp: "idp \<in> set (left_join (\<lambda>i. case ei of None \<Rightarrow> False | Some x \<Rightarrow> idp_id i = ei_provider x)
       (identity_providers db))"
    and st: "case ei of None \<Rightarrow> True | Some x \<Rightarrow> ei_state x = ''active''"
      "case idp of None \<Rightarrow> True | Some x \<Rightarrow> idp_state x = ''active''"
    by blast
  have x: "ei = Some x" if "x \<in> set (external_identities db)" "se_identity s = Some (ei_id x)" for x
    using that by (intro left_join_unique [OF ei assms(2), where c = "ei_id x"]) auto
  have i: "idp = Some i" if "ei = Some x" "i \<in> set (identity_providers db)" "idp_id i = ei_provider x" for x i
    using that by (intro left_join_unique [OF idp assms(3), where c = "ei_provider x"]) auto
  show ?thesis using r active_memberD [OF r(5)] x i st
    unfolding session_live_def by (intro bexI [of _ s] bexI [of _ m]) auto
qed

lemma authenticate_session_live:
  assumes "authenticate_session f now db h = (db', Inr a)"
    and "distinct (map ei_id (external_identities db))" "distinct (map idp_id (identity_providers db))"
  shows "session_live now db h a"
  using assms(1) session_rows_live [OF _ assms(2,3)]
  by (auto simp: authenticate_session_def elim!: query_row_InrE split: sum.splits prod.splits)

definition producer_token_live :: "gotime \<Rightarrow> auth_db \<Rightarrow> string \<Rightarrow> actor \<Rightarrow> bool" where
  "producer_token_live now db h a \<longleftrightarrow> (\<exists>p \<in> set (producer_access_tokens db). \<exists>c \<in> set (producer_clients db).
     pt_hash p = h \<and> pt_state p = ''active'' \<and> now < pt_expires p
     \<and> pc_tenant c = pt_tenant p \<and> pc_id c = pt_client p \<and> pc_state c = ''active''
     \<and> a = \<lparr> actor_id = ''producer_client:'' @ pt_client p, actor_tenant = pt_tenant p,
             actor_role = ''developer'', actor_scopes = pt_scopes p, actor_source = coalesce_str (pc_source c) \<rparr>)"

lemma producer_token_rows_live:
  "(p, c) \<in> set (producer_token_rows now db h) \<Longrightarrow>
   producer_token_live now db h \<lparr> actor_id = ''producer_client:'' @ pt_client p, actor_tenant = pt_tenant p,
     actor_role = ''developer'', actor_scopes = pt_scopes p, actor_source = coalesce_str (pc_source c) \<rparr>"
  by (auto simp: producer_token_rows_def producer_token_live_def)

lemma authenticate_producer_token_live:
  "authenticate_producer_access_token f now db h = (db', Inr a) \<Longrightarrow> producer_token_live now db h a"
  by (auto simp: authenticate_producer_access_token_def dest!: query_row_in producer_token_rows_live
      split: sum.splits prod.splits)

definition mtls_identity_live :: "gotime \<Rightarrow> auth_db \<Rightarrow> string \<Rightarrow> actor \<Rightarrow> bool" where
  "mtls_identity_live now db h a \<longleftrightarrow> (\<exists>i \<in> set (producer_mtls_identities db).
     mi_fingerprint i = h \<and> mi_state i = ''active'' \<and> mi_not_before i \<le> now \<and> now < mi_not_after i
     \<and> a = \<lparr> actor_id = ''producer_mtls:'' @ mi_id i, actor_tenant = mi_tenant i, actor_role = ''developer'',
             actor_scopes = [''events:write''], actor_source = coalesce_str (mi_source i) \<rparr>)"

lemma authenticate_mtls_live:
  "authenticate_producer_mtls_identity f now db h = Inr a \<Longrightarrow> mtls_identity_live now db h a"
  by (auto simp: authenticate_producer_mtls_identity_def mtls_identity_live_def
      elim!: query_row_InrE split: sum.splits)

section \<open>The Authenticator interface\<close>

text \<open>
  What the middlewares rely on: no actor for an empty token, and an actor only for a token the
  provider recognises (\<open>live\<close>).
\<close>

locale authenticator =
  fixes authn :: "'s authn"
    and live :: "'s \<Rightarrow> string \<Rightarrow> actor \<Rightarrow> bool"
  assumes authn_empty: "authn db [] = (db, Inl ErrUnauthorized)"
    and authn_live: "authn db token = (db', Inr a) \<Longrightarrow> live db token a"
begin

lemma bearer_required:
  assumes "bearer_token (ah_authorization r) = []"
    and "session_auth = None \<or> ah_session_cookie r = None"
  shows "require_auth (Some authn) session_auth db r
    = (db, Rejected (problem_unauthorized (ah_request_id r)))"
  using assms authn_empty [of db]
  by (auto simp: require_auth_def Let_def split: option.splits)

lemma require_auth_live:
  assumes "require_auth (Some authn) None db r = (db', Next a)"
  shows "bearer_token (ah_authorization r) \<noteq> [] \<and> live db (bearer_token (ah_authorization r)) a"
  using assms authn_empty [of db] authn_live [of db "bearer_token (ah_authorization r)"]
  by (cases "bearer_token (ah_authorization r)")
    (auto simp: require_auth_def Let_def split: prod.splits sum.splits)

end

definition token_live :: "(string \<Rightarrow> string) \<Rightarrow> ('s \<Rightarrow> string \<Rightarrow> actor \<Rightarrow> bool) \<Rightarrow> 's \<Rightarrow> string \<Rightarrow> actor \<Rightarrow> bool" where
  "token_live sha live db token a \<longleftrightarrow> token \<noteq> [] \<and> live db (hash_token sha token) a"

lemma lookup_authenticate_sound:
  assumes "\<And>db h db' a. l db h = (db', Inr a) \<Longrightarrow> live db h a"
  shows "authenticator (lookup_authenticate sha (Some l)) (token_live sha live)"
  by unfold_locales (auto simp: lookup_authenticate_def token_live_def assms split: if_splits)

interpretation api_key_authn: authenticator
    "lookup_authenticate sha (Some (authenticate_api_key f now))" "token_live sha (api_key_live now)"
  for sha f now
  by (rule lookup_authenticate_sound) (rule authenticate_api_key_live)

interpretation producer_authn: authenticator
    "lookup_authenticate sha (Some (authenticate_producer_access_token f now))"
    "token_live sha (producer_token_live now)" for sha f now
  by (rule lookup_authenticate_sound) (rule authenticate_producer_token_live)

interpretation static_authn: authenticator
    "static_authenticate sha h a" "\<lambda>_ token b. hash_token sha token = h \<and> b = a" for sha h a
  by unfold_locales (auto simp: static_authenticate_def split: if_splits)

definition runtime_live ::
    "(string \<Rightarrow> string) \<Rightarrow> gotime \<Rightarrow> string \<Rightarrow> string \<Rightarrow> auth_db \<Rightarrow> string \<Rightarrow> actor \<Rightarrow> bool" where
  "runtime_live sha now bh bt db token a \<longleftrightarrow> token \<noteq> [] \<and>
     (api_key_live now db (hash_token sha token) a
      \<or> bh \<noteq> [] \<and> hash_token sha token = bh \<and> a = bootstrap_actor bt)"

lemma lookup_authenticate_api_error:
  "lookup_authenticate sha (Some (authenticate_api_key f now)) db token = (db', Inl e) \<Longrightarrow> db' = db"
  by (auto simp: lookup_authenticate_def authenticate_api_key_def Let_def
      split: if_splits sum.splits prod.splits)

interpretation runtime_authn: authenticator
    "runtime_auth sha (Some (authenticate_api_key f now)) bh bt" "runtime_live sha now bh bt"
  for sha f now bh bt
proof unfold_locales
  fix db
  show "runtime_auth sha (Some (authenticate_api_key f now)) bh bt db [] = (db, Inl ErrUnauthorized)"
    by (simp add: runtime_auth_def lookup_authenticate_def static_authenticate_def)
next
  fix db token db' a
  assume "runtime_auth sha (Some (authenticate_api_key f now)) bh bt db token = (db', Inr a)"
  then show "runtime_live sha now bh bt db token a"
    using api_key_authn.authn_live [of sha f now db token]
    by (auto simp: runtime_auth_def runtime_live_def token_live_def static_authenticate_def
        split: prod.splits sum.splits if_splits)
qed

section \<open>Properties\<close>


definition sample_auth_db :: auth_db where
  "sample_auth_db = \<lparr> api_keys = [], auth_memberships = [], auth_sessions = [],
     external_identities = [], identity_providers = [],
     producer_clients = [\<lparr> pc_id = ''c'', pc_tenant = ''t'', pc_source = None, pc_state = ''active'' \<rparr>],
     producer_access_tokens = [\<lparr> pt_hash = ''sha256:6b'', pt_tenant = ''t'', pt_client = ''c'',
       pt_scopes = [''events:write''], pt_state = ''active'', pt_expires = 10, pt_last_used = None \<rparr>],
     producer_mtls_identities = [], scim_tokens = [] \<rparr>"

definition sample_auth_request :: auth_http_request where
  "sample_auth_request = \<lparr> ah_request_id = ''r'', ah_authorization = ''Bearer k'',
     ah_session_cookie = None, ah_peer_certificates = [], ah_verified_chains = 0 \<rparr>"

lemma sample_bearer: "bearer_token ''Bearer k'' = ''k''"
  by (simp add: bearer_token_def equal_fold_def trim_space_def trim_left_def trim_right_def is_space_def)

lemma sample_hash: "hash_token id ''k'' = ''sha256:6b''"
  by code_simp


lemma events_write_or_forbidden_Next:
  "events_write_or_forbidden rid act = Next a \<longleftrightarrow> a = act \<and> can a ''events:write'' (actor_tenant a)"
  by (auto simp: events_write_or_forbidden_def)

text \<open>
  Producer ingestion passes on only actors that may write events in their own tenant. When
  the client presents a certificate and mTLS is configured, the chain must have been verified
  and the certificate's fingerprint must be that of an active identity inside its validity
  window: an invalid certificate never falls back to the bearer token.
\<close>

theorem require_producer_auth_sound:
  assumes "require_producer_auth sha mtls producer_auth auth db r = (db', Next a)"
  shows "can a ''events:write'' (actor_tenant a)
    \<and> (\<forall>cert rest. mtls = Some (authenticate_producer_mtls_identity f now)
         \<and> ah_peer_certificates r = cert # rest
         \<longrightarrow> ah_verified_chains r \<noteq> 0
           \<and> mtls_identity_live now db (certificate_fingerprint sha cert) a)"
  using assms authenticate_mtls_live [of f now db _ a]
  by (auto simp: require_producer_auth_def Let_def authenticate_certificate_def
      events_write_or_forbidden_Next
      split: list.splits option.splits prod.splits sum.splits if_splits)

theorem require_producer_auth_sound_witness:
  "\<exists>db' a. require_producer_auth id (Some (authenticate_producer_mtls_identity no_faults 5))
      (Some (lookup_authenticate id (Some (authenticate_producer_access_token no_faults 5)))) None
      sample_auth_db sample_auth_request = (db', Next a) \<and> can a ''events:write'' (actor_tenant a)"
proof -
  have "\<exists>db' a. require_producer_auth id (Some (authenticate_producer_mtls_identity no_faults 5))
      (Some (lookup_authenticate id (Some (authenticate_producer_access_token no_faults 5)))) None
      sample_auth_db sample_auth_request = (db', Next a)"
    by (simp add: require_producer_auth_def sample_auth_request_def sample_bearer
        lookup_authenticate_def authenticate_producer_access_token_def producer_token_rows_def sample_auth_db_def query_row_def
        unauthorized_if_no_rows_def sample_hash Let_def events_write_or_forbidden_def can_iff
        role_allows_def actor_scopes_allow_def)
  then show ?thesis
    using require_producer_auth_sound [of id "Some (authenticate_producer_mtls_identity no_faults 5)"]
    by blast
qed

end
