(* ===== verification/Go_Text.thy ===== *)
theory Go_Text
  imports Go_Numbers
begin

text \<open>
  Text formats of the Go standard library that the sources hash: JSON strings as
  \<open>encoding/json\<close> writes them (HTML escaping included) and \<open>time.RFC3339Nano\<close> in UTC.
  Strings are taken as valid UTF-8, which PostgreSQL guarantees of every text column: bytes above
  127 are copied, U+2028 and U+2029 are escaped.
\<close>

section \<open>JSON strings\<close>

definition esc_char :: "char \<Rightarrow> string" where
  "esc_char c = (let n = (of_char c :: nat) in
     if n = 34 then [CHR 0x5C, CHR 0x22]
     else if n = 92 then [CHR 0x5C, CHR 0x5C]
     else if n = 8 then [CHR 0x5C, CHR ''b'']
     else if n = 12 then [CHR 0x5C, CHR ''f'']
     else if n = 10 then [CHR 0x5C, CHR ''n'']
     else if n = 13 then [CHR 0x5C, CHR ''r'']
     else if n = 9 then [CHR 0x5C, CHR ''t'']
     else if n < 32 \<or> n = 60 \<or> n = 62 \<or> n = 38
     then [CHR 0x5C, CHR ''u'', CHR ''0'', CHR ''0'', hex_digit (n div 16), hex_digit (n mod 16)]
     else [c])"

text \<open>The line separators: E2 80 A8 and E2 80 A9.\<close>

fun line_sep :: "string \<Rightarrow> bool" where
  "line_sep (a # b # c # _) = (a = CHR 0xE2 \<and> b = CHR 0x80 \<and> (c = CHR 0xA8 \<or> c = CHR 0xA9))"
| "line_sep _ = False"

function json_escape :: "string \<Rightarrow> string" where
  "json_escape [] = []"
| "json_escape (c # cs) =
     (if line_sep (c # cs)
      then [CHR 0x5C, CHR ''u'', CHR ''2'', CHR ''0'', CHR ''2'',
            if cs ! 1 = CHR 0xA8 then CHR ''8'' else CHR ''9''] @ json_escape (drop 2 cs)
      else esc_char c @ json_escape cs)"
  by pat_completeness auto
termination
  by (relation "measure length") auto

definition json_quote :: "string \<Rightarrow> string" where
  "json_quote s = CHR 0x22 # json_escape s @ [CHR 0x22]"

text \<open>A reader of JSON strings, up to and including the closing quote.\<close>

definition unescape1 :: "char \<Rightarrow> char" where
  "unescape1 e = (if e = CHR ''b'' then CHR 0x08 else if e = CHR ''f'' then CHR 0x0C
     else if e = CHR ''n'' then CHR 0x0A else if e = CHR ''r'' then CHR 0x0D
     else if e = CHR ''t'' then CHR 0x09 else e)"

definition unescape_u :: "char \<Rightarrow> char \<Rightarrow> char \<Rightarrow> string" where
  "unescape_u a x y = (if a = CHR ''2''
     then [CHR 0xE2, CHR 0x80, if y = CHR ''8'' then CHR 0xA8 else CHR 0xA9]
     else [char_of (the (hex_val x) * 16 + the (hex_val y))])"

fun scan_string :: "string \<Rightarrow> (string \<times> string) option" where
  "scan_string [] = None"
| "scan_string (c # cs) =
     (if c = CHR 0x22 then Some ([], cs)
      else if c = CHR 0x5C then
        (case cs of
           e # r \<Rightarrow>
             if e = CHR ''u'' then
               (case r of
                  a # b # x # y # r' \<Rightarrow>
                    map_option (\<lambda>(s, t). (unescape_u a x y @ s, t)) (scan_string r')
                | _ \<Rightarrow> None)
             else map_option (\<lambda>(s, t). (unescape1 e # s, t)) (scan_string r)
         | [] \<Rightarrow> None)
      else map_option (\<lambda>(s, t). (c # s, t)) (scan_string cs))"

lemma line_sepE:
  assumes "line_sep s"
  obtains c r where "s = CHR 0xE2 # CHR 0x80 # c # r" "c = CHR 0xA8 \<or> c = CHR 0xA9"
  using assms by (cases s rule: line_sep.cases) auto

lemma char_eq_of_nat: "(c::char) = d \<longleftrightarrow> (of_char c :: nat) = of_char d"
  by (simp add: of_char_eq_iff)

lemma scan_esc_char:
  "scan_string (esc_char c @ t) = map_option (\<lambda>(s, r). (c # s, r)) (scan_string t)"
proof -
  let ?n = "of_char c :: nat"
  have c: "c = char_of ?n" by simp
  show ?thesis
  proof (cases "?n \<in> {34, 92, 8, 12, 10, 13, 9}")
    case True
    then have "c \<in> {CHR 0x22, CHR 0x5C, CHR 0x08, CHR 0x0C, CHR 0x0A, CHR 0x0D, CHR 0x09}"
      by (simp add: char_eq_of_nat)
    then show ?thesis
      by (elim insertE emptyE; hypsubst) (simp_all add: esc_char_def unescape1_def)
  next
    case n: False
    show ?thesis
    proof (cases "?n < 32 \<or> ?n = 60 \<or> ?n = 62 \<or> ?n = 38")
      case True
      then have "?n div 16 < 16" "?n mod 16 < 16" by auto
      moreover have "?n div 16 * 16 + ?n mod 16 = ?n" by simp
      ultimately show ?thesis using n True
        by (simp add: esc_char_def Let_def unescape_u_def)
    next
      case False
      then show ?thesis using n by (auto simp: esc_char_def Let_def char_eq_of_nat)
    qed
  qed
qed

lemma scan_json_escape: "scan_string (json_escape s @ CHR 0x22 # t) = Some (s, t)"
proof (induction s rule: json_escape.induct)
  case 1
  show ?case by simp
next
  case (2 c cs)
  show ?case
  proof (cases "line_sep (c # cs)")
    case True
    then obtain d r where "c = CHR 0xE2" "cs = CHR 0x80 # d # r" "d = CHR 0xA8 \<or> d = CHR 0xA9"
      by (auto elim: line_sepE)
    with True "2.IH"(1) show ?thesis by (auto simp: unescape_u_def)
  next
    case False
    with "2.IH"(2) show ?thesis by (simp add: scan_esc_char)
  qed
qed

lemma json_quote_prefix_inj:
  assumes "json_quote a @ s = json_quote b @ t"
  shows "a = b" and "s = t"
proof -
  have "scan_string (json_escape a @ CHR 0x22 # s) = scan_string (json_escape b @ CHR 0x22 # t)"
    using assms by (simp add: json_quote_def)
  then show "a = b" "s = t" by (simp_all add: scan_json_escape)
qed

lemma json_quote_inj: "json_quote a = json_quote b \<longleftrightarrow> a = b"
  using json_quote_prefix_inj [of a "[]" b "[]"] by auto

section \<open>Dates and RFC 3339\<close>

definition pad_nat :: "nat \<Rightarrow> nat \<Rightarrow> string" where
  "pad_nat w n = replicate (w - length (nat_str n)) (CHR ''0'') @ nat_str n"

definition pad_int :: "nat \<Rightarrow> int \<Rightarrow> string" where
  "pad_int w n = (if n < 0 then CHR ''-'' # pad_nat w (nat (- n)) else pad_nat w (nat n))"

text \<open>
  Year, month and day of a day number counted from 0000-03-01 of the proleptic Gregorian
  calendar, in eras of 400 years.
\<close>

definition civil_of_days :: "int \<Rightarrow> int \<times> int \<times> int" where
  "civil_of_days z =
     (let era = z div 146097; doe = z mod 146097;
          c = min (doe div 36524) 3; doc = doe - 36524 * c;
          q = doc div 1461; doq = doc - 1461 * q;
          a = min (doq div 365) 3; doy = doq - 365 * a;
          yoe = 100 * c + 4 * q + a;
          mp = (5 * doy + 2) div 153;
          d = doy - (153 * mp + 2) div 5 + 1;
          m = (if mp < 10 then mp + 3 else mp - 9)
      in (yoe + era * 400 + (if m \<le> 2 then 1 else 0), m, d))"

definition days_of_civil :: "int \<times> int \<times> int \<Rightarrow> int" where
  "days_of_civil = (\<lambda>(y, m, d).
     let y' = (if m \<le> 2 then y - 1 else y); era = y' div 400; yoe = y' mod 400;
         mp = (if 2 < m then m - 3 else m + 9)
     in era * 146097 + 365 * yoe + yoe div 4 - yoe div 100 + (153 * mp + 2) div 5 + d - 1)"

definition ns_day :: int where
  "ns_day = 86400 * ns_second"

definition civil_of_time :: "gotime \<Rightarrow> int \<times> int \<times> int" where
  "civil_of_time t = civil_of_days (t div ns_day + 306)"

definition trim_zeros :: "string \<Rightarrow> string" where
  "trim_zeros s = trim_right (\<lambda>c. c = CHR ''0'') s"

definition frac_nanos :: "nat \<Rightarrow> string" where
  "frac_nanos ns = (if ns = 0 then [] else CHR ''.'' # trim_zeros (pad_nat 9 ns))"

definition rfc3339_nano :: "gotime \<Rightarrow> string" where
  "rfc3339_nano t =
     (let (y, m, d) = civil_of_time t; r = t mod ns_day; s = r div ns_second
      in pad_int 4 y @ ''-'' @ pad_nat 2 (nat m) @ ''-'' @ pad_nat 2 (nat d) @ ''T'' @
         pad_nat 2 (nat (s div 3600)) @ '':'' @ pad_nat 2 (nat (s div 60 mod 60)) @ '':'' @
         pad_nat 2 (nat (s mod 60)) @ frac_nanos (nat (r mod ns_second)) @ ''Z'')"

lemma div_between: "0 < (k::int) \<Longrightarrow> k * (x div k) \<le> x \<and> x < k * (x div k) + k"
  by (metis add_less_cancel_left mult_div_mod_eq pos_mod_bound pos_mod_sign add.commute le_add_same_cancel1)

lemma min_div_rest:
  fixes x :: int
  assumes "0 < k" "0 \<le> x" "x \<le> 4 * k"
  shows "0 \<le> min (x div k) 3" "min (x div k) 3 \<le> 3"
    "0 \<le> x - k * min (x div k) 3" "x - k * min (x div k) 3 \<le> k"
proof -
  have nn: "0 \<le> x div k" using assms by (simp add: pos_imp_zdiv_nonneg_iff)
  then show "0 \<le> min (x div k) 3" "min (x div k) 3 \<le> 3" by auto
  note b = div_between [OF assms(1), of x]
  have "0 \<le> x - k * min (x div k) 3 \<and> x - k * min (x div k) 3 \<le> k"
  proof (cases "x div k \<le> 3")
    case True
    then show ?thesis using b by auto
  next
    case False
    then have "k * 4 \<le> k * (x div k)" "min (x div k) 3 = 3" using assms(1) by simp_all
    then show ?thesis using b assms by linarith
  qed
  then show "0 \<le> x - k * min (x div k) 3" "x - k * min (x div k) 3 \<le> k" by auto
qed

lemma days_of_civil_march:
  assumes "0 \<le> mp" "mp \<le> 11" "0 \<le> yoe" "yoe < 400"
  shows "days_of_civil (yoe + era * 400 + (if mp < 10 then 0 else 1), if mp < 10 then mp + 3 else mp - 9, d)
    = era * 146097 + 365 * yoe + yoe div 4 - yoe div 100 + (153 * mp + 2) div 5 + d - 1"
proof -
  define y where "y = yoe + era * 400"
  have y: "y div 400 = era" "y mod 400 = yoe" using assms(3,4) by (simp_all add: y_def)
  show ?thesis unfolding y_def [symmetric]
  proof (cases "mp < 10")
    case True
    then have "\<not> mp + 3 \<le> 2" "2 < mp + 3" "mp + 3 - 3 = mp" using assms(1) by simp_all
    then show "days_of_civil (y + (if mp < 10 then 0 else 1), if mp < 10 then mp + 3 else mp - 9, d)
        = era * 146097 + 365 * yoe + yoe div 4 - yoe div 100 + (153 * mp + 2) div 5 + d - 1"
      by (simp only: days_of_civil_def Let_def prod.case True if_True if_False add_0_right y)
  next
    case False
    then have "mp - 9 \<le> 2" "\<not> 2 < mp - 9" "mp - 9 + 9 = mp" "y + 1 - 1 = y" using assms(2) by simp_all
    then show "days_of_civil (y + (if mp < 10 then 0 else 1), if mp < 10 then mp + 3 else mp - 9, d)
        = era * 146097 + 365 * yoe + yoe div 4 - yoe div 100 + (153 * mp + 2) div 5 + d - 1"
      by (simp only: days_of_civil_def Let_def prod.case False if_True if_False y)
  qed
qed

lemma days_of_civil_of_days: "days_of_civil (civil_of_days z) = z"
proof -
  define era where era: "era = z div 146097"
  define doe where doe: "doe = z mod 146097"
  define c where c: "c = min (doe div 36524) 3"
  define doc where doc: "doc = doe - 36524 * c"
  define q where q: "q = doc div 1461"
  define doq where doq: "doq = doc - 1461 * q"
  define a where a: "a = min (doq div 365) 3"
  define doy where doy: "doy = doq - 365 * a"
  define yoe where yoe: "yoe = 100 * c + 4 * q + a"
  define mp where mp: "mp = (5 * doy + 2) div 153"
  have z: "z = era * 146097 + doe" by (simp add: era doe)
  have "0 \<le> doe" "doe \<le> 4 * 36524" using pos_mod_bound [of 146097 z] by (simp_all add: doe)
  note c' = min_div_rest [of 36524 doe, OF _ this, folded c, folded doc, simplified]
  have q': "0 \<le> q" "1461 * q \<le> doc" "doc < 1461 * q + 1461"
    using div_between [of 1461 doc, folded q] c'(3) by linarith+
  have "0 \<le> doq" "doq \<le> 4 * 365" using q' by (simp_all add: doq)
  note a' = min_div_rest [of 365 doq, OF _ this, folded a, folded doy, simplified]
  have q24: "q \<le> 24" using q' c' by linarith
  have mp': "0 \<le> mp" "mp \<le> 11"
    using div_between [of 153 "5 * doy + 2", folded mp] a'(3,4) by linarith+
  have yoe': "yoe div 4 = 25 * c + q" "yoe div 100 = c"
    using int_div_pos_eq [of yoe 4 "25 * c + q" a] int_div_pos_eq [of yoe 100 c "4 * q + a"]
      yoe q'(1) q24 a'(1,2) by simp_all
  have y400: "0 \<le> yoe" "yoe < 400" using yoe c'(1,2) q'(1) q24 a'(1,2) by linarith+
  have eq: "civil_of_days z = (yoe + era * 400 + (if mp < 10 then 0 else 1),
      if mp < 10 then mp + 3 else mp - 9, doy - (153 * mp + 2) div 5 + 1)"
    unfolding civil_of_days_def Let_def era [symmetric] doe [symmetric] c [symmetric] doc [symmetric]
      q [symmetric] doq [symmetric] a [symmetric] doy [symmetric] yoe [symmetric] mp [symmetric]
    using mp' by auto
  have "365 * yoe + yoe div 4 - yoe div 100 + doy = doe"
    unfolding yoe' using doc doq doy yoe by linarith
  then show ?thesis unfolding eq days_of_civil_march [OF mp' y400] using z by linarith
qed

lemma civil_inj: "civil_of_time t = civil_of_time u \<Longrightarrow> t div ns_day = u div ns_day"
  unfolding civil_of_time_def by (drule arg_cong [where f = days_of_civil]) (simp add: days_of_civil_of_days)

lemma digits_val_zeros: "digits_val (replicate k (CHR ''0'') @ s) = digits_val s"
  by (induction k) (simp_all add: digits_val_def digit_val_def)

lemma digits_val_pad [simp]: "digits_val (pad_nat w n) = n"
  using nat_str_digits [of n] by (simp add: pad_nat_def digits_val_zeros)

lemma pad_nat_inj: "pad_nat w n = pad_nat w m \<longleftrightarrow> n = m"
  by (metis digits_val_pad)

lemma set_pad_nat: "c \<in> set (pad_nat w n) \<Longrightarrow> is_digit c"
  by (auto simp: pad_nat_def dest: set_nat_str split: if_splits) (simp add: is_digit_def)

lemma length_nat_str: "n < 10 ^ w \<Longrightarrow> 0 < w \<Longrightarrow> length (nat_str n) \<le> w"
proof (induction n arbitrary: w rule: nat_str.induct)
  case (1 n)
  show ?case
  proof (cases "n < 10")
    case True
    then show ?thesis using "1.prems" by (simp add: nat_str.simps [of n])
  next
    case False
    with "1.prems" obtain v where w: "w = Suc v" "0 < v"
      by (cases w; cases "w = 1") (auto simp: gr0_conv_Suc)
    with "1.prems" have "n div 10 < 10 ^ v" by (simp add: less_mult_imp_div_less mult.commute)
    with "1.IH" [of v] False w show ?thesis by (simp add: nat_str.simps [of n])
  qed
qed

lemma length_pad_nat: "n < 10 ^ w \<Longrightarrow> 0 < w \<Longrightarrow> length (pad_nat w n) = w"
  using length_nat_str [of n w] by (simp add: pad_nat_def)

text \<open>The part of a text before a byte that is not a digit is determined.\<close>

lemma pad_nat_cancel:
  assumes "pad_nat w n @ c # s = pad_nat w m @ c # t" and "\<not> is_digit c"
  shows "n = m \<and> s = t"
proof -
  have "c \<notin> set (pad_nat w n)" "c \<notin> set (pad_nat w m)" using assms(2) set_pad_nat by blast+
  moreover have "cut_char c (pad_nat w n @ c # s) = cut_char c (pad_nat w m @ c # t)"
    using assms(1) by (rule arg_cong)
  ultimately have "pad_nat w n = pad_nat w m" "s = t" by (simp_all add: cut_char_append)
  then show ?thesis by (simp add: pad_nat_inj)
qed

lemma trim_zeros_snoc:
  "trim_zeros (xs @ [x]) = (if x = CHR ''0'' then trim_zeros xs else xs @ [x])"
  by (simp add: trim_zeros_def trim_right_def)

lemma trim_zeros_split: "\<exists>k. s = trim_zeros s @ replicate k (CHR ''0'')"
proof (induction s rule: rev_induct)
  case Nil
  show ?case by (simp add: trim_zeros_def trim_right_def)
next
  case (snoc x xs)
  then obtain k where k: "xs = trim_zeros xs @ replicate k (CHR ''0'')" by blast
  show ?case
  proof (cases "x = CHR ''0''")
    case True
    have "xs @ [x] = (trim_zeros xs @ replicate k (CHR ''0'')) @ [x]" using k by argo
    then have "xs @ [x] = trim_zeros (xs @ [x]) @ replicate (Suc k) (CHR ''0'')"
      using True by (simp add: trim_zeros_snoc replicate_append_same [symmetric])
    then show ?thesis by blast
  next
    case False
    then show ?thesis by (intro exI [of _ 0]) (simp add: trim_zeros_snoc)
  qed
qed

lemma trim_zeros_determines:
  assumes "trim_zeros s = trim_zeros t" and "length s = length t"
  shows "s = t"
proof -
  obtain k where k: "s = trim_zeros s @ replicate k (CHR ''0'')" using trim_zeros_split by blast
  obtain l where l: "t = trim_zeros t @ replicate l (CHR ''0'')" using trim_zeros_split by blast
  have "k = l" using arg_cong [OF k, of length] arg_cong [OF l, of length] assms by simp
  with k l assms(1) show ?thesis by argo
qed

lemma frac_nanos_inj:
  assumes "frac_nanos n @ ''Z'' = frac_nanos m @ ''Z''" and "n < 10 ^ 9" "m < 10 ^ 9"
  shows "n = m"
proof (cases "n = 0 \<or> m = 0")
  case True
  with assms(1) show ?thesis by (auto simp: frac_nanos_def split: if_splits)
next
  case False
  with assms(1) have "trim_zeros (pad_nat 9 n) = trim_zeros (pad_nat 9 m)"
    by (simp add: frac_nanos_def)
  moreover have "length (pad_nat 9 n) = length (pad_nat 9 m)"
    using assms(2,3) by (simp add: length_pad_nat)
  ultimately have "pad_nat 9 n = pad_nat 9 m" by (rule trim_zeros_determines)
  then show ?thesis by (simp add: pad_nat_inj)
qed

lemma civil_ranges:
  assumes "civil_of_time t = (y, m, d)"
  shows "0 \<le> m \<and> 0 \<le> d \<and> (0 \<le> t \<longrightarrow> 0 \<le> y)"
proof -
  define z where "z = t div ns_day + 306"
  define doe where doe: "doe = z mod 146097"
  define c where c: "c = min (doe div 36524) 3"
  define doc where doc: "doc = doe - 36524 * c"
  define q where q: "q = doc div 1461"
  define doq where doq: "doq = doc - 1461 * q"
  define a where a: "a = min (doq div 365) 3"
  define doy where doy: "doy = doq - 365 * a"
  define mp where mp: "mp = (5 * doy + 2) div 153"
  have "0 \<le> doe" "doe \<le> 4 * 36524" using pos_mod_bound [of 146097 z] by (simp_all add: doe)
  note c' = min_div_rest [of 36524 doe, OF _ this, folded c, folded doc, simplified]
  have q': "0 \<le> q" "1461 * q \<le> doc" "doc < 1461 * q + 1461"
    using div_between [of 1461 doc, folded q] c'(3) by linarith+
  have "0 \<le> doq" "doq \<le> 4 * 365" using q' by (simp_all add: doq)
  note a' = min_div_rest [of 365 doq, OF _ this, folded a, folded doy, simplified]
  have mp': "0 \<le> mp" using div_between [of 153 "5 * doy + 2", folded mp] a'(3) by linarith
  define dm where dm: "dm = (153 * mp + 2) div 5"
  have d0: "0 \<le> doy - dm + 1"
    using div_between [of 153 "5 * doy + 2", folded mp] div_between [of 5 "153 * mp + 2", folded dm]
    by linarith
  have "0 \<le> z div 146097" if "0 \<le> t"
    using that by (simp add: z_def ns_day_def pos_imp_zdiv_nonneg_iff)
  then show ?thesis using assms mp' d0 c'(1) q'(1) a'(1)
    unfolding civil_of_time_def civil_of_days_def Let_def z_def [symmetric] doe [symmetric] c [symmetric]
      doc [symmetric] q [symmetric] doq [symmetric] a [symmetric] doy [symmetric] mp [symmetric] dm [symmetric]
    by auto
qed

lemma div_nonneg: "0 \<le> x \<Longrightarrow> 0 < k \<Longrightarrow> 0 \<le> x div (k::int)"
  by (simp add: pos_imp_zdiv_nonneg_iff)

lemma nat_eq_nonneg: "nat a = nat b \<Longrightarrow> 0 \<le> a \<Longrightarrow> 0 \<le> b \<Longrightarrow> a = b"
  by simp

lemma divmod_eqI: "x div k = y div k \<Longrightarrow> x mod k = y mod k \<Longrightarrow> x = (y::int)"
  by (metis mult_div_mod_eq)

lemma hms_eqI:
  assumes "x mod 60 = y mod 60" "x div 60 mod 60 = y div 60 mod 60" "x div 3600 = y div (3600::int)"
  shows "x = y"
proof -
  have "x div 60 div 60 = y div 60 div 60"
    using assms(3) by (simp add: zdiv_zmult2_eq [symmetric])
  then have "x div 60 = y div 60" using assms(2) by (rule divmod_eqI)
  then show ?thesis using assms(1) by (rule divmod_eqI)
qed

lemma rfc3339_nano_inj:
  assumes "rfc3339_nano t = rfc3339_nano u" and "0 \<le> t" "0 \<le> u"
  shows "t = u"
proof -
  obtain y m d where ct: "civil_of_time t = (y, m, d)" by (metis prod.collapse)
  obtain y' m' d' where cu: "civil_of_time u = (y', m', d')" by (metis prod.collapse)
  note r = civil_ranges [OF ct] civil_ranges [OF cu]
  have y: "(y < 0) = False" "(y' < 0) = False" using r assms(2,3) by simp_all
  let ?r = "t mod ns_day" and ?r' = "u mod ns_day"
  let ?s = "?r div ns_second" and ?s' = "?r' div ns_second"
  have rr: "0 \<le> ?r" "0 \<le> ?r'" "0 \<le> ?s" "0 \<le> ?s'" by (simp_all add: ns_day_def div_nonneg)
  have eq: "pad_nat 4 (nat y) @ CHR ''-'' # pad_nat 2 (nat m) @ CHR ''-'' # pad_nat 2 (nat d) @ CHR ''T'' #
      pad_nat 2 (nat (?s div 3600)) @ CHR '':'' # pad_nat 2 (nat (?s div 60 mod 60)) @ CHR '':'' #
      pad_nat 2 (nat (?s mod 60)) @ frac_nanos (nat (?r mod ns_second)) @ ''Z'' =
    pad_nat 4 (nat y') @ CHR ''-'' # pad_nat 2 (nat m') @ CHR ''-'' # pad_nat 2 (nat d') @ CHR ''T'' #
      pad_nat 2 (nat (?s' div 3600)) @ CHR '':'' # pad_nat 2 (nat (?s' div 60 mod 60)) @ CHR '':'' #
      pad_nat 2 (nat (?s' mod 60)) @ frac_nanos (nat (?r' mod ns_second)) @ ''Z''"
    using assms(1) y unfolding rfc3339_nano_def ct cu Let_def prod.case pad_int_def
    by (simp only: if_False append_Cons append_Nil)
  have nT: "\<not> is_digit CHR ''T''" "\<not> is_digit CHR '':''" by (simp_all add: is_digit_def)
  note e1 = pad_nat_cancel [OF eq is_digit_neq(1)]
  note e2 = pad_nat_cancel [OF conjunct2 [OF e1] is_digit_neq(1)]
  note e3 = pad_nat_cancel [OF conjunct2 [OF e2] nT(1)]
  note e4 = pad_nat_cancel [OF conjunct2 [OF e3] nT(2)]
  note e5 = pad_nat_cancel [OF conjunct2 [OF e4] nT(2)]
  have l: "length (pad_nat 2 (nat (x mod 60))) = 2" for x :: int
    by (intro length_pad_nat) (simp_all add: nat_less_iff order_less_trans [OF pos_mod_bound])
  have e6: "pad_nat 2 (nat (?s mod 60)) = pad_nat 2 (nat (?s' mod 60))"
    "frac_nanos (nat (?r mod ns_second)) @ ''Z'' = frac_nanos (nat (?r' mod ns_second)) @ ''Z''"
    using conjunct2 [OF e5] append_eq_append_conv [OF disjI1, OF trans [OF l l [symmetric]]] by metis+
  have ns: "?r mod ns_second = ?r' mod ns_second"
    by (rule nat_eq_nonneg [OF frac_nanos_inj [OF e6(2)]]) (simp_all add: nat_less_iff)
  have "?s mod 60 = ?s' mod 60" using e6(1) unfolding pad_nat_inj by (rule nat_eq_nonneg) simp_all
  moreover have "?s div 60 mod 60 = ?s' div 60 mod 60"
    using conjunct1 [OF e5] by (rule nat_eq_nonneg) simp_all
  moreover have "?s div 3600 = ?s' div 3600"
    using conjunct1 [OF e4] by (rule nat_eq_nonneg) (intro div_nonneg rr; simp)+
  ultimately have "?s = ?s'" by (rule hms_eqI)
  from divmod_eqI [OF this ns] have r_eq: "?r = ?r'" .
  have "civil_of_time t = civil_of_time u"
    using conjunct1 [OF e1] conjunct1 [OF e2] conjunct1 [OF e3] r assms(2,3) by (simp add: ct cu nat_eq_iff)
  then have "t div ns_day = u div ns_day" by (rule civil_inj)
  from divmod_eqI [OF this r_eq] show ?thesis .
qed

end
