(* ===== verification/Audit_Chain.thy ===== *)
theory Audit_Chain
  imports Go_Text Sql_Store Step_Systems
begin

text \<open>
  The tamper-evident audit log: the hashes of internal/auditchain/chain.go over the canonical
  JSON of internal/canonicaljson, and the store operations that append to the chain, backfill
  it, apply retention to it, verify it and anchor it (internal/adapters/postgres/store.go).
  SHA-256 is the parameter \<open>sha\<close>. Identifiers and the clock are arguments.

  The tables are the first fields of the database record that later theories extend.
\<close>

section \<open>Model: hashes\<close>

record audit_event =
  ae_id :: string
  ae_tenant :: string
  ae_actor :: string
  ae_action :: string
  ae_resource :: string
  ae_resource_id :: string
  ae_reason :: string
  ae_occurred_at :: gotime

record chain_entry =
  ce_id :: string
  ce_tenant :: string
  ce_sequence :: int
  ce_event_id :: string
  ce_event_hash :: string
  ce_previous :: string
  ce_chain_hash :: string
  ce_version :: string
  ce_source :: string
  ce_state :: string
  ce_deleted_at :: "gotime option"
  ce_tombstone :: string
  ce_created_at :: gotime

definition canonicalization_version :: string where
  "canonicalization_version = ''audit-chain-v1''"

text \<open>\<open>json.Marshal\<close> of an object whose members are all strings, in the given order.\<close>

definition json_member :: "string \<times> string \<Rightarrow> string" where
  "json_member = (\<lambda>(k, v). json_quote k @ [CHR '':''] @ json_quote v)"

definition json_object :: "(string \<times> string) list \<Rightarrow> string" where
  "json_object members = CHR ''{'' # join_with [CHR '',''] (map json_member members) @ [CHR ''}'']"

definition canonical_event :: "audit_event \<Rightarrow> string" where
  "canonical_event e = json_object
     [(''id'', ae_id e), (''tenant_id'', ae_tenant e), (''actor_id'', ae_actor e),
      (''action'', ae_action e), (''resource'', ae_resource e), (''resource_id'', ae_resource_id e),
      (''reason'', ae_reason e), (''occurred_at'', rfc3339_nano (ae_occurred_at e))]"

definition sha256_text :: "(string \<Rightarrow> string) \<Rightarrow> string \<Rightarrow> string" where
  "sha256_text sha raw = ''sha256:'' @ hex_encode (sha raw)"

definition event_hash :: "(string \<Rightarrow> string) \<Rightarrow> audit_event \<Rightarrow> string" where
  "event_hash sha e = sha256_text sha (canonical_event e)"

definition chain_input :: "string \<Rightarrow> string \<Rightarrow> string" where
  "chain_input previous evh = json_object
     [(''canonicalization_version'', canonicalization_version), (''event_hash'', evh),
      (''previous_chain_hash'', previous)]"

definition chain_hash :: "(string \<Rightarrow> string) \<Rightarrow> string \<Rightarrow> string \<Rightarrow> string" where
  "chain_hash sha previous evh = sha256_text sha (chain_input previous evh)"

definition previous_hash_for_sequence :: "int \<Rightarrow> string \<Rightarrow> string" where
  "previous_hash_for_sequence sequence previous = (if sequence \<le> 1 then [] else previous)"

definition compute_entry ::
    "(string \<Rightarrow> string) \<Rightarrow> string \<Rightarrow> audit_event \<Rightarrow> int \<Rightarrow> string \<Rightarrow> string \<Rightarrow> gotime \<Rightarrow> chain_entry" where
  "compute_entry sha eid event sequence previous_chain_hash source created_at =
     (let evh = event_hash sha event;
          previous = previous_hash_for_sequence sequence previous_chain_hash
      in \<lparr> ce_id = eid, ce_tenant = ae_tenant event, ce_sequence = sequence,
           ce_event_id = ae_id event, ce_event_hash = evh, ce_previous = previous,
           ce_chain_hash = chain_hash sha previous evh, ce_version = canonicalization_version,
           ce_source = source, ce_state = ''active'', ce_deleted_at = None, ce_tombstone = [],
           ce_created_at = created_at \<rparr>)"

section \<open>Model: the tables\<close>

record chain_head =
  ch_tenant :: string
  ch_sequence :: int
  ch_chain_hash :: string
  ch_last_event :: string
  ch_updated_at :: gotime

record chain_anchor =
  ca_id :: string
  ca_tenant :: string
  ca_from :: int
  ca_to :: int
  ca_chain_hash :: string
  ca_manifest_sha :: string
  ca_storage_backend :: string
  ca_bucket :: string
  ca_key :: string
  ca_created_by :: string
  ca_reason :: string
  ca_created_at :: gotime

record worker_lease =
  wl_id :: string
  wl_worker :: string
  wl_expires_at :: gotime
  wl_updated_at :: gotime

record retention_item =
  ri_id :: string
  ri_tenant :: string
  ri_run :: string
  ri_resource_type :: string
  ri_resource_id :: string
  ri_action :: string
  ri_state :: string

record audit_db =
  audit_events :: "audit_event list"
  chain_entries :: "chain_entry list"
  chain_heads :: "chain_head list"
  chain_anchors :: "chain_anchor list"
  worker_leases :: "worker_lease list"
  retention_run_items :: "retention_item list"

section \<open>Model: appending\<close>

record audit_input =
  ai_tenant :: string
  ai_actor :: string
  ai_action :: string
  ai_resource :: string
  ai_resource_id :: string
  ai_reason :: string
  ai_occurred_at :: gotime
  ai_source :: string

definition insert_audit_event :: "faults \<Rightarrow> audit_event \<Rightarrow> ('a audit_db_scheme, unit) tx" where
  "insert_audit_event f e = try_tx f ''insert_audit_event'' (\<lambda>db.
     if ae_id e \<in> ae_id ` set (audit_events db) then Inl (ErrOther ''audit_events_pkey'')
     else Inr (db\<lparr>audit_events := audit_events db @ [e]\<rparr>, ()))"

definition ensure_audit_chain_head ::
    "faults \<Rightarrow> gotime \<Rightarrow> string \<Rightarrow> ('a audit_db_scheme, int \<times> string) tx" where
  "ensure_audit_chain_head f now tenant = then_tx
     (exec_tx f ''insert_head'' (\<lambda>db.
        if tenant \<in> ch_tenant ` set (chain_heads db) then db
        else db\<lparr>chain_heads := chain_heads db @ [\<lparr> ch_tenant = tenant, ch_sequence = 0,
               ch_chain_hash = [], ch_last_event = [], ch_updated_at = now \<rparr>]\<rparr>))
     (read_tx (\<lambda>db. bind_res (query_row f ''select_head''
          (filter (\<lambda>h. ch_tenant h = tenant) (chain_heads db)))
        (\<lambda>h. Inr (ch_sequence h, ch_chain_hash h))))"

text \<open>\<open>ON CONFLICT (tenant_id, audit_event_id) DO NOTHING\<close>; the other unique keys raise.\<close>

definition insert_audit_chain_entry :: "faults \<Rightarrow> chain_entry \<Rightarrow> ('a audit_db_scheme, unit) tx" where
  "insert_audit_chain_entry f e = try_tx f ''insert_entry'' (\<lambda>db.
     if \<exists>x \<in> set (chain_entries db). ce_tenant x = ce_tenant e \<and> ce_event_id x = ce_event_id e
     then Inr (db, ())
     else if ce_id e \<in> ce_id ` set (chain_entries db)
     then Inl (ErrOther ''audit_chain_entries_pkey'')
     else if \<exists>x \<in> set (chain_entries db). ce_tenant x = ce_tenant e \<and> ce_sequence x = ce_sequence e
     then Inl (ErrOther ''audit_chain_entries_tenant_id_sequence_key'')
     else Inr (db\<lparr>chain_entries := chain_entries db @ [e]\<rparr>, ()))"

definition update_head ::
    "faults \<Rightarrow> gotime \<Rightarrow> string \<Rightarrow> int \<Rightarrow> string \<Rightarrow> string \<Rightarrow> ('a audit_db_scheme, unit) tx" where
  "update_head f now tenant sequence hash last_event = exec_tx f ''update_head'' (\<lambda>db.
     db\<lparr>chain_heads := update_where (\<lambda>h. ch_tenant h = tenant)
       (\<lambda>h. h\<lparr>ch_sequence := sequence, ch_chain_hash := hash, ch_last_event := last_event,
              ch_updated_at := now\<rparr>) (chain_heads db)\<rparr>)"

definition truncate_micro :: "gotime \<Rightarrow> gotime" where
  "truncate_micro t = t - t mod 1000"

definition record_audit_event_tx ::
    "(string \<Rightarrow> string) \<Rightarrow> faults \<Rightarrow> gotime \<Rightarrow> string \<Rightarrow> string \<Rightarrow> audit_input \<Rightarrow>
     ('a audit_db_scheme, audit_event) tx" where
  "record_audit_event_tx sha f now event_id entry_id input =
     (let source = (if ai_source input = [] then ''live'' else ai_source input);
          occurred = truncate_micro (if ai_occurred_at input = 0 then now else ai_occurred_at input);
          event = \<lparr> ae_id = event_id, ae_tenant = ai_tenant input, ae_actor = ai_actor input,
            ae_action = ai_action input, ae_resource = ai_resource input,
            ae_resource_id = ai_resource_id input, ae_reason = ai_reason input,
            ae_occurred_at = occurred \<rparr>
      in then_tx (insert_audit_event f event)
         (bind_tx (ensure_audit_chain_head f now (ae_tenant event)) (\<lambda>(sequence, previous).
            let entry = compute_entry sha entry_id event (wrap64 (sequence + 1)) previous source occurred
            in then_tx (insert_audit_chain_entry f entry)
               (then_tx (update_head f now (ae_tenant event) (ce_sequence entry)
                   (ce_chain_hash entry) (ae_id event))
                 (return_tx event)))))"

definition record_audit_event ::
    "(string \<Rightarrow> string) \<Rightarrow> faults \<Rightarrow> gotime \<Rightarrow> string \<Rightarrow> string \<Rightarrow> audit_input \<Rightarrow>
     'a audit_db_scheme \<Rightarrow> 'a audit_db_scheme \<times> unit res" where
  "record_audit_event sha f now event_id entry_id input =
     run_tx f (then_tx (record_audit_event_tx sha f now event_id entry_id input) (return_tx ()))"

section \<open>Model: backfill\<close>

definition unchained :: "'a audit_db_scheme \<Rightarrow> audit_event \<Rightarrow> bool" where
  "unchained db a \<longleftrightarrow> \<not> (\<exists>c \<in> set (chain_entries db). ce_tenant c = ae_tenant a \<and> ce_event_id c = ae_id a)"

text \<open>The loop over the tenant's events; \<open>ids\<close> are the identifiers \<open>mustID\<close> returns.\<close>

fun backfill_loop ::
    "(string \<Rightarrow> string) \<Rightarrow> faults \<Rightarrow> gotime \<Rightarrow> (nat \<Rightarrow> string) \<Rightarrow> audit_event list \<Rightarrow>
     int \<Rightarrow> string \<Rightarrow> string \<Rightarrow> nat \<Rightarrow> ('a audit_db_scheme, int \<times> string \<times> string \<times> nat) tx" where
  "backfill_loop sha f now ids [] sequence previous last_id n = return_tx (sequence, previous, last_id, n)"
| "backfill_loop sha f now ids (event # events) sequence previous last_id n =
     (let entry = compute_entry sha (ids n) event (wrap64 (sequence + 1)) previous ''backfill'' now
      in then_tx (insert_audit_chain_entry f entry)
           (backfill_loop sha f now ids events (wrap64 (sequence + 1)) (ce_chain_hash entry)
              (ae_id event) (Suc n)))"

definition backfill_tenant_audit_chain ::
    "(string \<Rightarrow> string) \<Rightarrow> faults \<Rightarrow> gotime \<Rightarrow> (nat \<Rightarrow> string) \<Rightarrow> string \<Rightarrow> nat \<Rightarrow>
     ('a audit_db_scheme, nat) tx" where
  "backfill_tenant_audit_chain sha f now ids tenant lim =
     bind_tx (ensure_audit_chain_head f now tenant) (\<lambda>(sequence, previous).
     bind_tx (read_tx (\<lambda>db. query_rows f ''select_unchained'' (take lim
         (order_by (\<lambda>a. (ae_occurred_at a, ae_id a))
           (filter (\<lambda>a. ae_tenant a = tenant \<and> unchained db a) (audit_events db)))))) (\<lambda>events.
     bind_tx (backfill_loop sha f now ids events sequence previous [] 0) (\<lambda>(sequence', previous', last_id, n).
     then_tx (if last_id \<noteq> [] then update_head f now tenant sequence' previous' last_id else return_tx ())
       (return_tx n))))"

text \<open>\<open>ttl.Seconds()\<close> is an integral number of seconds for every lease of the sources.\<close>

definition try_acquire_worker_lease ::
    "faults \<Rightarrow> gotime \<Rightarrow> string \<Rightarrow> string \<Rightarrow> duration \<Rightarrow> ('a audit_db_scheme, bool) tx" where
  "try_acquire_worker_lease f now lease_id worker_id ttl =
     (let lid = (let l = trim_space lease_id in if l = [] then ''worker'' else l);
          wid = (let w = trim_space worker_id in if w = [] then ''worker'' else w);
          seconds = (let s = ttl div ns_second in if s \<le> 0 then 60 else s);
          expires = now + seconds * ns_second
      in try_tx f ''acquire_lease'' (\<lambda>db.
          if lid \<notin> wl_id ` set (worker_leases db)
          then Inr (db\<lparr>worker_leases := worker_leases db @ [\<lparr> wl_id = lid, wl_worker = wid,
                      wl_expires_at = expires, wl_updated_at = now \<rparr>]\<rparr>, True)
          else let free = (\<lambda>l. wl_id l = lid \<and> (wl_expires_at l \<le> now \<or> wl_worker l = wid)) in
            Inr (db\<lparr>worker_leases := update_where free
                   (\<lambda>l. l\<lparr>wl_worker := wid, wl_expires_at := expires, wl_updated_at := now\<rparr>)
                   (worker_leases db)\<rparr>, list_ex free (worker_leases db))))"

record backfill_result =
  bf_lease_acquired :: bool
  bf_tenants_scanned :: nat
  bf_events_backfilled :: nat
  bf_more :: bool

text \<open>\<open>GROUP BY tenant_id ORDER BY min(occurred_at), min(id), tenant_id LIMIT n\<close>.\<close>

definition unchained_tenants :: "'a audit_db_scheme \<Rightarrow> nat \<Rightarrow> string list" where
  "unchained_tenants db lim =
     (let events = filter (unchained db) (audit_events db);
          of_tenant = (\<lambda>t. filter (\<lambda>a. ae_tenant a = t) events)
      in take lim (order_by (\<lambda>t. (Min (set (map ae_occurred_at (of_tenant t))),
                                   Min (set (map ae_id (of_tenant t))), t))
           (remdups (map ae_tenant events))))"

fun backfill_tenants ::
    "(string \<Rightarrow> string) \<Rightarrow> faults \<Rightarrow> gotime \<Rightarrow> (string \<Rightarrow> nat \<Rightarrow> string) \<Rightarrow> string list \<Rightarrow> nat \<Rightarrow>
     backfill_result \<Rightarrow> ('a audit_db_scheme, backfill_result) tx" where
  "backfill_tenants sha f now ids [] remaining res = return_tx res"
| "backfill_tenants sha f now ids (t # ts) remaining res =
     (if remaining = 0 then return_tx res
      else bind_tx (backfill_tenant_audit_chain sha f now (ids t) t remaining) (\<lambda>n.
        backfill_tenants sha f now ids ts (remaining - n)
          (res\<lparr>bf_tenants_scanned := bf_tenants_scanned res + 1,
               bf_events_backfilled := bf_events_backfilled res + n\<rparr>)))"

definition backfill_limit :: "int \<Rightarrow> nat" where
  "backfill_limit lim =
     (let l = (if lim \<le> 0 then 100 else lim); l' = (if 1000 < l then 1000 else l) in nat l')"

text \<open>The table exists: migration 012 creates it before the worker starts.\<close>

definition backfill_audit_chain ::
    "(string \<Rightarrow> string) \<Rightarrow> faults \<Rightarrow> gotime \<Rightarrow> (string \<Rightarrow> nat \<Rightarrow> string) \<Rightarrow> string \<Rightarrow> int \<Rightarrow>
     'a audit_db_scheme \<Rightarrow> 'a audit_db_scheme \<times> backfill_result res" where
  "backfill_audit_chain sha f now ids worker_id lim =
     (let n = backfill_limit lim;
          none = \<lparr> bf_lease_acquired = False, bf_tenants_scanned = 0, bf_events_backfilled = 0, bf_more = False \<rparr>
      in run_tx f (bind_tx (try_acquire_worker_lease f now ''audit-chain-backfill'' worker_id ns_minute)
          (\<lambda>acquired. if \<not> acquired then return_tx none
            else bind_tx (read_tx (\<lambda>db. query_rows f ''select_tenants'' (unchained_tenants db n))) (\<lambda>ts.
              bind_tx (backfill_tenants sha f now ids ts n (none\<lparr>bf_lease_acquired := True\<rparr>)) (\<lambda>res.
              bind_tx (read_tx (\<lambda>db. query_row f ''select_more'' [list_ex (unchained db) (audit_events db)]))
                (\<lambda>more. return_tx (res\<lparr>bf_more := more\<rparr>)))))))"

section \<open>Model: retention\<close>

definition retain_event ::
    "faults \<Rightarrow> gotime \<Rightarrow> string \<Rightarrow> string \<Rightarrow> string \<Rightarrow> string \<Rightarrow> string \<Rightarrow> ('a audit_db_scheme, unit) tx" where
  "retain_event f now tenant policy_id run_id item_id eid =
     then_tx (exec_tx f ''tombstone_entry'' (\<lambda>db. db\<lparr>chain_entries := update_where
         (\<lambda>c. ce_tenant c = tenant \<and> ce_event_id c = eid \<and> ce_state c \<noteq> ''retained'')
         (\<lambda>c. c\<lparr>ce_state := ''retained'', ce_deleted_at := Some now,
                ce_tombstone := ''retention_policy:'' @ policy_id\<rparr>) (chain_entries db)\<rparr>))
     (then_tx (exec_tx f ''delete_event'' (\<lambda>db. db\<lparr>audit_events := filter
         (\<lambda>a. \<not> (ae_tenant a = tenant \<and> ae_id a = eid)) (audit_events db)\<rparr>))
     (exec_tx f ''insert_run_item'' (\<lambda>db. db\<lparr>retention_run_items := retention_run_items db @
         [\<lparr> ri_id = item_id, ri_tenant = tenant, ri_run = run_id, ri_resource_type = ''audit_event'',
            ri_resource_id = eid, ri_action = ''delete_row'', ri_state = ''completed'' \<rparr>]\<rparr>)))"

fun retain_events ::
    "faults \<Rightarrow> gotime \<Rightarrow> string \<Rightarrow> string \<Rightarrow> string \<Rightarrow> (string \<Rightarrow> string) \<Rightarrow> string list \<Rightarrow>
     ('a audit_db_scheme, unit) tx" where
  "retain_events f now tenant policy_id run_id ids [] = return_tx ()"
| "retain_events f now tenant policy_id run_id ids (e # es) =
     then_tx (retain_event f now tenant policy_id run_id (ids e) e)
       (retain_events f now tenant policy_id run_id ids es)"

definition apply_audit_event_retention ::
    "faults \<Rightarrow> gotime \<Rightarrow> string \<Rightarrow> string \<Rightarrow> string \<Rightarrow> (string \<Rightarrow> string) \<Rightarrow> gotime \<Rightarrow>
     ('a audit_db_scheme, nat) tx" where
  "apply_audit_event_retention f now tenant policy_id run_id ids cutoff =
     bind_tx (read_tx (\<lambda>db. query_rows f ''select_expired'' (take 100 (order_by ae_occurred_at
         (filter (\<lambda>a. ae_tenant a = tenant \<and> ae_occurred_at a < cutoff) (audit_events db))))))
       (\<lambda>events. then_tx (retain_events f now tenant policy_id run_id ids (map ae_id events))
          (return_tx (length events)))"

section \<open>The chain invariant\<close>

definition entries_of :: "'a audit_db_scheme \<Rightarrow> string \<Rightarrow> chain_entry list" where
  "entries_of db t = filter (\<lambda>c. ce_tenant c = t) (chain_entries db)"

fun linked :: "(string \<Rightarrow> string) \<Rightarrow> string \<Rightarrow> int \<Rightarrow> chain_entry list \<Rightarrow> bool" where
  "linked sha prev n [] \<longleftrightarrow> True"
| "linked sha prev n (e # es) \<longleftrightarrow>
     ce_sequence e = n \<and> ce_previous e = prev \<and> ce_chain_hash e = chain_hash sha prev (ce_event_hash e)
     \<and> ce_version e = canonicalization_version \<and> linked sha (ce_chain_hash e) (n + 1) es"

definition chain_end :: "string \<Rightarrow> chain_entry list \<Rightarrow> string" where
  "chain_end prev es = (if es = [] then prev else ce_chain_hash (last es))"

definition entry_backed :: "(string \<Rightarrow> string) \<Rightarrow> 'a audit_db_scheme \<Rightarrow> chain_entry \<Rightarrow> bool" where
  "entry_backed sha db c \<longleftrightarrow>
     (\<forall>a \<in> set (audit_events db). ae_tenant a = ce_tenant c \<and> ae_id a = ce_event_id c
        \<longrightarrow> event_hash sha a = ce_event_hash c)
     \<and> ((\<exists>a \<in> set (audit_events db). ae_tenant a = ce_tenant c \<and> ae_id a = ce_event_id c)
        \<or> ce_state c = ''retained'')"

definition chain_core :: "(string \<Rightarrow> string) \<Rightarrow> 'a audit_db_scheme \<Rightarrow> bool" where
  "chain_core sha db \<longleftrightarrow> (\<forall>t. linked sha [] 1 (entries_of db t))
     \<and> (\<forall>c \<in> set (chain_entries db). entry_backed sha db c)
     \<and> distinct (map (\<lambda>c. (ce_tenant c, ce_event_id c)) (chain_entries db))
     \<and> distinct (map ae_id (audit_events db))"

definition head_ok :: "'a audit_db_scheme \<Rightarrow> chain_head \<Rightarrow> bool" where
  "head_ok db h \<longleftrightarrow> ch_sequence h = int (length (entries_of db (ch_tenant h)))
     \<and> ch_chain_hash h = chain_end [] (entries_of db (ch_tenant h))"

definition heads_cover :: "'a audit_db_scheme \<Rightarrow> bool" where
  "heads_cover db \<longleftrightarrow> distinct (map ch_tenant (chain_heads db))
     \<and> (\<forall>c \<in> set (chain_entries db). ce_tenant c \<in> ch_tenant ` set (chain_heads db))"

definition audit_inv :: "(string \<Rightarrow> string) \<Rightarrow> 'a audit_db_scheme \<Rightarrow> bool" where
  "audit_inv sha db \<longleftrightarrow> chain_core sha db \<and> heads_cover db \<and> (\<forall>h \<in> set (chain_heads db). head_ok db h)"

text \<open>The next identifier is new to the tenant's chain, and its sequence has not run out.\<close>

definition fresh_event :: "'a audit_db_scheme \<Rightarrow> string \<Rightarrow> string \<Rightarrow> bool" where
  "fresh_event db t eid \<longleftrightarrow> \<not> (\<exists>c \<in> set (chain_entries db). ce_tenant c = t \<and> ce_event_id c = eid)"

definition chain_room :: "'a audit_db_scheme \<Rightarrow> string \<Rightarrow> nat \<Rightarrow> bool" where
  "chain_room db t k \<longleftrightarrow> int (length (entries_of db t)) + int k \<le> max_int64"

lemma linked_append:
  "linked sha prev n (es @ fs) \<longleftrightarrow>
   linked sha prev n es \<and> linked sha (chain_end prev es) (n + int (length es)) fs"
proof (induction es arbitrary: prev n)
  case Nil
  then show ?case by (simp add: chain_end_def)
next
  case (Cons e es)
  have "chain_end (ce_chain_hash e) es = chain_end prev (e # es)" by (simp add: chain_end_def)
  then show ?case by (auto simp: Cons.IH algebra_simps)
qed

lemma chain_end_snoc [simp]: "chain_end prev (es @ [e]) = ce_chain_hash e"
  by (simp add: chain_end_def)

lemma entries_of_update [simp]:
  "entries_of (chain_heads_update g db) t = entries_of db t"
  "entries_of (audit_events_update g' db) t = entries_of db t"
  "entries_of (worker_leases_update g'' db) t = entries_of db t"
  by (simp_all add: entries_of_def)

lemma entries_of_append [simp]:
  "entries_of (db\<lparr>chain_entries := chain_entries db @ [e]\<rparr>) t =
   entries_of db t @ (if ce_tenant e = t then [e] else [])"
  by (simp add: entries_of_def)

lemma compute_entry_sel [simp]:
  "ce_tenant (compute_entry sha i a n p src now) = ae_tenant a"
  "ce_event_id (compute_entry sha i a n p src now) = ae_id a"
  "ce_id (compute_entry sha i a n p src now) = i"
  "ce_sequence (compute_entry sha i a n p src now) = n"
  "ce_event_hash (compute_entry sha i a n p src now) = event_hash sha a"
  by (simp_all add: compute_entry_def Let_def)

text \<open>Appending the computed entry of an unchained event keeps the core.\<close>

lemma chain_core_append:
  fixes db :: "'a audit_db_scheme"
  assumes core: "chain_core sha db" and a: "a \<in> set (audit_events db)" and un: "unchained db a"
    and prev: "prev = chain_end [] (entries_of db (ae_tenant a))"
    and n: "n = int (length (entries_of db (ae_tenant a))) + 1"
    and e: "e = compute_entry sha i a n prev src now"
  shows "chain_core sha (db\<lparr>chain_entries := chain_entries db @ [e]\<rparr>)"
proof -
  let ?db = "db\<lparr>chain_entries := chain_entries db @ [e]\<rparr>"
  have p: "previous_hash_for_sequence n prev = prev"
    using prev n by (auto simp: previous_hash_for_sequence_def chain_end_def)
  have lk: "linked sha prev n [e]"
    using p by (simp add: e compute_entry_def Let_def)
  have "linked sha [] 1 (entries_of ?db t)" for t
    using core lk unfolding chain_core_def
    by (auto simp: e linked_append prev n algebra_simps)
  moreover have "entry_backed sha ?db c" if "c \<in> set (chain_entries ?db)" for c
  proof (cases "c = e")
    case True
    have inj: "b = a" if "b \<in> set (audit_events db)" "ae_id b = ae_id a" for b
      using core a that unfolding chain_core_def distinct_map by (auto dest: inj_onD)
    show ?thesis using True a inj by (auto simp: entry_backed_def e)
  next
    case False
    then show ?thesis using that core by (simp add: chain_core_def entry_backed_def)
  qed
  moreover have "distinct (map (\<lambda>c. (ce_tenant c, ce_event_id c)) (chain_entries ?db))"
    using core un by (auto simp: chain_core_def unchained_def e image_iff)
  ultimately show ?thesis using core by (simp add: chain_core_def)
qed

section \<open>Appending one event\<close>

lemma insert_audit_event_Inr:
  "insert_audit_event f e db = Inr (db', u) \<longleftrightarrow> f ''insert_audit_event'' = None
     \<and> ae_id e \<notin> ae_id ` set (audit_events db) \<and> db' = db\<lparr>audit_events := audit_events db @ [e]\<rparr>"
  by (auto simp: insert_audit_event_def)

lemma insert_audit_event_inv:
  assumes "audit_inv sha db" and "insert_audit_event f e db = Inr (db', u)"
    and "fresh_event db (ae_tenant e) (ae_id e)"
  shows "audit_inv sha db' \<and> e \<in> set (audit_events db') \<and> unchained db' e"
  using assms
  by (auto simp: insert_audit_event_Inr audit_inv_def chain_core_def heads_cover_def head_ok_def
      entry_backed_def fresh_event_def unchained_def)

definition head_row :: "'a audit_db_scheme \<Rightarrow> string \<Rightarrow> chain_head" where
  "head_row db t = hd (filter (\<lambda>h. ch_tenant h = t) (chain_heads db))"

lemma ensure_head_Inr:
  assumes "audit_inv sha db" and "ensure_audit_chain_head f now t db = Inr (db', seq, prev)"
  shows "audit_inv sha db' \<and> t \<in> ch_tenant ` set (chain_heads db')
    \<and> seq = int (length (entries_of db t)) \<and> prev = chain_end [] (entries_of db t)
    \<and> chain_entries db' = chain_entries db \<and> audit_events db' = audit_events db
    \<and> (\<forall>t'. entries_of db' t' = entries_of db t')"
proof -
  let ?h0 = "\<lparr> ch_tenant = t, ch_sequence = 0, ch_chain_hash = [], ch_last_event = [], ch_updated_at = now \<rparr>"
  let ?db = "if t \<in> ch_tenant ` set (chain_heads db) then db else db\<lparr>chain_heads := chain_heads db @ [?h0]\<rparr>"
  obtain h where db': "db' = ?db"
    and q: "query_row f ''select_head'' (filter (\<lambda>h. ch_tenant h = t) (chain_heads db')) = Inr h"
    and sp: "seq = ch_sequence h" "prev = ch_chain_hash h"
    using assms(2) by (auto simp: ensure_audit_chain_head_def)
  from query_row_in [OF q] have h: "h \<in> set (chain_heads db')" "ch_tenant h = t" by simp_all
  have none: "entries_of db t = []" if "t \<notin> ch_tenant ` set (chain_heads db)"
    using assms(1) that by (auto simp: audit_inv_def heads_cover_def entries_of_def filter_empty_conv)
  have inv: "audit_inv sha db'"
    using assms(1) none unfolding db'
    by (auto simp: audit_inv_def chain_core_def heads_cover_def head_ok_def entry_backed_def chain_end_def)
  moreover have "chain_entries db' = chain_entries db" "audit_events db' = audit_events db"
    using db' by auto
  moreover have "entries_of db' t' = entries_of db t'" for t'
    using db' by auto
  moreover have "head_ok db' h" using inv h(1) by (simp add: audit_inv_def)
  ultimately show ?thesis using h sp by (auto simp: head_ok_def)
qed

lemma insert_entry_Inr:
  assumes "insert_audit_chain_entry f e db = Inr (db', u)" and "fresh_event db (ce_tenant e) (ce_event_id e)"
  shows "db' = db\<lparr>chain_entries := chain_entries db @ [e]\<rparr>"
  using assms by (auto simp: insert_audit_chain_entry_def fresh_event_def split: if_splits)

lemma heads_update_where:
  "ch_tenant ` set (update_where (\<lambda>h. ch_tenant h = t) (\<lambda>h. h\<lparr>ch_sequence := n, ch_chain_hash := p,
     ch_last_event := l, ch_updated_at := now\<rparr>) hs) = ch_tenant ` set hs"
  "map ch_tenant (update_where (\<lambda>h. ch_tenant h = t) (\<lambda>h. h\<lparr>ch_sequence := n, ch_chain_hash := p,
     ch_last_event := l, ch_updated_at := now\<rparr>) hs) = map ch_tenant hs"
  by (induction hs) auto

text \<open>Between the insertion of entries and the update of the head, only that head lags behind.\<close>

definition lagging_inv :: "(string \<Rightarrow> string) \<Rightarrow> 'a audit_db_scheme \<Rightarrow> string \<Rightarrow> bool" where
  "lagging_inv sha db t \<longleftrightarrow> chain_core sha db \<and> heads_cover db \<and> t \<in> ch_tenant ` set (chain_heads db)
     \<and> (\<forall>h \<in> set (chain_heads db). ch_tenant h \<noteq> t \<longrightarrow> head_ok db h)"

lemma update_head_restores:
  assumes "lagging_inv sha db t" and "update_head f now t seq prev l db = Inr (db', u)"
    and "seq = int (length (entries_of db t))" "prev = chain_end [] (entries_of db t)"
  shows "audit_inv sha db'"
proof -
  let ?g = "\<lambda>h. h\<lparr>ch_sequence := seq, ch_chain_hash := prev, ch_last_event := l, ch_updated_at := now\<rparr>"
  have db': "db' = db\<lparr>chain_heads := update_where (\<lambda>h. ch_tenant h = t) ?g (chain_heads db)\<rparr>"
    using assms(2) by (simp add: update_head_def)
  have "head_ok db' h" if "h \<in> set (chain_heads db')" for h
    using assms(1,3,4) that unfolding db' lagging_inv_def head_ok_def set_update_where
    by (auto simp: set_update_where split: if_splits)
  moreover have "heads_cover db'"
    using assms(1) unfolding db' lagging_inv_def heads_cover_def by (simp add: heads_update_where)
  moreover have "chain_core sha db'"
    using assms(1) unfolding db' lagging_inv_def chain_core_def entry_backed_def by simp
  ultimately show ?thesis by (simp add: audit_inv_def)
qed

lemma lagging_append:
  fixes db :: "'a audit_db_scheme"
  assumes "lagging_inv sha db t" and "a \<in> set (audit_events db)" "unchained db a" "ae_tenant a = t"
    and "prev = chain_end [] (entries_of db t)" "n = int (length (entries_of db t)) + 1"
    and "e = compute_entry sha i a n prev src now"
  shows "lagging_inv sha (db\<lparr>chain_entries := chain_entries db @ [e]\<rparr>) t"
proof -
  have "chain_core sha (db\<lparr>chain_entries := chain_entries db @ [e]\<rparr>)"
    by (rule chain_core_append [OF _ assms(2,3) _ _ assms(7)]) (use assms in \<open>simp_all add: lagging_inv_def\<close>)
  then show ?thesis using assms
    by (auto simp: lagging_inv_def heads_cover_def head_ok_def)
qed

lemma audit_inv_lagging: "audit_inv sha db \<Longrightarrow> t \<in> ch_tenant ` set (chain_heads db) \<Longrightarrow> lagging_inv sha db t"
  by (simp add: audit_inv_def lagging_inv_def)

lemma wrap64_next: "0 \<le> n \<Longrightarrow> n < max_int64 \<Longrightarrow> wrap64 (n + 1) = n + 1"
  by (simp add: in_int64_def)

definition input_event :: "gotime \<Rightarrow> string \<Rightarrow> audit_input \<Rightarrow> audit_event" where
  "input_event now eid inp = \<lparr> ae_id = eid, ae_tenant = ai_tenant inp, ae_actor = ai_actor inp,
     ae_action = ai_action inp, ae_resource = ai_resource inp, ae_resource_id = ai_resource_id inp,
     ae_reason = ai_reason inp,
     ae_occurred_at = truncate_micro (if ai_occurred_at inp = 0 then now else ai_occurred_at inp) \<rparr>"

lemma record_audit_event_tx_correct:
  fixes db :: "'a audit_db_scheme"
  assumes run: "record_audit_event_tx sha f now eid cid inp db = Inr (db', ev)"
    and inv: "audit_inv sha db" and fresh: "fresh_event db (ai_tenant inp) eid"
    and room: "chain_room db (ai_tenant inp) 1"
  shows "audit_inv sha db' \<and> ev = input_event now eid inp
    \<and> audit_events db' = audit_events db @ [ev]
    \<and> (\<exists>c. chain_entries db' = chain_entries db @ [c] \<and> ce_tenant c = ai_tenant inp \<and> ce_event_id c = eid
         \<and> ce_event_hash c = event_hash sha ev)"
proof -
  let ?e = "input_event now eid inp" and ?t = "ai_tenant inp"
  define src where "src = (if ai_source inp = [] then ''live'' else ai_source inp)"
  obtain db1 db2 db3 seq prev c where
    1: "insert_audit_event f ?e db = Inr (db1, ())" and
    2: "ensure_audit_chain_head f now ?t db1 = Inr (db2, seq, prev)" and
    c: "c = compute_entry sha cid ?e (wrap64 (seq + 1)) prev src (ae_occurred_at ?e)" and
    3: "insert_audit_chain_entry f c db2 = Inr (db3, ())" and
    4: "update_head f now ?t (ce_sequence c) (ce_chain_hash c) eid db3 = Inr (db', ())" and ev: "ev = ?e"
    using run unfolding record_audit_event_tx_def Let_def src_def by (auto simp: input_event_def)
  have e: "ae_tenant ?e = ?t" "ae_id ?e = eid" by (simp_all add: input_event_def)
  note i1 = insert_audit_event_inv [OF inv 1, unfolded e, OF fresh]
  have db1: "db1 = db\<lparr>audit_events := audit_events db @ [?e]\<rparr>" using 1 by (simp add: insert_audit_event_Inr)
  note h = ensure_head_Inr [OF conjunct1 [OF i1] 2]
  have un: "unchained db2 ?e" "?e \<in> set (audit_events db2)" using i1 h by (simp_all add: unchained_def)
  have seq: "seq = int (length (entries_of db2 ?t))" "prev = chain_end [] (entries_of db2 ?t)"
    using h by simp_all
  have "entries_of db2 ?t = entries_of db ?t" using h db1 by simp
  then have w: "wrap64 (seq + 1) = int (length (entries_of db2 ?t)) + 1"
    using room seq by (subst wrap64_next) (simp_all add: chain_room_def)
  have "fresh_event db2 (ce_tenant c) (ce_event_id c)"
    using un by (simp add: fresh_event_def unchained_def e c)
  then have db3: "db3 = db2\<lparr>chain_entries := chain_entries db2 @ [c]\<rparr>" by (rule insert_entry_Inr [OF 3])
  have lag: "lagging_inv sha db3 ?t"
    unfolding db3 by (rule lagging_append [OF _ un(2,1) e(1) seq(2) w c])
      (use h audit_inv_lagging in blast)
  have "audit_inv sha db'"
    by (rule update_head_restores [OF lag 4]) (simp_all add: db3 e w c)
  moreover have "audit_events db' = audit_events db @ [?e]" "chain_entries db' = chain_entries db @ [c]"
    using 4 h db1 by (simp_all add: update_head_def db3)
  ultimately show ?thesis using ev by (auto simp: e c)
qed

section \<open>Backfill\<close>

lemma unchained_append:
  "unchained (db\<lparr>chain_entries := chain_entries db @ [e]\<rparr>) a \<longleftrightarrow>
   unchained db a \<and> \<not> (ce_tenant e = ae_tenant a \<and> ce_event_id e = ae_id a)"
  by (auto simp: unchained_def)

lemma backfill_loop_correct:
  fixes db :: "'a audit_db_scheme"
  assumes "backfill_loop sha f now ids es seq prev l n db = Inr (db', seq', prev', l', n')"
    and "lagging_inv sha db t"
    and "\<And>a. a \<in> set es \<Longrightarrow> a \<in> set (audit_events db) \<and> unchained db a \<and> ae_tenant a = t"
    and "distinct (map ae_id es)"
    and "seq = int (length (entries_of db t))" "prev = chain_end [] (entries_of db t)"
    and "chain_room db t (length es)"
  shows "lagging_inv sha db' t \<and> seq' = int (length (entries_of db' t))
    \<and> prev' = chain_end [] (entries_of db' t) \<and> n' = n + length es
    \<and> l' = (if es = [] then l else ae_id (last es))
    \<and> audit_events db' = audit_events db \<and> chain_heads db' = chain_heads db
    \<and> length (entries_of db' t) = length (entries_of db t) + length es
    \<and> (\<forall>t'. t' \<noteq> t \<longrightarrow> entries_of db' t' = entries_of db t')
    \<and> (\<forall>a. unchained db' a \<longleftrightarrow> unchained db a \<and> \<not> (ae_tenant a = t \<and> ae_id a \<in> ae_id ` set es))"
  using assms
proof (induction es arbitrary: db seq prev l n)
  case Nil
  then show ?case by simp
next
  case (Cons a es)
  define c where "c = compute_entry sha (ids n) a (wrap64 (seq + 1)) prev ''backfill'' now"
  from Cons.prems(1) obtain db1 where
    1: "insert_audit_chain_entry f c db = Inr (db1, ())" and
    2: "backfill_loop sha f now ids es (wrap64 (seq + 1)) (ce_chain_hash c) (ae_id a) (Suc n) db1
       = Inr (db', seq', prev', l', n')"
    by (auto simp: Let_def c_def)
  have a: "a \<in> set (audit_events db)" "unchained db a" "ae_tenant a = t" using Cons.prems(3) by simp_all
  have c: "ce_tenant c = t" "ce_event_id c = ae_id a"
    by (simp_all add: c_def a)
  have "fresh_event db (ce_tenant c) (ce_event_id c)"
    using a by (simp add: fresh_event_def unchained_def c)
  then have db1: "db1 = db\<lparr>chain_entries := chain_entries db @ [c]\<rparr>" by (rule insert_entry_Inr [OF 1])
  have w: "wrap64 (seq + 1) = int (length (entries_of db t)) + 1"
    using Cons.prems(5,7) by (subst wrap64_next) (simp_all add: chain_room_def)
  have "lagging_inv sha db1 t"
    unfolding db1 by (rule lagging_append [OF Cons.prems(2) a Cons.prems(6) w c_def])
  moreover have "b \<in> set (audit_events db1) \<and> unchained db1 b \<and> ae_tenant b = t" if "b \<in> set es" for b
    using Cons.prems(3) [of b] Cons.prems(4) that
    unfolding db1 unchained_append by (auto simp: c)
  ultimately have IH: "lagging_inv sha db' t \<and> seq' = int (length (entries_of db' t))
    \<and> prev' = chain_end [] (entries_of db' t) \<and> n' = Suc n + length es
    \<and> l' = (if es = [] then ae_id a else ae_id (last es))
    \<and> audit_events db' = audit_events db1 \<and> chain_heads db' = chain_heads db1
    \<and> length (entries_of db' t) = length (entries_of db1 t) + length es
    \<and> (\<forall>t'. t' \<noteq> t \<longrightarrow> entries_of db' t' = entries_of db1 t')
    \<and> (\<forall>a. unchained db' a \<longleftrightarrow> unchained db1 a \<and> \<not> (ae_tenant a = t \<and> ae_id a \<in> ae_id ` set es))"
  proof (rule Cons.IH [OF 2])
    show "distinct (map ae_id es)" using Cons.prems(4) by simp
    show "wrap64 (seq + 1) = int (length (entries_of db1 t))" by (simp add: db1 c w)
    show "ce_chain_hash c = chain_end [] (entries_of db1 t)" by (simp add: db1 c)
    show "chain_room db1 t (length es)" using Cons.prems(7) by (simp add: chain_room_def db1 c)
  qed simp_all
  have db1_sel: "audit_events db1 = audit_events db" "chain_heads db1 = chain_heads db"
    "length (entries_of db1 t) = length (entries_of db t) + 1"
    "\<And>t'. t' \<noteq> t \<Longrightarrow> entries_of db1 t' = entries_of db t'"
    by (simp_all add: db1 c)
  have "unchained db' x \<longleftrightarrow> unchained db x \<and> \<not> (ae_tenant x = t \<and> ae_id x \<in> ae_id ` set (a # es))" for x
  proof -
    have "unchained db1 x \<longleftrightarrow> unchained db x \<and> \<not> (t = ae_tenant x \<and> ae_id a = ae_id x)"
      unfolding db1 unchained_append c by (rule refl)
    with IH show ?thesis by auto
  qed
  with IH show ?case by (simp add: db1_sel)
qed

lemma backfill_tenant_correct:
  fixes db :: "'a audit_db_scheme"
  assumes run: "backfill_tenant_audit_chain sha f now ids t lim db = Inr (db', n)"
    and inv: "audit_inv sha db" and room: "chain_room db t lim"
    and ids: "\<And>a. a \<in> set (audit_events db) \<Longrightarrow> ae_id a \<noteq> []"
  defines "todo \<equiv> filter (\<lambda>a. ae_tenant a = t \<and> unchained db a) (audit_events db)"
  shows "audit_inv sha db' \<and> n = min lim (length todo) \<and> audit_events db' = audit_events db
    \<and> length (filter (unchained db) (audit_events db)) = length (filter (unchained db') (audit_events db)) + n
    \<and> (\<forall>t'. length (entries_of db' t') = length (entries_of db t') + (if t' = t then n else 0))"
proof -
  define es where "es = take lim (order_by (\<lambda>a. (ae_occurred_at a, ae_id a)) todo)"
  obtain db1 seq prev db2 seq' prev' l' where
    1: "ensure_audit_chain_head f now t db = Inr (db1, seq, prev)" and
    2: "backfill_loop sha f now ids
         (take lim (order_by (\<lambda>a. (ae_occurred_at a, ae_id a))
            (filter (\<lambda>a. ae_tenant a = t \<and> unchained db1 a) (audit_events db1)))) seq prev [] 0 db1
       = Inr (db2, seq', prev', l', n)" and
    3: "(if l' \<noteq> [] then update_head f now t seq' prev' l' else return_tx ()) db2 = Inr (db', ())"
    using run unfolding backfill_tenant_audit_chain_def by auto
  note h = ensure_head_Inr [OF inv 1]
  have un: "unchained db1 a = unchained db a" for a using h by (simp add: unchained_def)
  have es2: "backfill_loop sha f now ids es seq prev [] 0 db1 = Inr (db2, seq', prev', l', n)"
    using 2 h by (simp add: un es_def todo_def)
  have es_in: "a \<in> set (audit_events db) \<and> unchained db a \<and> ae_tenant a = t" if "a \<in> set es" for a
    using in_set_takeD [OF that [unfolded es_def]] by (simp add: todo_def)
  have dist: "distinct (map ae_id (audit_events db))" using inv by (simp add: audit_inv_def chain_core_def)
  then have "distinct todo" "inj_on ae_id (set (audit_events db))"
    by (simp_all add: todo_def distinct_map)
  moreover have "distinct (order_by (\<lambda>a. (ae_occurred_at a, ae_id a)) todo)"
    using \<open>distinct todo\<close> by (simp add: order_by_def)
  ultimately have des: "distinct (map ae_id es)" "distinct es"
    using es_in by (auto simp: es_def distinct_map intro!: inj_on_subset [of ae_id "set (audit_events db)"])
  have len: "length es = min lim (length todo)" by (simp add: es_def)
  have L: "lagging_inv sha db2 t \<and> seq' = int (length (entries_of db2 t))
    \<and> prev' = chain_end [] (entries_of db2 t) \<and> n = 0 + length es
    \<and> l' = (if es = [] then [] else ae_id (last es))
    \<and> audit_events db2 = audit_events db1 \<and> chain_heads db2 = chain_heads db1
    \<and> length (entries_of db2 t) = length (entries_of db1 t) + length es
    \<and> (\<forall>t'. t' \<noteq> t \<longrightarrow> entries_of db2 t' = entries_of db1 t')
    \<and> (\<forall>a. unchained db2 a \<longleftrightarrow> unchained db1 a \<and> \<not> (ae_tenant a = t \<and> ae_id a \<in> ae_id ` set es))"
  proof (rule backfill_loop_correct [OF es2 _ _ des(1)])
    show "lagging_inv sha db1 t" using h by (blast intro: audit_inv_lagging)
    show "a \<in> set (audit_events db1) \<and> unchained db1 a \<and> ae_tenant a = t" if "a \<in> set es" for a
      using es_in [OF that] h by (simp add: un)
    show "chain_room db1 t (length es)" using room len h by (simp add: chain_room_def)
  qed (use h in simp_all)
  have l': "l' = [] \<longleftrightarrow> es = []" using L es_in ids by (cases es rule: rev_cases) auto
  have inv': "audit_inv sha db'"
  proof (cases "es = []")
    case True
    then have "db2 = db1" using es2 by simp
    then show ?thesis using 3 True l' h by simp
  next
    case False
    then show ?thesis using 3 l' L by (auto intro: update_head_restores)
  qed
  have db': "audit_events db' = audit_events db" "chain_entries db' = chain_entries db2"
    using 3 L h by (auto simp: update_head_def split: if_splits)
  have "unchained db' a \<longleftrightarrow> unchained db a \<and> a \<notin> set es" if "a \<in> set (audit_events db)" for a
  proof -
    have "unchained db' a = unchained db2 a" by (simp add: unchained_def db')
    moreover have "ae_tenant a = t \<and> ae_id a \<in> ae_id ` set es \<longleftrightarrow> a \<in> set es"
      using es_in that \<open>inj_on ae_id (set (audit_events db))\<close> by (auto dest: inj_onD)
    ultimately show ?thesis using L un by simp
  qed
  then have "filter (unchained db') (audit_events db) = filter (\<lambda>a. a \<notin> set es) (filter (unchained db) (audit_events db))"
    by (auto intro!: filter_cong)
  moreover have "length (filter (\<lambda>a. a \<in> set es) (filter (unchained db) (audit_events db))) = length es"
  proof -
    have "distinct (audit_events db)" using dist by (simp add: distinct_map)
    moreover have "set (filter (\<lambda>a. a \<in> set es) (filter (unchained db) (audit_events db))) = set es"
      using es_in by auto
    ultimately show ?thesis using des(2) by (metis distinct_card distinct_filter)
  qed
  ultimately have cnt: "length (filter (unchained db) (audit_events db))
      = length (filter (unchained db') (audit_events db)) + length es"
    using sum_length_filter_compl [of "\<lambda>a. a \<in> set es" "filter (unchained db) (audit_events db)"] by simp
  have eo: "entries_of db' t' = entries_of db2 t'" for t' by (simp add: entries_of_def db')
  have "length (entries_of db' t') = length (entries_of db t') + (if t' = t then n else 0)" for t'
    using L h by (cases "t' = t") (simp_all add: eo)
  then show ?thesis using inv' db' cnt len L by simp
qed

definition pending :: "'a audit_db_scheme \<Rightarrow> nat" where
  "pending db = length (filter (unchained db) (audit_events db))"

definition ids_named :: "'a audit_db_scheme \<Rightarrow> bool" where
  "ids_named db \<longleftrightarrow> (\<forall>a \<in> set (audit_events db). ae_id a \<noteq> [])"

lemma backfill_tenants_correct:
  fixes db :: "'a audit_db_scheme"
  assumes "backfill_tenants sha f now ids ts remaining res db = Inr (db', res')"
    and "audit_inv sha db" and "ids_named db" and "\<And>t. chain_room db t remaining"
  shows "audit_inv sha db' \<and> audit_events db' = audit_events db
    \<and> pending db + bf_events_backfilled res = pending db' + bf_events_backfilled res'
    \<and> bf_events_backfilled res' \<le> bf_events_backfilled res + remaining
    \<and> bf_events_backfilled res \<le> bf_events_backfilled res'
    \<and> bf_lease_acquired res' = bf_lease_acquired res"
  using assms
proof (induction ts arbitrary: db remaining res)
  case Nil
  then show ?case by simp
next
  case (Cons t ts)
  show ?case
  proof (cases "remaining = 0")
    case True
    with Cons.prems show ?thesis by simp
  next
    case False
    let ?res = "\<lambda>n. res\<lparr>bf_tenants_scanned := bf_tenants_scanned res + 1,
      bf_events_backfilled := bf_events_backfilled res + n\<rparr>"
    obtain db1 n where
      1: "backfill_tenant_audit_chain sha f now (ids t) t remaining db = Inr (db1, n)" and
      2: "backfill_tenants sha f now ids ts (remaining - n) (?res n) db1 = Inr (db', res')"
      using Cons.prems(1) False by auto
    note B = backfill_tenant_correct [OF 1 Cons.prems(2,4) bspec [OF Cons.prems(3) [unfolded ids_named_def]]]
    have le: "n \<le> remaining" using B by simp
    have "audit_inv sha db' \<and> audit_events db' = audit_events db1
      \<and> pending db1 + bf_events_backfilled (?res n) = pending db' + bf_events_backfilled res'
      \<and> bf_events_backfilled res' \<le> bf_events_backfilled (?res n) + (remaining - n)
      \<and> bf_events_backfilled (?res n) \<le> bf_events_backfilled res'
      \<and> bf_lease_acquired res' = bf_lease_acquired (?res n)"
    proof (rule Cons.IH [OF 2])
      show "ids_named db1" using B Cons.prems(3) by (simp add: ids_named_def)
      show "chain_room db1 t' (remaining - n)" for t'
      proof -
        have "length (entries_of db1 t') \<le> length (entries_of db t') + n" using B by simp
        then show ?thesis using Cons.prems(4) [of t'] le by (simp add: chain_room_def)
      qed
    qed (use B in simp)
    moreover have "pending db = pending db1 + n" using B by (simp add: pending_def)
    ultimately show ?thesis using B le by simp
  qed
qed

lemma audit_inv_lease [simp]: "audit_inv sha (db\<lparr>worker_leases := ls\<rparr>) = audit_inv sha db"
  by (simp add: audit_inv_def chain_core_def heads_cover_def head_ok_def entry_backed_def entries_of_def)

lemma try_lease_Inr:
  assumes "try_acquire_worker_lease f now lid wid ttl db = Inr (db', b)"
  shows "\<exists>ls. db' = db\<lparr>worker_leases := ls\<rparr>"
  using assms by (auto simp: try_acquire_worker_lease_def Let_def split: if_splits)

lemma unchained_lease [simp]: "unchained (db\<lparr>worker_leases := ls\<rparr>) = unchained db"
  by (rule ext) (simp add: unchained_def)

lemma backfill_limit_bounds: "1 \<le> backfill_limit lim" "backfill_limit lim \<le> 1000"
  by (auto simp: backfill_limit_def Let_def)

lemma unchained_tenants_Nil:
  assumes "unchained_tenants db n = []" and "1 \<le> n"
  shows "pending db = 0"
  using assms by (auto simp: unchained_tenants_def Let_def pending_def filter_empty_conv)

lemma unchained_tenants_member:
  "t \<in> set (unchained_tenants db n) \<Longrightarrow> filter (\<lambda>a. ae_tenant a = t \<and> unchained db a) (audit_events db) \<noteq> []"
  by (auto simp: unchained_tenants_def Let_def filter_empty_conv dest!: in_set_takeD)

lemma backfill_tenants_progress:
  fixes db :: "'a audit_db_scheme"
  assumes "backfill_tenants sha f now ids (t # ts) remaining res db = Inr (db', res')"
    and "audit_inv sha db" "ids_named db" "\<And>t. chain_room db t remaining"
    and "0 < remaining" "filter (\<lambda>a. ae_tenant a = t \<and> unchained db a) (audit_events db) \<noteq> []"
  shows "bf_events_backfilled res < bf_events_backfilled res'"
proof -
  let ?res = "\<lambda>n. res\<lparr>bf_tenants_scanned := bf_tenants_scanned res + 1,
    bf_events_backfilled := bf_events_backfilled res + n\<rparr>"
  obtain db1 n where
    1: "backfill_tenant_audit_chain sha f now (ids t) t remaining db = Inr (db1, n)" and
    2: "backfill_tenants sha f now ids ts (remaining - n) (?res n) db1 = Inr (db', res')"
    using assms(1,5) by auto
  note B = backfill_tenant_correct [OF 1 assms(2,4) bspec [OF assms(3) [unfolded ids_named_def]]]
  have n: "0 < n" "n \<le> remaining" using B assms(5,6) by simp_all
  have "ids_named db1" using B assms(3) by (simp add: ids_named_def)
  moreover have "chain_room db1 t' (remaining - n)" for t'
  proof -
    have "length (entries_of db1 t') \<le> length (entries_of db t') + n" using B by simp
    then show ?thesis using assms(4) [of t'] n by (simp add: chain_room_def)
  qed
  ultimately have "bf_events_backfilled (?res n) \<le> bf_events_backfilled res'"
    using backfill_tenants_correct [OF 2] B by blast
  with n show ?thesis by simp
qed

section \<open>Retention\<close>

lemma linked_retain:
  "linked sha p n (map (\<lambda>c. if q c then c\<lparr>ce_state := s, ce_deleted_at := d, ce_tombstone := r\<rparr> else c) es)
   = linked sha p n es"
  by (induction es arbitrary: p n) auto

lemma retain_event_inv: "tx_preserves (audit_inv sha) (retain_event f now t pid rid iid eid)"
proof (rule tx_preservesI)
  fix db db' :: "'a audit_db_scheme" and u :: unit
  assume inv: "audit_inv sha db" and run: "retain_event f now t pid rid iid eid db = Inr (db', u)"
  define q :: "chain_entry \<Rightarrow> bool" where "q = (\<lambda>c. ce_tenant c = t \<and> ce_event_id c = eid \<and> ce_state c \<noteq> ''retained'')"
  define g :: "chain_entry \<Rightarrow> chain_entry" where "g = (\<lambda>c. if q c then c\<lparr>ce_state := ''retained'', ce_deleted_at := Some now,
      ce_tombstone := ''retention_policy:'' @ pid\<rparr> else c)"
  have g: "ce_tenant (g c) = ce_tenant c" "ce_event_id (g c) = ce_event_id c" "ce_chain_hash (g c) = ce_chain_hash c"
    "ce_event_hash (g c) = ce_event_hash c" for c by (simp_all add: g_def)
  have sel: "chain_entries db' = map g (chain_entries db)" "chain_heads db' = chain_heads db"
    "audit_events db' = filter (\<lambda>a. \<not> (ae_tenant a = t \<and> ae_id a = eid)) (audit_events db)"
    using run by (auto simp: retain_event_def update_where_def g_def q_def)
  have eo: "entries_of db' t' = map g (entries_of db t')" for t'
    by (simp add: entries_of_def sel filter_map comp_def g)
  have "linked sha [] 1 (entries_of db' t')" for t'
    using inv linked_retain [of sha "[]" 1 q] unfolding eo g_def by (simp add: audit_inv_def chain_core_def)
  moreover have "entry_backed sha db' (g c)" if "c \<in> set (chain_entries db)" for c
  proof -
    have "entry_backed sha db c" using inv that by (simp add: audit_inv_def chain_core_def)
    then show ?thesis unfolding entry_backed_def g sel
      by (cases "ce_tenant c = t \<and> ce_event_id c = eid") (auto simp: g_def q_def)
  qed
  moreover have "distinct (map (\<lambda>c. (ce_tenant c, ce_event_id c)) (chain_entries db'))"
    using inv by (simp add: audit_inv_def chain_core_def sel comp_def g)
  moreover have "distinct (map ae_id (audit_events db'))"
    using inv by (simp add: audit_inv_def chain_core_def sel distinct_map inj_on_def)
  moreover have "chain_end [] (entries_of db' t') = chain_end [] (entries_of db t')" for t'
    by (simp add: eo chain_end_def last_map g)
  ultimately show "audit_inv sha db'" using inv
    by (auto simp: audit_inv_def chain_core_def heads_cover_def head_ok_def sel g eo)
qed

lemma retain_events_inv: "tx_preserves (audit_inv sha) (retain_events f now t pid rid ids es)"
  by (induction es) (auto intro: tx_intros retain_event_inv)

lemma retention_inv: "tx_preserves (audit_inv sha) (apply_audit_event_retention f now t pid rid ids cutoff)"
  unfolding apply_audit_event_retention_def by (intro tx_intros retain_events_inv)

section \<open>Runs of the audit log\<close>

text \<open>
  What the store does to the audit tables, with any statements failing: record an event under a
  new identifier, backfill, apply retention.
\<close>

inductive audit_step :: "(string \<Rightarrow> string) \<Rightarrow> 'a audit_db_scheme \<Rightarrow> 'a audit_db_scheme \<Rightarrow> bool"
  for sha :: "string \<Rightarrow> string" where
  step_record: "fresh_event db (ai_tenant inp) eid \<Longrightarrow> eid \<noteq> [] \<Longrightarrow> chain_room db (ai_tenant inp) 1
    \<Longrightarrow> audit_step sha db (fst (record_audit_event sha f now eid cid inp db))"
| step_backfill: "(\<And>t. chain_room db t 1000)
    \<Longrightarrow> audit_step sha db (fst (backfill_audit_chain sha f now ids wid lim db))"
| step_retention: "audit_step sha db (fst (run_tx f (apply_audit_event_retention f now t pid rid ids' cutoff) db))"

definition audit_start :: "'a audit_db_scheme \<Rightarrow> bool" where
  "audit_start db \<longleftrightarrow> audit_events db = [] \<and> chain_entries db = [] \<and> chain_heads db = []"

lemma audit_start_inv: "audit_start db \<Longrightarrow> audit_inv sha db \<and> ids_named db"
  by (simp add: audit_start_def audit_inv_def chain_core_def heads_cover_def entries_of_def ids_named_def)

lemma record_audit_event_inv:
  assumes "audit_inv sha db" "fresh_event db (ai_tenant inp) eid" "chain_room db (ai_tenant inp) 1"
  shows "audit_inv sha (fst (record_audit_event sha f now eid cid inp db))"
  unfolding record_audit_event_def
  by (rule run_tx_rule) (use assms in \<open>auto dest: record_audit_event_tx_correct\<close>)

lemma record_audit_event_ids:
  assumes "ids_named db" "eid \<noteq> []" "audit_inv sha db" "fresh_event db (ai_tenant inp) eid"
    "chain_room db (ai_tenant inp) 1"
  shows "ids_named (fst (record_audit_event sha f now eid cid inp db))"
  unfolding record_audit_event_def
  by (rule run_tx_rule)
    (use assms in \<open>auto dest!: record_audit_event_tx_correct simp: ids_named_def input_event_def\<close>)

lemma backfill_correct:
  fixes db :: "'a audit_db_scheme"
  assumes run: "backfill_audit_chain sha f now ids wid lim db = (db', Inr res)"
    and inv: "audit_inv sha db" "ids_named db" and room: "\<And>t. chain_room db t 1000"
  shows "audit_inv sha db' \<and> audit_events db' = audit_events db
    \<and> pending db = pending db' + bf_events_backfilled res
    \<and> bf_events_backfilled res \<le> backfill_limit lim
    \<and> (bf_lease_acquired res \<longrightarrow> (bf_more res \<longleftrightarrow> 0 < pending db')
         \<and> (0 < pending db \<longrightarrow> 0 < bf_events_backfilled res))"
proof -
  let ?n = "backfill_limit lim"
  let ?none = "\<lparr> bf_lease_acquired = False, bf_tenants_scanned = 0, bf_events_backfilled = 0, bf_more = False \<rparr>"
  obtain db1 acq where
    1: "try_acquire_worker_lease f now ''audit-chain-backfill'' wid ns_minute db = Inr (db1, acq)" and
    2: "(if \<not> acq then return_tx ?none
         else bind_tx (read_tx (\<lambda>db. query_rows f ''select_tenants'' (unchained_tenants db ?n))) (\<lambda>ts.
           bind_tx (backfill_tenants sha f now ids ts ?n (?none\<lparr>bf_lease_acquired := True\<rparr>)) (\<lambda>res.
           bind_tx (read_tx (\<lambda>db. query_row f ''select_more'' [list_ex (unchained db) (audit_events db)]))
             (\<lambda>more. return_tx (res\<lparr>bf_more := more\<rparr>))))) db1 = Inr (db', res)"
    using run by (auto simp: backfill_audit_chain_def Let_def run_tx_ok)
  obtain ls where db1: "db1 = db\<lparr>worker_leases := ls\<rparr>" using try_lease_Inr [OF 1] by blast
  have "chain_room db1 t ?n" for t
  proof -
    have "int (length (entries_of db t)) + int ?n \<le> int (length (entries_of db t)) + int 1000"
      using backfill_limit_bounds(2) [of lim] by simp
    also have "\<dots> \<le> max_int64" using room [of t] unfolding chain_room_def .
    finally show ?thesis by (simp add: chain_room_def db1)
  qed
  with inv have inv1: "audit_inv sha db1" "ids_named db1" "\<And>t. chain_room db1 t ?n" "pending db1 = pending db"
    by (simp_all add: db1 ids_named_def pending_def)
  show ?thesis
  proof (cases acq)
    case False
    with 2 inv1 show ?thesis by (simp add: db1)
  next
    case True
    obtain res' where
      3: "backfill_tenants sha f now ids (unchained_tenants db1 ?n) ?n (?none\<lparr>bf_lease_acquired := True\<rparr>) db1
         = Inr (db', res')" and
      4: "query_row f ''select_more'' [list_ex (unchained db') (audit_events db')] = Inr (bf_more res)" and
      5: "res = res'\<lparr>bf_more := bf_more res\<rparr>"
      using 2 True by auto
    note B = backfill_tenants_correct [OF 3 inv1(1,2,3)]
    have more: "bf_more res \<longleftrightarrow> 0 < pending db'"
      using 4 by (auto simp: query_row_Inr pending_def list_ex_iff filter_empty_conv)
    have "0 < bf_events_backfilled res'" if "0 < pending db"
    proof (cases "unchained_tenants db1 ?n")
      case Nil
      with unchained_tenants_Nil [OF this backfill_limit_bounds(1)] that inv1(4) show ?thesis by simp
    next
      case (Cons t ts)
      have "0 < ?n" using backfill_limit_bounds(1) [of lim] by simp
      from backfill_tenants_progress [OF 3 [unfolded Cons] inv1(1,2,3) this] unchained_tenants_member [of t db1 ?n] Cons
      show ?thesis by simp
    qed
    moreover have "bf_events_backfilled res = bf_events_backfilled res'" using 5 by (metis backfill_result.select_convs(3) backfill_result.surjective backfill_result.update_convs(4))
    ultimately show ?thesis using B more inv1(4) by (simp add: db1)
  qed
qed

lemma retain_events_ids: "tx_preserves ids_named (retain_events f now t pid rid ids es)"
  by (induction es) (auto simp: retain_event_def ids_named_def intro!: tx_intros)

lemma retention_ids: "tx_preserves ids_named (apply_audit_event_retention f now t pid rid ids cutoff)"
  unfolding apply_audit_event_retention_def by (intro tx_intros retain_events_ids)

lemma backfill_step:
  assumes "audit_inv sha db" "ids_named db" "\<And>t. chain_room db t 1000"
  shows "audit_inv sha (fst (backfill_audit_chain sha f now ids wid lim db))
    \<and> ids_named (fst (backfill_audit_chain sha f now ids wid lim db))"
proof (cases "backfill_audit_chain sha f now ids wid lim db")
  case (Pair db' r)
  show ?thesis
  proof (cases r)
    case (Inl e)
    with Pair have "db' = db" by (auto simp: backfill_audit_chain_def Let_def dest: run_tx_error)
    with Pair assms show ?thesis by simp
  next
    case (Inr res)
    with backfill_correct [OF _ assms, of f now ids wid lim db' res] Pair assms(2) show ?thesis
      by (simp add: ids_named_def)
  qed
qed

interpretation audit_log: invariant_system audit_start "audit_step sha" "\<lambda>db. audit_inv sha db \<and> ids_named db"
  for sha
proof unfold_locales
  fix db :: "'a audit_db_scheme"
  show "audit_start db \<Longrightarrow> audit_inv sha db \<and> ids_named db" by (rule audit_start_inv)
next
  fix db db' :: "'a audit_db_scheme"
  assume inv: "audit_inv sha db \<and> ids_named db" and "audit_step sha db db'"
  from this(2) show "audit_inv sha db' \<and> ids_named db'"
  proof cases
    case step_record
    with inv record_audit_event_inv record_audit_event_ids show ?thesis by blast
  next
    case step_backfill
    with inv backfill_step show ?thesis by blast
  next
    case step_retention
    with inv run_tx_preserves [OF retention_inv] run_tx_preserves [OF retention_ids] show ?thesis by blast
  qed
qed

section \<open>Properties\<close>

definition sample_audit_db :: audit_db where
  "sample_audit_db = \<lparr> audit_events = [], chain_entries = [], chain_heads = [], chain_anchors = [],
     worker_leases = [], retention_run_items = [] \<rparr>"

definition sample_audit_input :: audit_input where
  "sample_audit_input = \<lparr> ai_tenant = ''t'', ai_actor = ''u'', ai_action = ''route.created'',
     ai_resource = ''route'', ai_resource_id = ''r1'', ai_reason = [], ai_occurred_at = 0, ai_source = [] \<rparr>"

lemma sample_audit_start: "audit_start sample_audit_db"
  by (simp add: audit_start_def sample_audit_db_def)

lemma sample_audit_fresh:
  "fresh_event sample_audit_db t eid" "chain_room sample_audit_db t 1000" "chain_room sample_audit_db t 1"
  by (simp_all add: fresh_event_def chain_room_def sample_audit_db_def entries_of_def)

text \<open>
  C9. Recording an audit event is atomic and extends the chain by exactly one entry. If the call
  reports an error, no table has changed, whichever statement failed. If it succeeds, the event
  is stored, one entry carrying the event's hash is appended to the tenant's chain, and the chain
  invariant holds again: sequences are 1, 2, 3, ..., every entry links to its predecessor's hash,
  the head row names the last entry, and every entry is backed by its event or marked retained.
\<close>

theorem record_audit_event_extends_chain:
  fixes db :: "'a audit_db_scheme"
  assumes "audit_inv sha db" "fresh_event db (ai_tenant inp) eid" "chain_room db (ai_tenant inp) 1"
    and "record_audit_event sha f now eid cid inp db = (db', r)"
  shows "audit_inv sha db' \<and> (case r of
      Inl e \<Rightarrow> db' = db
    | Inr _ \<Rightarrow> audit_events db' = audit_events db @ [input_event now eid inp]
        \<and> (\<exists>c. chain_entries db' = chain_entries db @ [c] \<and> ce_tenant c = ai_tenant inp \<and> ce_event_id c = eid
             \<and> ce_event_hash c = event_hash sha (input_event now eid inp)))"
proof -
  have "audit_inv sha db'" using record_audit_event_inv [OF assms(1-3), of f now cid] assms(4) by simp
  moreover have "audit_events db' = audit_events db @ [input_event now eid inp]
        \<and> (\<exists>c. chain_entries db' = chain_entries db @ [c] \<and> ce_tenant c = ai_tenant inp \<and> ce_event_id c = eid
             \<and> ce_event_hash c = event_hash sha (input_event now eid inp))" if "r = Inr u" for u
    using assms that by (auto simp: record_audit_event_def run_tx_ok dest!: record_audit_event_tx_correct)
  ultimately show ?thesis using assms(4)
    by (cases r) (auto simp: record_audit_event_def dest: run_tx_error)
qed

theorem record_audit_event_extends_chain_witness:
  "audit_inv rev (fst (record_audit_event rev no_faults 5000 ''a1'' ''c1'' sample_audit_input sample_audit_db))"
proof -
  have "audit_inv rev sample_audit_db" using audit_start_inv [OF sample_audit_start] by blast
  from record_audit_event_extends_chain [OF this sample_audit_fresh(1,3) surjective_pairing]
  show ?thesis by blast
qed


definition sample_backfill_db :: audit_db where
  "sample_backfill_db = sample_audit_db\<lparr>audit_events :=
     [\<lparr> ae_id = ''a1'', ae_tenant = ''t'', ae_actor = ''u'', ae_action = ''x'', ae_resource = ''r'',
        ae_resource_id = ''1'', ae_reason = [], ae_occurred_at = 0 \<rparr>]\<rparr>"

lemma sample_backfill_ok:
  "audit_inv sha sample_backfill_db" "ids_named sample_backfill_db" "chain_room sample_backfill_db t 1000"
  "pending sample_backfill_db = 1"
  by (simp_all add: sample_backfill_db_def sample_audit_db_def audit_inv_def chain_core_def heads_cover_def
      entries_of_def ids_named_def chain_room_def pending_def unchained_def)

lemma sample_backfill_run:
  "\<exists>db' res. backfill_audit_chain id no_faults 5 (\<lambda>t n. ''c'') ''w'' 0 sample_backfill_db = (db', Inr res)
     \<and> bf_lease_acquired res"
  by (simp add: backfill_audit_chain_def sample_backfill_db_def sample_audit_db_def Let_def run_tx_def
      bind_tx_def try_acquire_worker_lease_def try_tx_def read_tx_def query_rows_def unchained_tenants_def
      unchained_def order_by_def backfill_limit_def backfill_tenant_audit_chain_def
      ensure_audit_chain_head_def then_tx_def exec_tx_def insert_audit_chain_entry_def
      compute_entry_def update_head_def return_tx_def)


end
