(* ===== verification/Blob_Keys.thy ===== *)
theory Blob_Keys
  imports Go_Prelude
begin

text \<open>
  Package internal/blobstore: the keys of objects in the object store. A tenant or resource
  identifier comes from outside, so the keys are built from sanitised segments.
\<close>

section \<open>Model\<close>

definition safe_char :: "char \<Rightarrow> bool" where
  "safe_char c \<longleftrightarrow> (let n = (of_char c :: nat) in
     (97 \<le> n \<and> n \<le> 122) \<or> (65 \<le> n \<and> n \<le> 90) \<or> (48 \<le> n \<and> n \<le> 57)
     \<or> c = CHR ''.'' \<or> c = CHR ''_'' \<or> c = CHR ''-'')"

text \<open>\<open>ReplaceAllString\<close> of \<open>[^a-zA-Z0-9._-]+\<close>: each run of other bytes becomes one underscore.\<close>

fun squash_runs :: "bool \<Rightarrow> string \<Rightarrow> string" where
  "squash_runs in_run [] = []"
| "squash_runs in_run (c # cs) =
     (if safe_char c then c # squash_runs False cs
      else if in_run then squash_runs True cs
      else CHR ''_'' # squash_runs True cs)"

definition trim_set :: "char set \<Rightarrow> string \<Rightarrow> string" where
  "trim_set cs s = trim_right (\<lambda>c. c \<in> cs) (trim_left (\<lambda>c. c \<in> cs) s)"

definition safe_segment :: "string \<Rightarrow> string" where
  "safe_segment v =
     (let v' = trim_set {CHR ''.'', CHR ''_'', CHR ''-'', CHR ''/''} (squash_runs False (trim_space v))
      in if v' = [] then ''unknown'' else v')"

text \<open>\<open>path.Join\<close> of relative elements: drop empty elements, join with slashes, then \<open>path.Clean\<close>.\<close>

fun clean_components :: "string list \<Rightarrow> string list \<Rightarrow> string list" where
  "clean_components done [] = rev done"
| "clean_components done (c # cs) =
     (if c = [] \<or> c = ''.'' then clean_components done cs
      else if c = ''..'' then
        (case done of
           d # ds \<Rightarrow> if d \<noteq> ''..'' then clean_components ds cs else clean_components (c # done) cs
         | [] \<Rightarrow> clean_components [c] cs)
      else clean_components (c # done) cs)"

definition path_join :: "string list \<Rightarrow> string" where
  "path_join elems =
     (let es = filter (\<lambda>e. e \<noteq> []) elems in
      if es = [] then []
      else let s = join_with ''/'' (clean_components [] (split_char (CHR ''/'') (join_with ''/'' es)))
           in if s = [] then ''.'' else s)"

definition raw_payload_key :: "string \<Rightarrow> string \<Rightarrow> string \<Rightarrow> string" where
  "raw_payload_key tenant rid hash =
     (let h = safe_segment (trim_prefix hash ''sha256:'');
          h' = (if 16 < length h then take 16 h else h)
      in path_join [''raw-payloads'', safe_segment tenant, safe_segment rid @ ''-'' @ h' @ ''.bin''])"

definition export_key :: "string \<Rightarrow> string \<Rightarrow> string" where
  "export_key tenant eid =
     path_join [''evidence-exports'', safe_segment tenant, safe_segment eid @ ''.tar.gz'']"

definition audit_anchor_key :: "string \<Rightarrow> string \<Rightarrow> string" where
  "audit_anchor_key tenant aid =
     path_join [''audit-chain-anchors'', safe_segment tenant, safe_segment aid @ ''.json'']"

section \<open>Segments\<close>

lemma squash_runs_safe: "c \<in> set (squash_runs b s) \<Longrightarrow> safe_char c"
  by (induction b s rule: squash_runs.induct) (auto simp: safe_char_def split: if_splits)

lemma set_trim_set: "set (trim_set cs s) \<subseteq> set s"
  using set_dropWhile_subset [of "\<lambda>c. c \<in> cs" "rev (dropWhile (\<lambda>c. c \<in> cs) s)"]
    set_dropWhile_subset [of "\<lambda>c. c \<in> cs" s]
  by (auto simp: trim_set_def trim_left_def trim_right_def)

lemma hd_trim_right: "trim_right p s \<noteq> [] \<Longrightarrow> hd (trim_right p s) = hd s"
proof -
  assume ne: "trim_right p s \<noteq> []"
  have "s = trim_right p s @ rev (takeWhile p (rev s))"
    unfolding trim_right_def by (metis rev_append rev_rev_ident takeWhile_dropWhile_id)
  then show ?thesis using ne by (metis hd_append2)
qed

lemma safe_segment_props:
  "safe_segment v \<noteq> []" "\<And>c. c \<in> set (safe_segment v) \<Longrightarrow> safe_char c" "hd (safe_segment v) \<noteq> CHR ''.''"
proof -
  let ?cs = "{CHR ''.'', CHR ''_'', CHR ''-'', CHR ''/''}"
  let ?s = "trim_set ?cs (squash_runs False (trim_space v))"
  show "safe_segment v \<noteq> []" by (simp add: safe_segment_def Let_def)
  show "safe_char c" if "c \<in> set (safe_segment v)" for c
  proof (cases "?s = []")
    case True
    then have "safe_segment v = ''unknown''" by (simp add: safe_segment_def Let_def)
    with that show ?thesis by (auto simp: safe_char_def)
  next
    case False
    then have "c \<in> set ?s" using that by (simp add: safe_segment_def Let_def)
    then show ?thesis using set_trim_set squash_runs_safe by blast
  qed
  show "hd (safe_segment v) \<noteq> CHR ''.''"
  proof (cases "?s = []")
    case False
    let ?l = "trim_left (\<lambda>c. c \<in> ?cs) (squash_runs False (trim_space v))"
    have "?l \<noteq> []" using False by (auto simp: trim_set_def trim_right_def)
    then have "hd ?l \<notin> ?cs" by (metis hd_dropWhile trim_left_def)
    moreover have "hd ?s = hd ?l" using False unfolding trim_set_def by (rule hd_trim_right)
    moreover have "safe_segment v = ?s" using False by (simp add: safe_segment_def Let_def)
    ultimately show ?thesis by auto
  qed (simp add: safe_segment_def Let_def)
qed

definition plain_component :: "string \<Rightarrow> bool" where
  "plain_component c \<longleftrightarrow> c \<noteq> [] \<and> c \<noteq> ''.'' \<and> c \<noteq> ''..'' \<and> CHR ''/'' \<notin> set c"

lemma clean_plain: "list_all plain_component cs \<Longrightarrow> clean_components acc cs = rev acc @ cs"
  by (induction cs arbitrary: acc) (simp_all add: plain_component_def)

lemma path_join_plain:
  assumes "cs \<noteq> []" and "list_all plain_component cs"
  shows "path_join cs = join_with ''/'' cs"
proof -
  have f: "filter (\<lambda>e. e \<noteq> []) cs = cs"
    using assms(2) by (auto simp: list_all_iff plain_component_def filter_id_conv)
  have s: "split_char (CHR ''/'') (join_with ''/'' cs) = cs"
    using assms by (intro split_join_char) (auto simp: list_all_iff plain_component_def)
  have "join_with ''/'' cs \<noteq> []"
    using assms by (cases "(''/'', cs)" rule: join_with.cases) (auto simp: plain_component_def)
  then show ?thesis using f s assms by (simp add: path_join_def Let_def clean_plain)
qed

lemma plain_safe_segment:
  assumes "CHR ''/'' \<notin> set t" shows "plain_component (safe_segment v @ t)"
proof -
  obtain x xs where s: "safe_segment v = x # xs" using safe_segment_props(1) by (meson list.exhaust)
  then have "x \<noteq> CHR ''.''" using safe_segment_props(3) [of v] by simp
  moreover have "CHR ''/'' \<notin> set (safe_segment v)"
    using safe_segment_props(2) [of "CHR ''/''" v] by (auto simp: safe_char_def)
  ultimately show ?thesis using s assms by (auto simp: plain_component_def)
qed

lemma safe_segment_plain: "plain_component (safe_segment v)"
  using plain_safe_segment [of "[]" v] by simp

lemma set_take_16: "c \<in> set (if 16 < length h then take 16 h else h) \<Longrightarrow> c \<in> set h"
  by (auto split: if_splits dest: in_set_takeD)

lemma key_components:
  assumes "plain_component p" and "CHR ''/'' \<notin> set t"
  shows "split_char (CHR ''/'') (path_join [p, safe_segment tenant, safe_segment i @ t])
    = [p, safe_segment tenant, safe_segment i @ t]"
proof -
  have "list_all plain_component [p, safe_segment tenant, safe_segment i @ t]"
    using assms plain_safe_segment safe_segment_plain by simp
  then show ?thesis
    by (subst path_join_plain) (auto simp: list_all_iff plain_component_def split_char_append split_char_no_sep)
qed

section \<open>Properties\<close>

text \<open>
  Object keys are confined: whatever bytes a tenant identifier, a resource identifier or a
  hash contains, the key of a raw payload, an export or an audit anchor has exactly three path
  components, the fixed prefix, the sanitised tenant and the sanitised file name, and none of
  them is empty, a dot component or contains a slash.
\<close>

theorem object_keys_confined:
  "(\<exists>file. split_char (CHR ''/'') (raw_payload_key tenant i hash)
       = [''raw-payloads'', safe_segment tenant, safe_segment i @ file] \<and> plain_component (safe_segment i @ file))
   \<and> split_char (CHR ''/'') (export_key tenant i)
       = [''evidence-exports'', safe_segment tenant, safe_segment i @ ''.tar.gz'']
   \<and> split_char (CHR ''/'') (audit_anchor_key tenant i)
       = [''audit-chain-anchors'', safe_segment tenant, safe_segment i @ ''.json'']
   \<and> plain_component (safe_segment tenant)"
proof -
  let ?h = "safe_segment (trim_prefix hash ''sha256:'')"
  let ?t = "''-'' @ (if 16 < length ?h then take 16 ?h else ?h) @ ''.bin''"
  have t: "CHR ''/'' \<notin> set ?t"
    using safe_segment_plain [of "trim_prefix hash ''sha256:''"] set_take_16 [of _ ?h]
    by (auto simp: plain_component_def split: if_splits dest: in_set_takeD)
  have p: "plain_component ''raw-payloads''" "plain_component ''evidence-exports''"
    "plain_component ''audit-chain-anchors''" by (simp_all add: plain_component_def)
  show ?thesis
    using key_components [OF p(1) t, of tenant i] plain_safe_segment [OF t, of i]
      key_components [OF p(2), of "''.tar.gz''" tenant i] key_components [OF p(3), of "''.json''" tenant i]
      safe_segment_plain [of tenant]
    unfolding raw_payload_key_def export_key_def audit_anchor_key_def Let_def by auto
qed

end
