(* ===== verification/Audit_Verify.thy ===== *)
theory Audit_Verify
  imports Audit_Chain Blob_Keys
begin

text \<open>
  Verification and anchoring of the audit chain: \<open>GetAuditChainHead\<close>, \<open>VerifyAuditChain\<close> and
  \<open>CreateAuditChainAnchor\<close> of internal/adapters/postgres/store.go, the soundness and
  completeness of the verifier, and what an end hash commits to.
\<close>

section \<open>Model: head and verification\<close>

record head_view =
  hv_tenant :: string
  hv_sequence :: int
  hv_chain_hash :: string
  hv_last_event :: string
  hv_unchained :: nat
  hv_last_anchor :: "(string \<times> int \<times> gotime) option"
  hv_updated_at :: gotime

definition head_view_rest :: "faults \<Rightarrow> 'a audit_db_scheme \<Rightarrow> string \<Rightarrow> head_view \<Rightarrow> head_view res" where
  "head_view_rest f db t v =
     bind_res (query_row f ''count_unchained''
         [length (filter (\<lambda>a. ae_tenant a = t \<and> unchained db a) (audit_events db))]) (\<lambda>n.
       case query_row f ''last_anchor'' (order_by (\<lambda>a. (- ca_to a, - ca_created_at a))
              (filter (\<lambda>a. ca_tenant a = t) (chain_anchors db))) of
         Inr a \<Rightarrow> Inr (v\<lparr>hv_unchained := n, hv_last_anchor := Some (ca_id a, ca_to a, ca_created_at a)\<rparr>)
       | Inl e \<Rightarrow> if e = ErrNoRows then Inr (v\<lparr>hv_unchained := n\<rparr>) else Inl e)"

definition get_audit_chain_head :: "faults \<Rightarrow> 'a audit_db_scheme \<Rightarrow> string \<Rightarrow> head_view res" where
  "get_audit_chain_head f db t =
     (case query_row f ''read_head'' (filter (\<lambda>h. ch_tenant h = t) (chain_heads db)) of
        Inr h \<Rightarrow> head_view_rest f db t \<lparr> hv_tenant = ch_tenant h, hv_sequence = ch_sequence h,
          hv_chain_hash = ch_chain_hash h, hv_last_event = ch_last_event h, hv_unchained = 0,
          hv_last_anchor = None, hv_updated_at = ch_updated_at h \<rparr>
      | Inl e \<Rightarrow> if e = ErrNoRows
          then head_view_rest f db t \<lparr> hv_tenant = t, hv_sequence = 0, hv_chain_hash = [], hv_last_event = [],
            hv_unchained = 0, hv_last_anchor = None, hv_updated_at = 0 \<rparr>
          else Inl e)"

record chain_failure =
  cf_sequence :: int
  cf_event :: string
  cf_kind :: string
  cf_detail :: string

record chain_verification =
  cv_tenant :: string
  cv_valid :: bool
  cv_from :: int
  cv_to :: int
  cv_checked :: nat
  cv_retained :: nat
  cv_start :: string
  cv_end :: string
  cv_failures :: "chain_failure list"
  cv_verified_at :: gotime

definition add_failure :: "chain_verification \<Rightarrow> int \<Rightarrow> string \<Rightarrow> string \<Rightarrow> string \<Rightarrow> chain_verification" where
  "add_failure r n eid kind detail = r\<lparr>cv_valid := False, cv_failures := cv_failures r @
     [\<lparr> cf_sequence = n, cf_event = eid, cf_kind = kind, cf_detail = detail \<rparr>]\<rparr>"

definition fail_if :: "bool \<Rightarrow> int \<Rightarrow> string \<Rightarrow> string \<Rightarrow> string \<Rightarrow> chain_verification \<Rightarrow> chain_verification" where
  "fail_if b n eid kind detail r = (if b then add_failure r n eid kind detail else r)"

text \<open>\<open>for expectedSequence < sequence { ...; expectedSequence++ }\<close>.\<close>

definition missing_entries :: "int \<Rightarrow> int \<Rightarrow> chain_verification \<Rightarrow> chain_verification" where
  "missing_entries expected sequence r =
     fold (\<lambda>n r. add_failure r n [] ''missing_entry'' []) [expected..sequence - 1] r"

definition verify_row ::
    "(string \<Rightarrow> string) \<Rightarrow> chain_entry \<times> audit_event option \<Rightarrow> chain_verification \<times> string \<times> int \<Rightarrow>
     chain_verification \<times> string \<times> int" where
  "verify_row sha = (\<lambda>(c, ev) (r, expected_previous, expected_sequence).
     let n = ce_sequence c; eid = ce_event_id c;
         r1 = missing_entries expected_sequence n r;
         r2 = r1\<lparr>cv_checked := cv_checked r1 + 1\<rparr>;
         r3 = fail_if (ce_version c \<noteq> canonicalization_version) n eid
                ''unsupported_canonicalization_version'' (ce_version c) r2;
         r4 = fail_if (ce_previous c \<noteq> expected_previous) n eid ''previous_hash_mismatch'' [] r3;
         r5 = (case ev of
             Some a \<Rightarrow> if ae_id a \<noteq> []
               then fail_if (event_hash sha a \<noteq> ce_event_hash c) n eid ''event_hash_mismatch'' [] r4
               else if ce_state c = ''retained'' then r4\<lparr>cv_retained := cv_retained r4 + 1\<rparr>
               else add_failure r4 n eid ''missing_audit_event'' []
           | None \<Rightarrow> if ce_state c = ''retained'' then r4\<lparr>cv_retained := cv_retained r4 + 1\<rparr>
               else add_failure r4 n eid ''missing_audit_event'' []);
         r6 = fail_if (chain_hash sha expected_previous (ce_event_hash c) \<noteq> ce_chain_hash c) n eid
                ''chain_hash_mismatch'' [] r5
     in (r6\<lparr>cv_end := ce_chain_hash c\<rparr>, ce_chain_hash c, n + 1))"

definition chain_rows :: "'a audit_db_scheme \<Rightarrow> string \<Rightarrow> int \<Rightarrow> int \<Rightarrow> (chain_entry \<times> audit_event option) list" where
  "chain_rows db t from to' =
     concat (map (\<lambda>c. map (\<lambda>a. (c, a)) (left_join (\<lambda>a. ae_tenant a = ce_tenant c \<and> ae_id a = ce_event_id c)
         (audit_events db)))
       (order_by ce_sequence (filter (\<lambda>c. ce_tenant c = t \<and> from \<le> ce_sequence c \<and> ce_sequence c \<le> to')
          (chain_entries db))))"

definition driver_error_text :: "go_error \<Rightarrow> string" where
  "driver_error_text e = (case e of ErrNoRows \<Rightarrow> ''no rows in result set'' | ErrOther s \<Rightarrow> s | _ \<Rightarrow> [])"

definition verify_range :: "int \<Rightarrow> int \<Rightarrow> int \<Rightarrow> int \<times> int" where
  "verify_range head_sequence req_from req_to =
     (if req_from \<le> 0 then 1 else req_from,
      if req_to \<le> 0 \<or> head_sequence < req_to then head_sequence else req_to)"

definition new_verification :: "string \<Rightarrow> int \<Rightarrow> int \<Rightarrow> gotime \<Rightarrow> chain_verification" where
  "new_verification t lo hi now = \<lparr> cv_tenant = t, cv_valid = True, cv_from = lo, cv_to = hi,
     cv_checked = 0, cv_retained = 0, cv_start = [], cv_end = [], cv_failures = [], cv_verified_at = now \<rparr>"

text \<open>The expected previous hash at the start of the range.\<close>

definition verify_start ::
    "faults \<Rightarrow> 'a audit_db_scheme \<Rightarrow> string \<Rightarrow> int \<Rightarrow> chain_verification \<Rightarrow> chain_verification \<times> string" where
  "verify_start f db t lo r =
     (if 1 < lo then
        (case query_row f ''select_previous''
             (filter (\<lambda>c. ce_tenant c = t \<and> ce_sequence c = lo - 1) (chain_entries db)) of
           Inr c \<Rightarrow> (r\<lparr>cv_start := ce_chain_hash c\<rparr>, ce_chain_hash c)
         | Inl e \<Rightarrow> (add_failure r (lo - 1) [] ''missing_previous_entry'' (driver_error_text e), []))
      else (r, []))"

definition verify_entries ::
    "(string \<Rightarrow> string) \<Rightarrow> (chain_entry \<times> audit_event option) list \<Rightarrow> int \<Rightarrow> int \<Rightarrow>
     chain_verification \<times> string \<Rightarrow> chain_verification" where
  "verify_entries sha rows lo hi = (\<lambda>(r, previous).
     case fold (verify_row sha) rows (r, previous, lo) of
       (r', _, expected) \<Rightarrow> missing_entries expected (hi + 1) r')"

definition verify_audit_chain ::
    "(string \<Rightarrow> string) \<Rightarrow> faults \<Rightarrow> gotime \<Rightarrow> 'a audit_db_scheme \<Rightarrow> string \<Rightarrow> int \<Rightarrow> int \<Rightarrow> chain_verification res" where
  "verify_audit_chain sha f now db t req_from req_to =
     bind_res (get_audit_chain_head f db t) (\<lambda>head.
     case verify_range (hv_sequence head) req_from req_to of (lo, hi) \<Rightarrow>
       if hv_sequence head = 0 \<or> hi < lo then Inr ((new_verification t lo hi now)\<lparr>cv_to := 0\<rparr>)
       else bind_res (query_rows f ''select_entries'' (chain_rows db t lo hi)) (\<lambda>rows.
         Inr (verify_entries sha rows lo hi (verify_start f db t lo (new_verification t lo hi now)))))"

section \<open>Model: anchors\<close>

text \<open>
  The object store is the list of stored objects; \<open>f ''put''\<close> and \<open>f ''delete''\<close> are its answers. The
  members of the manifest are in the order \<open>json.Marshal\<close> gives to a map.
\<close>

type_synonym objects = "((string \<times> string) \<times> string) list"

definition put_object :: "string \<Rightarrow> string \<Rightarrow> string \<Rightarrow> objects \<Rightarrow> objects" where
  "put_object bucket key body objs = ((bucket, key), body) # filter (\<lambda>o'. fst o' \<noteq> (bucket, key)) objs"

definition delete_object :: "faults \<Rightarrow> string \<Rightarrow> string \<Rightarrow> objects \<Rightarrow> objects" where
  "delete_object f bucket key objs =
     (case f ''delete'' of Some _ \<Rightarrow> objs | None \<Rightarrow> filter (\<lambda>o'. fst o' \<noteq> (bucket, key)) objs)"

definition json_raw_member :: "string \<times> string \<Rightarrow> string" where
  "json_raw_member = (\<lambda>(k, v). json_quote k @ [CHR '':''] @ v)"

definition anchor_manifest ::
    "string \<Rightarrow> string \<Rightarrow> int \<Rightarrow> int \<Rightarrow> string \<Rightarrow> gotime \<Rightarrow> string \<Rightarrow> string \<Rightarrow> string" where
  "anchor_manifest aid tenant from to' hash now actor_id reason =
     CHR ''{'' # join_with '','' (map json_raw_member
       [(''canonical_json'', json_quote ''audit-chain-anchor-v1''), (''chain_hash'', json_quote hash),
        (''created_at'', json_quote (rfc3339_nano now)), (''created_by'', json_quote actor_id),
        (''from_sequence'', itoa from), (''id'', json_quote aid), (''reason'', json_quote reason),
        (''tenant_id'', json_quote tenant), (''to_sequence'', itoa to')]) @ ''}''"

record anchor_request =
  ar_from :: int
  ar_to :: int
  ar_reason :: string

definition insert_anchor :: "faults \<Rightarrow> chain_anchor \<Rightarrow> ('a audit_db_scheme, chain_anchor) tx" where
  "insert_anchor f a = try_tx f ''insert_anchor'' (\<lambda>db.
     if ca_id a \<in> ca_id ` set (chain_anchors db) then Inl (ErrOther ''audit_chain_anchors_pkey'')
     else Inr (db\<lparr>chain_anchors := chain_anchors db @ [a]\<rparr>, a))"

definition anchor_audit_input :: "string \<Rightarrow> string \<Rightarrow> string \<Rightarrow> string \<Rightarrow> audit_input" where
  "anchor_audit_input tenant actor_id aid reason = \<lparr> ai_tenant = tenant, ai_actor = actor_id,
     ai_action = ''audit_chain.anchored'', ai_resource = ''audit_chain_anchor'', ai_resource_id = aid,
     ai_reason = reason, ai_occurred_at = 0, ai_source = [] \<rparr>"

definition create_audit_chain_anchor ::
    "(string \<Rightarrow> string) \<Rightarrow> faults \<Rightarrow> gotime \<Rightarrow> string option \<Rightarrow> string \<Rightarrow> string \<Rightarrow> string \<Rightarrow>
     'a audit_db_scheme \<times> objects \<Rightarrow> string \<Rightarrow> string \<Rightarrow> anchor_request \<Rightarrow>
     ('a audit_db_scheme \<times> objects) \<times> chain_anchor res" where
  "create_audit_chain_anchor sha f now bucket aid eid cid = (\<lambda>(db, objs) tenant actor_id req.
     case verify_audit_chain sha f now db tenant (ar_from req) (ar_to req) of
       Inl e \<Rightarrow> ((db, objs), Inl e)
     | Inr v \<Rightarrow>
         if \<not> cv_valid v \<or> cv_checked v = 0
         then ((db, objs), Inl (ErrInvalidInput ''audit chain range is not verifiable''))
         else
           let manifest = anchor_manifest aid tenant (cv_from v) (cv_to v) (cv_end v) now actor_id (ar_reason req);
               key = (case bucket of None \<Rightarrow> [] | Some _ \<Rightarrow> audit_anchor_key tenant aid);
               a = \<lparr> ca_id = aid, ca_tenant = tenant, ca_from = cv_from v, ca_to = cv_to v,
                 ca_chain_hash = cv_end v, ca_manifest_sha = sha256_text sha manifest,
                 ca_storage_backend = (case bucket of None \<Rightarrow> ''postgres'' | Some _ \<Rightarrow> ''s3''),
                 ca_bucket = (case bucket of None \<Rightarrow> [] | Some b \<Rightarrow> b), ca_key = key,
                 ca_created_by = actor_id, ca_reason = ar_reason req, ca_created_at = now \<rparr>;
               body = bind_tx (insert_anchor f a) (\<lambda>out.
                 then_tx (record_audit_event_tx sha f now eid cid
                     (anchor_audit_input tenant actor_id aid (ar_reason req))) (return_tx out))
           in case bucket of
                None \<Rightarrow> (case run_tx f body db of (db', r) \<Rightarrow> ((db', objs), r))
              | Some b \<Rightarrow>
                  (case f ''put'' of
                     Some e \<Rightarrow> ((db, objs), Inl e)
                   | None \<Rightarrow>
                       let objs' = put_object b key manifest objs in
                       (case run_tx f body db of
                          (db', Inl e) \<Rightarrow> ((db', delete_object f b key objs'), Inl e)
                        | (db', Inr out) \<Rightarrow> ((db', objs'), Inr out))))"

section \<open>The canonical texts are unambiguous\<close>

lemma json_member_prefix_inj:
  assumes "json_member (k, v) @ s = json_member (k, w) @ t"
  shows "v = w \<and> s = t"
proof -
  have "json_quote v @ s = json_quote w @ t" using assms by (simp add: json_member_def)
  then show ?thesis using json_quote_prefix_inj by blast
qed

lemma join_members_inj:
  assumes "join_with [c] (map json_member xs) @ s = join_with [c] (map json_member ys) @ t"
    and "map fst xs = map fst ys"
  shows "map snd xs = map snd ys \<and> s = t"
  using assms
proof (induction xs arbitrary: ys)
  case Nil
  then show ?case by simp
next
  case (Cons x xs)
  obtain k v where x: "x = (k, v)" by (cases x)
  from Cons.prems(2) x obtain w ys' where ys: "ys = (k, w) # ys'" "map fst xs = map fst ys'"
    by (cases ys) auto
  show ?case
  proof (cases xs)
    case Nil
    then have "ys' = []" using ys by simp
    then show ?thesis using Cons.prems(1) Nil x ys json_member_prefix_inj [of k v s w t] by simp
  next
    case (Cons x2 xs2)
    then obtain y2 ys2 where ys': "ys' = y2 # ys2" using ys by (cases ys') auto
    have eq: "json_member (k, v) @ (c # join_with [c] (map json_member xs) @ s)
        = json_member (k, w) @ (c # join_with [c] (map json_member ys') @ t)"
      using Cons.prems(1) unfolding x ys(1) Cons ys' by simp
    from json_member_prefix_inj [OF eq] have "v = w"
      "join_with [c] (map json_member xs) @ s = join_with [c] (map json_member ys') @ t" by auto
    with Cons.IH [OF this(2) ys(2)] x ys show ?thesis by simp
  qed
qed

lemma json_object_inj:
  "map fst xs = map fst ys \<Longrightarrow> json_object xs = json_object ys \<Longrightarrow> map snd xs = map snd ys"
  using join_members_inj [of "CHR '',''" xs "''}''" ys "''}''"] by (auto simp: json_object_def)

lemma chain_input_inj: "chain_input p h = chain_input q k \<Longrightarrow> p = q \<and> h = k"
  unfolding chain_input_def by (drule json_object_inj [rotated]) simp_all

lemma canonical_event_inj:
  assumes "canonical_event a = canonical_event b" and "0 \<le> ae_occurred_at a" "0 \<le> ae_occurred_at b"
  shows "(a :: audit_event) = b"
proof -
  have "ae_id a = ae_id b \<and> ae_tenant a = ae_tenant b \<and> ae_actor a = ae_actor b \<and> ae_action a = ae_action b
    \<and> ae_resource a = ae_resource b \<and> ae_resource_id a = ae_resource_id b \<and> ae_reason a = ae_reason b
    \<and> rfc3339_nano (ae_occurred_at a) = rfc3339_nano (ae_occurred_at b)"
    using json_object_inj [OF _ assms(1) [unfolded canonical_event_def]] by simp
  then show ?thesis using rfc3339_nano_inj [OF _ assms(2,3)] by simp
qed

lemma sha256_text_inj: "inj_on sha S \<Longrightarrow> x \<in> S \<Longrightarrow> y \<in> S \<Longrightarrow> sha256_text sha x = sha256_text sha y \<Longrightarrow> x = y"
  by (simp add: sha256_text_def hex_encode_inj inj_onD)

section \<open>The verifier accepts what the store writes\<close>

lemma linked_sequences: "linked sha p n es \<Longrightarrow> map ce_sequence es = [n..n + int (length es) - 1]"
proof (induction es arbitrary: p n)
  case Nil
  then show ?case by simp
next
  case (Cons e es)
  have "linked sha (ce_chain_hash e) (n + 1) es" using Cons.prems unfolding linked.simps by blast
  from Cons.IH [OF this] have "map ce_sequence es = [n + 1..n + int (length es)]" by simp
  moreover have "[n..n + int (length (e # es)) - 1] = n # [n + 1..n + int (length es)]"
    by (subst upto.simps) simp
  ultimately show ?case using Cons.prems by simp
qed

lemma linked_range: "linked sha p n es \<Longrightarrow> c \<in> set es \<Longrightarrow> n \<le> ce_sequence c \<and> ce_sequence c < n + int (length es)"
  using linked_sequences [of sha p n es] by (metis add_diff_cancel_left' atLeastAtMost_iff image_eqI
      list.set_map set_upto zle_diff1_eq add.commute diff_add_cancel)

lemma linked_order_by: "linked sha p n es \<Longrightarrow> order_by ce_sequence es = es"
  unfolding order_by_def by (rule sort_key_id_if_sorted) (simp add: linked_sequences)

lemma filter_range_linked:
  assumes "linked sha p n (as @ bs @ cs)"
    and "from = n + int (length as)" "to' = from + int (length bs) - 1"
  shows "filter (\<lambda>c. from \<le> ce_sequence c \<and> ce_sequence c \<le> to') (as @ bs @ cs) = bs"
proof -
  have l: "linked sha p n as" "linked sha (chain_end p as) from bs"
    "linked sha (chain_end (chain_end p as) bs) (from + int (length bs)) cs"
    using assms by (simp_all add: linked_append)
  have "filter (\<lambda>c. from \<le> ce_sequence c \<and> ce_sequence c \<le> to') as = []"
    using linked_range [OF l(1)] assms(2) by (fastforce simp: filter_empty_conv)
  moreover have "filter (\<lambda>c. from \<le> ce_sequence c \<and> ce_sequence c \<le> to') bs = bs"
    using linked_range [OF l(2)] assms(3) by (fastforce simp: filter_id_conv)
  moreover have "filter (\<lambda>c. from \<le> ce_sequence c \<and> ce_sequence c \<le> to') cs = []"
    using linked_range [OF l(3)] assms(3) by (fastforce simp: filter_empty_conv)
  ultimately show ?thesis by simp
qed

definition lookup_event :: "'a audit_db_scheme \<Rightarrow> chain_entry \<Rightarrow> audit_event option" where
  "lookup_event db c = find (\<lambda>a. ae_tenant a = ce_tenant c \<and> ae_id a = ce_event_id c) (audit_events db)"

lemma left_join_find:
  assumes "distinct (map ae_id as)"
  shows "left_join (\<lambda>a. ae_tenant a = t \<and> ae_id a = i) as = [find (\<lambda>a. ae_tenant a = t \<and> ae_id a = i) as]"
  using assms
proof (induction as)
  case Nil
  then show ?case by (simp add: left_join_def)
next
  case (Cons a as)
  show ?case
  proof (cases "ae_tenant a = t \<and> ae_id a = i")
    case True
    then have "filter (\<lambda>a. ae_tenant a = t \<and> ae_id a = i) as = []"
      using Cons.prems by (auto simp: filter_empty_conv image_iff)
    with True show ?thesis by (simp add: left_join_def)
  next
    case False
    with Cons show ?thesis by (auto simp: left_join_def split: list.splits)
  qed
qed

lemma concat_singletons: "concat (map (\<lambda>x. [f x]) xs) = map f xs"
  by (induction xs) auto

lemma chain_rows_lookup:
  assumes "distinct (map ae_id (audit_events db))"
  shows "chain_rows db t from to' = map (\<lambda>c. (c, lookup_event db c)) (order_by ce_sequence
    (filter (\<lambda>c. from \<le> ce_sequence c \<and> ce_sequence c \<le> to') (entries_of db t)))"
  by (simp add: chain_rows_def left_join_find [OF assms] lookup_event_def concat_singletons entries_of_def)

lemma lookup_event_Some:
  "lookup_event db c = Some a \<Longrightarrow> a \<in> set (audit_events db) \<and> ae_tenant a = ce_tenant c \<and> ae_id a = ce_event_id c"
  by (auto simp: lookup_event_def find_Some_iff)

lemma lookup_event_None:
  "lookup_event db c = None \<longleftrightarrow> \<not> (\<exists>a \<in> set (audit_events db). ae_tenant a = ce_tenant c \<and> ae_id a = ce_event_id c)"
  by (auto simp: lookup_event_def find_None_iff)

text \<open>What one row must satisfy for the verifier to record no failure on it.\<close>

definition row_good :: "(string \<Rightarrow> string) \<Rightarrow> chain_entry \<times> audit_event option \<Rightarrow> string \<Rightarrow> bool" where
  "row_good sha = (\<lambda>(c, ev) previous. ce_version c = canonicalization_version \<and> ce_previous c = previous
     \<and> ce_chain_hash c = chain_hash sha previous (ce_event_hash c)
     \<and> (case ev of Some a \<Rightarrow> (if ae_id a \<noteq> [] then event_hash sha a = ce_event_hash c else ce_state c = ''retained'')
        | None \<Rightarrow> ce_state c = ''retained''))"

lemma add_failure_sel [simp]:
  "cv_valid (add_failure r n e k d) = False" "cv_checked (add_failure r n e k d) = cv_checked r"
  "cv_end (add_failure r n e k d) = cv_end r" "cv_from (add_failure r n e k d) = cv_from r"
  "cv_to (add_failure r n e k d) = cv_to r" "cv_start (add_failure r n e k d) = cv_start r"
  by (simp_all add: add_failure_def)

lemma missing_entries_none: "n \<le> expected \<Longrightarrow> missing_entries expected n r = r"
  by (simp add: missing_entries_def)

lemma fold_add_failure_valid: "cv_valid (fold (\<lambda>n r. add_failure r n [] k []) ns r) \<longleftrightarrow> ns = [] \<and> cv_valid r"
  by (induction ns arbitrary: r) simp_all

lemma missing_entries_valid [simp]:
  "cv_valid (missing_entries expected n r) \<longleftrightarrow> n \<le> expected \<and> cv_valid r"
  by (auto simp: missing_entries_def fold_add_failure_valid)

lemma fail_if_valid [simp]: "cv_valid (fail_if b n e k d r) \<longleftrightarrow> \<not> b \<and> cv_valid r"
  by (simp add: fail_if_def)

lemma verify_row_valid:
  "cv_valid (fst (verify_row sha row (r, previous, expected))) \<longleftrightarrow>
   cv_valid r \<and> ce_sequence (fst row) \<le> expected \<and> row_good sha row previous"
  by (cases row; cases "snd row") (auto simp: verify_row_def row_good_def Let_def)

lemma fail_if_keep:
  "cv_failures (fail_if False n e k d r) = cv_failures r" "fail_if False n e k d r = r"
  by (simp_all add: fail_if_def)

lemma verify_row_good:
  assumes "row_good sha row previous" and "ce_sequence (fst row) = expected"
  shows "snd (verify_row sha row (r, previous, expected)) = (ce_chain_hash (fst row), expected + 1)
    \<and> (let r' = fst (verify_row sha row (r, previous, expected)) in
       cv_failures r' = cv_failures r \<and> cv_valid r' = cv_valid r \<and> cv_checked r' = cv_checked r + 1
       \<and> cv_end r' = ce_chain_hash (fst row) \<and> cv_from r' = cv_from r \<and> cv_to r' = cv_to r
       \<and> cv_start r' = cv_start r)"
  using assms
  by (cases row; cases "snd row")
    (auto simp: verify_row_def row_good_def Let_def missing_entries_none fail_if_keep split: if_splits)

fun rows_good :: "(string \<Rightarrow> string) \<Rightarrow> string \<Rightarrow> int \<Rightarrow> (chain_entry \<times> audit_event option) list \<Rightarrow> bool" where
  "rows_good sha previous n [] \<longleftrightarrow> True"
| "rows_good sha previous n (row # rows) \<longleftrightarrow> ce_sequence (fst row) = n \<and> row_good sha row previous
     \<and> rows_good sha (ce_chain_hash (fst row)) (n + 1) rows"

lemma fold_verify_good:
  assumes "rows_good sha previous n rows"
  shows "snd (fold (verify_row sha) rows (r, previous, n)) = (chain_end previous (map fst rows), n + int (length rows))
    \<and> (let r' = fst (fold (verify_row sha) rows (r, previous, n)) in
       cv_failures r' = cv_failures r \<and> cv_valid r' = cv_valid r \<and> cv_checked r' = cv_checked r + length rows
       \<and> cv_end r' = (if rows = [] then cv_end r else chain_end previous (map fst rows))
       \<and> cv_from r' = cv_from r \<and> cv_to r' = cv_to r \<and> cv_start r' = cv_start r)"
  using assms
proof (induction rows arbitrary: r previous n)
  case Nil
  then show ?case by (simp add: chain_end_def)
next
  case (Cons row rows)
  then have g: "row_good sha row previous" "ce_sequence (fst row) = n"
    "rows_good sha (ce_chain_hash (fst row)) (n + 1) rows" by simp_all
  note V = verify_row_good [OF g(1,2), of r]
  define r1 where "r1 = fst (verify_row sha row (r, previous, n))"
  have s: "verify_row sha row (r, previous, n) = (r1, ce_chain_hash (fst row), n + 1)"
    using V by (simp add: r1_def prod_eq_iff)
  show ?case using Cons.IH [OF g(3), of r1] V
    by (auto simp: s r1_def [symmetric] Let_def chain_end_def last_map)
qed

lemma linked_rows_good:
  assumes "linked sha p n es" and "\<And>c. c \<in> set es \<Longrightarrow> entry_backed sha db c" and "ids_named db"
  shows "rows_good sha p n (map (\<lambda>c. (c, lookup_event db c)) es)"
  using assms(1,2)
proof (induction es arbitrary: p n)
  case Nil
  then show ?case by simp
next
  case (Cons c es)
  have l: "ce_sequence c = n" "ce_previous c = p" "ce_chain_hash c = chain_hash sha p (ce_event_hash c)"
    "ce_version c = canonicalization_version" "linked sha (ce_chain_hash c) (n + 1) es"
    using Cons.prems(1) unfolding linked.simps by blast+
  have b: "entry_backed sha db c" using Cons.prems(2) by simp
  have "row_good sha (c, lookup_event db c) p"
  proof (cases "lookup_event db c")
    case None
    then show ?thesis using l b None [unfolded lookup_event_None] by (auto simp: row_good_def entry_backed_def)
  next
    case (Some a)
    then show ?thesis using l b lookup_event_Some [OF Some] assms(3)
      by (auto simp: row_good_def entry_backed_def ids_named_def)
  qed
  moreover have "rows_good sha (ce_chain_hash c) (n + 1) (map (\<lambda>c. (c, lookup_event db c)) es)"
    using Cons.prems(2) by (intro Cons.IH [OF l(5)]) simp
  ultimately show ?case using l(1) by simp
qed

lemma head_view_rest_sequence: "head_view_rest f db t v = Inr v' \<Longrightarrow> hv_sequence v' = hv_sequence v"
  by (cases "query_row f ''last_anchor'' (order_by (\<lambda>a. (- ca_to a, - ca_created_at a))
        (filter (\<lambda>a. ca_tenant a = t) (chain_anchors db)))")
    (auto simp: head_view_rest_def split: if_splits)

lemma head_view_continue:
  assumes "get_audit_chain_head f db t = Inr v"
  shows "hv_sequence v = (case query_row f ''read_head'' (filter (\<lambda>h. ch_tenant h = t) (chain_heads db)) of
    Inr h \<Rightarrow> ch_sequence h | Inl e \<Rightarrow> 0)"
  using assms
  by (cases "query_row f ''read_head'' (filter (\<lambda>h. ch_tenant h = t) (chain_heads db))")
    (auto simp: get_audit_chain_head_def dest: head_view_rest_sequence split: if_splits)

lemma head_sequence:
  assumes "get_audit_chain_head f db t = Inr v" and "audit_inv sha db"
  shows "hv_sequence v = 0 \<or> hv_sequence v = int (length (entries_of db t))"
proof (cases "query_row f ''read_head'' (filter (\<lambda>h. ch_tenant h = t) (chain_heads db))")
  case (Inl e)
  then show ?thesis using head_view_continue [OF assms(1)] by simp
next
  case (Inr h)
  then have "head_ok db h" "ch_tenant h = t" using assms(2) query_row_in [OF Inr] by (auto simp: audit_inv_def)
  moreover have "hv_sequence v = ch_sequence h" using head_view_continue [OF assms(1)] Inr by simp
  ultimately show ?thesis by (simp add: head_ok_def)
qed

lemma split_three:
  assumes "1 \<le> from" "from \<le> to'" "to' \<le> int (length es)"
  obtains as bs cs where "es = as @ bs @ cs" "from = 1 + int (length as)" "to' = from + int (length bs) - 1"
proof
  let ?a = "nat (from - 1)" and ?b = "nat (to' - from + 1)"
  show "es = take ?a es @ take ?b (drop ?a es) @ drop ?b (drop ?a es)"
    by (metis append_take_drop_id)
  show "from = 1 + int (length (take ?a es))" using assms by simp
  show "to' = from + int (length (take ?b (drop ?a es))) - 1" using assms by simp
qed

lemma previous_entry:
  assumes "linked sha [] 1 (as @ rest)" and "as \<noteq> []" and "lo = 1 + int (length as)"
  shows "filter (\<lambda>c. ce_sequence c = lo - 1) (as @ rest) = [last as]"
proof -
  obtain as' x where as: "as = as' @ [x]" using assms(2) by (metis rev_exhaust)
  have Q: "(\<lambda>c. ce_sequence c = lo - 1) = (\<lambda>c. int (length as) \<le> ce_sequence c \<and> ce_sequence c \<le> int (length as))"
    using assms(3) by auto
  have "filter (\<lambda>c. int (length as) \<le> ce_sequence c \<and> ce_sequence c \<le> int (length as)) (as' @ [x] @ rest) = [x]"
    using assms(1) unfolding as by (intro filter_range_linked) auto
  then show ?thesis unfolding Q as append_assoc last_snoc .
qed

lemma filter_entries_of:
  "filter (\<lambda>c. ce_tenant c = t \<and> P c) (chain_entries db) = filter P (entries_of db t)"
  by (simp add: entries_of_def)

lemma verify_cases:
  assumes "verify_audit_chain sha f now db t rf rt = Inr r"
  obtains (trivial) v lo hi where "get_audit_chain_head f db t = Inr v" "verify_range (hv_sequence v) rf rt = (lo, hi)"
      "hv_sequence v = 0 \<or> hi < lo" "r = (new_verification t lo hi now)\<lparr>cv_to := 0\<rparr>"
  | (rows) v lo hi where "get_audit_chain_head f db t = Inr v" "verify_range (hv_sequence v) rf rt = (lo, hi)"
      "1 \<le> lo" "lo \<le> hi" "hi \<le> hv_sequence v" "hv_sequence v \<noteq> 0"
      "r = verify_entries sha (chain_rows db t lo hi) lo hi (verify_start f db t lo (new_verification t lo hi now))"
proof -
  obtain v where v1: "get_audit_chain_head f db t = Inr v" using assms by (auto simp: verify_audit_chain_def)
  obtain lo hi where v2: "verify_range (hv_sequence v) rf rt = (lo, hi)" by fastforce
  note v = v1 v2
  have lo: "1 \<le> lo" "hi \<le> hv_sequence v" using v(2) by (auto simp: verify_range_def split: if_splits)
  show ?thesis
  proof (cases "hv_sequence v = 0 \<or> hi < lo")
    case True
    then show ?thesis using assms v by (intro trivial [OF v]) (auto simp: verify_audit_chain_def)
  next
    case False
    then show ?thesis using assms v lo by (intro rows [OF v]) (auto simp: verify_audit_chain_def)
  qed
qed

lemma new_verification_sel [simp]:
  "cv_valid (new_verification t lo hi now)" "cv_failures (new_verification t lo hi now) = []"
  "cv_checked (new_verification t lo hi now) = 0" "cv_start (new_verification t lo hi now) = []"
  "cv_from (new_verification t lo hi now) = lo" "cv_to (new_verification t lo hi now) = hi"
  by (simp_all add: new_verification_def)

lemma verify_entries_good:
  assumes "rows_good sha p lo rows" and "hi = lo + int (length rows) - 1"
  shows "verify_entries sha rows lo hi (r, p) = fst (fold (verify_row sha) rows (r, p, lo))"
  using fold_verify_good [OF assms(1), of r] assms(2)
  by (auto simp: verify_entries_def missing_entries_none split: prod.splits)

lemma verify_complete:
  assumes run: "verify_audit_chain sha f now db t rf rt = Inr r"
    and inv: "audit_inv sha db" "ids_named db" and f: "f ''select_previous'' = None"
  shows "cv_valid r \<and> cv_failures r = []
    \<and> (\<forall>v lo hi. get_audit_chain_head f db t = Inr v \<and> verify_range (hv_sequence v) rf rt = (lo, hi)
         \<and> hv_sequence v \<noteq> 0 \<and> lo \<le> hi \<longrightarrow> int (cv_checked r) = hi - lo + 1 \<and> cv_from r = lo \<and> cv_to r = hi)"
  using run
proof (cases rule: verify_cases)
  case trivial
  then show ?thesis by auto
next
  case (rows v lo hi)
  then have "hi \<le> int (length (entries_of db t))" using head_sequence [OF rows(1) inv(1)] by simp
  with rows(3,4) obtain as bs cs where s: "entries_of db t = as @ bs @ cs" "lo = 1 + int (length as)"
    "hi = lo + int (length bs) - 1" by (rule split_three)
  have lk: "linked sha [] 1 (as @ bs @ cs)"
    using inv(1) unfolding audit_inv_def chain_core_def s(1) [symmetric] by blast
  have lb: "linked sha (chain_end [] as) lo bs" using lk s(2) by (simp add: linked_append)
  have backed: "entry_backed sha db c" if "c \<in> set bs" for c
  proof -
    have "c \<in> set (entries_of db t)" using that s(1) by simp
    then show ?thesis using inv(1) by (simp add: audit_inv_def chain_core_def entries_of_def)
  qed
  have cr: "chain_rows db t lo hi = map (\<lambda>c. (c, lookup_event db c)) bs"
    using inv(1) filter_range_linked [OF lk s(2,3)] linked_order_by [OF lb]
    by (simp add: chain_rows_lookup audit_inv_def chain_core_def s(1))
  obtain r1 where st: "verify_start f db t lo (new_verification t lo hi now) = (r1, chain_end [] as)"
    "cv_valid r1" "cv_failures r1 = []" "cv_checked r1 = 0" "cv_from r1 = lo" "cv_to r1 = hi"
  proof (cases "as = []")
    case True
    then show ?thesis using s(2) by (intro that [of "new_verification t lo hi now"]) (simp_all add: verify_start_def chain_end_def)
  next
    case False
    then show ?thesis using s(2) previous_entry [OF lk False s(2)] f
      by (intro that [of "(new_verification t lo hi now)\<lparr>cv_start := ce_chain_hash (last as)\<rparr>"]) (simp_all add: verify_start_def chain_end_def filter_entries_of s(1) query_row_def)
  qed
  note good = linked_rows_good [OF lb backed inv(2)]
  have "r = fst (fold (verify_row sha) (map (\<lambda>c. (c, lookup_event db c)) bs) (r1, chain_end [] as, lo))"
    unfolding rows(7) cr st(1) using verify_entries_good [OF good, of hi r1] s(3) by simp
  moreover have "int (length bs) = hi - lo + 1" using s(3) by simp
  ultimately show ?thesis using fold_verify_good [OF good, of r1] st(2-) rows(1,2) by (simp add: Let_def)
qed

section \<open>What the verifier accepts is a chain\<close>

lemma verify_row_persistent: "cv_valid (fst (verify_row sha row st)) \<Longrightarrow> cv_valid (fst st)"
  by (cases st) (simp add: verify_row_valid)

lemma fold_verify_persistent: "cv_valid (fst (fold (verify_row sha) rows st)) \<Longrightarrow> cv_valid (fst st)"
proof (induction rows arbitrary: st)
  case (Cons row rows)
  from Cons.IH [of "verify_row sha row st"] Cons.prems have "cv_valid (fst (verify_row sha row st))" by simp
  then show ?case by (rule verify_row_persistent)
qed simp

text \<open>The sequences of the rows increase strictly from \<open>n\<close> on.\<close>

fun increasing_from :: "int \<Rightarrow> int list \<Rightarrow> bool" where
  "increasing_from n [] \<longleftrightarrow> True"
| "increasing_from n (x # xs) \<longleftrightarrow> n \<le> x \<and> increasing_from (x + 1) xs"

lemma fold_valid_good:
  assumes "cv_valid (fst (fold (verify_row sha) rows (r, p, n)))"
    and "increasing_from n (map (ce_sequence \<circ> fst) rows)"
  shows "rows_good sha p n rows"
  using assms
proof (induction rows arbitrary: r p n)
  case Nil
  then show ?case by simp
next
  case (Cons row rows)
  have "cv_valid (fst (verify_row sha row (r, p, n)))"
    using Cons.prems(1) by (auto dest: fold_verify_persistent)
  then have g: "row_good sha row p" "ce_sequence (fst row) = n"
    using Cons.prems(2) by (simp_all add: verify_row_valid)
  obtain r1 where s: "verify_row sha row (r, p, n) = (r1, ce_chain_hash (fst row), n + 1)"
    using verify_row_good [OF g, of r] by (metis prod.collapse)
  show ?case using Cons.prems g Cons.IH [of r1 "ce_chain_hash (fst row)" "n + 1"] by (simp add: s)
qed

lemma increasing_from_sorted:
  "sorted xs \<Longrightarrow> distinct xs \<Longrightarrow> (\<And>x. x \<in> set xs \<Longrightarrow> n \<le> x) \<Longrightarrow> increasing_from n xs"
proof (induction xs arbitrary: n)
  case Nil
  then show ?case by simp
next
  case (Cons x xs)
  have "x + 1 \<le> y" if "y \<in> set xs" for y
  proof -
    have "x \<le> y" "x \<noteq> y" using Cons.prems(1,2) that by auto
    then show ?thesis by simp
  qed
  with Cons show ?case by simp
qed

lemma increasing_from_length:
  "increasing_from n xs \<Longrightarrow> (\<And>x. x \<in> set xs \<Longrightarrow> x \<le> m) \<Longrightarrow> n \<le> m + 1 \<Longrightarrow> n + int (length xs) \<le> m + 1"
proof (induction xs arbitrary: n)
  case Nil
  then show ?case by simp
next
  case (Cons x xs)
  have "x + 1 + int (length xs) \<le> m + 1" using Cons.prems by (intro Cons.IH) simp_all
  with Cons.prems(1) show ?case by simp
qed

text \<open>The entries of a tenant with sequences from \<open>lo\<close> to \<open>hi\<close>, in order.\<close>

definition segment :: "'a audit_db_scheme \<Rightarrow> string \<Rightarrow> int \<Rightarrow> int \<Rightarrow> chain_entry list" where
  "segment db t lo hi = order_by ce_sequence
     (filter (\<lambda>c. lo \<le> ce_sequence c \<and> ce_sequence c \<le> hi) (entries_of db t))"

lemma rows_good_linked:
  assumes "rows_good sha p n (map (\<lambda>c. (c, lookup_event db c)) es)"
  shows "linked sha p n es" and "\<And>c. c \<in> set es \<Longrightarrow> row_good sha (c, lookup_event db c) (ce_previous c)"
proof -
  have "linked sha p n es \<and> (\<forall>c \<in> set es. row_good sha (c, lookup_event db c) (ce_previous c))"
    using assms
  proof (induction es arbitrary: p n)
    case Nil
    then show ?case by simp
  next
    case (Cons c es)
    then have g: "row_good sha (c, lookup_event db c) p" "ce_sequence c = n"
      "rows_good sha (ce_chain_hash c) (n + 1) (map (\<lambda>c. (c, lookup_event db c)) es)" by simp_all
    have "ce_previous c = p" "ce_chain_hash c = chain_hash sha p (ce_event_hash c)"
      "ce_version c = canonicalization_version" using g(1) by (simp_all add: row_good_def)
    with g Cons.IH [OF g(3)] show ?case unfolding linked.simps by auto
  qed
  then show "linked sha p n es" "\<And>c. c \<in> set es \<Longrightarrow> row_good sha (c, lookup_event db c) (ce_previous c)"
    by auto
qed

lemma row_good_backed:
  assumes "row_good sha (c, lookup_event db c) p" and "distinct (map ae_id (audit_events db))" "ids_named db"
  shows "entry_backed sha db c"
proof (cases "lookup_event db c")
  case None
  then have "ce_state c = ''retained''" using assms(1) by (simp add: row_good_def)
  then show ?thesis using None [unfolded lookup_event_None] unfolding entry_backed_def by blast
next
  case (Some a)
  note a = lookup_event_Some [OF Some]
  have inj: "inj_on ae_id (set (audit_events db))" using assms(2) by (simp add: distinct_map)
  have "b = a" if "b \<in> set (audit_events db)" "ae_id b = ce_event_id c" for b
    by (rule inj_onD [OF inj]) (use that a in simp_all)
  moreover have "ae_id a \<noteq> []" using a assms(3) unfolding ids_named_def by blast
  then have "event_hash sha a = ce_event_hash c" using assms(1) by (simp add: row_good_def Some)
  ultimately show ?thesis using a unfolding entry_backed_def by blast
qed

lemma verify_start_valid:
  assumes "verify_start f db t lo r0 = (r1, p)" and "cv_valid r1" and "cv_start r0 = []"
  shows "p = cv_start r1 \<and> cv_from r1 = cv_from r0 \<and> cv_to r1 = cv_to r0 \<and> cv_checked r1 = cv_checked r0"
  using assms by (auto simp: verify_start_def split: if_splits sum.splits)

lemma verify_sound:
  assumes run: "verify_audit_chain sha f now db t rf rt = Inr r" and ok: "cv_valid r" "0 < cv_checked r"
    and keys: "distinct (map ae_id (audit_events db))" "distinct (map ce_sequence (entries_of db t))"
    and ids: "ids_named db"
  defines "seg \<equiv> segment db t (cv_from r) (cv_to r)"
  shows "linked sha (cv_start r) (cv_from r) seg \<and> int (length seg) = cv_to r - cv_from r + 1
    \<and> cv_checked r = length seg \<and> cv_end r = chain_end (cv_start r) seg
    \<and> (\<forall>c \<in> set seg. entry_backed sha db c)"
  using run
proof (cases rule: verify_cases)
  case trivial
  then show ?thesis using ok(2) by simp
next
  case (rows v lo hi)
  let ?es = "segment db t lo hi"
  let ?rs = "map (\<lambda>c. (c, lookup_event db c)) ?es"
  obtain r1 p where st: "verify_start f db t lo (new_verification t lo hi now) = (r1, p)" by fastforce
  have cr: "chain_rows db t lo hi = ?rs" by (simp add: chain_rows_lookup [OF keys(1)] segment_def)
  have es: "c \<in> set ?es \<Longrightarrow> lo \<le> ce_sequence c \<and> ce_sequence c \<le> hi" for c by (simp add: segment_def)
  obtain r2 q ex where fo: "fold (verify_row sha) ?rs (r1, p, lo) = (r2, q, ex)" using prod_cases3 by blast
  have r: "r = missing_entries ex (hi + 1) r2" using rows(7) by (simp add: cr st verify_entries_def fo)
  have v2: "cv_valid r2" "hi + 1 \<le> ex" using ok(1) by (simp_all add: r)
  have req: "r = r2" using v2(2) by (simp add: r missing_entries_none)
  have "sorted (map ce_sequence ?es)" by (simp add: segment_def order_by_def)
  moreover have "distinct (map ce_sequence ?es)"
    using keys(2) by (auto simp: segment_def order_by_def distinct_map intro: inj_on_subset)
  ultimately have inc: "increasing_from lo (map ce_sequence ?es)"
    using es by (intro increasing_from_sorted) auto
  have good: "rows_good sha p lo ?rs"
    by (rule fold_valid_good [of sha ?rs r1 p lo]) (use fo v2 inc in \<open>simp_all add: comp_def\<close>)
  note F = fold_verify_good [OF good, of r1, unfolded fo]
  have "cv_valid r1" using F v2(1) by (simp add: Let_def)
  note S = verify_start_valid [OF st this]
  have "lo + int (length ?es) \<le> hi + 1"
    using increasing_from_length [OF inc, of hi] es rows(4) by auto
  moreover have "ex = lo + int (length ?es)" using F by simp
  ultimately have len: "int (length ?es) = hi - lo + 1" using v2(2) by simp
  have sel: "cv_from r = lo" "cv_to r = hi" "cv_start r = p" "cv_checked r = length ?es"
    using F S req by (simp_all add: Let_def)
  have "?rs \<noteq> []" using len rows(4) by auto
  then have "cv_end r2 = chain_end p (map fst ?rs)" using F unfolding Let_def fst_conv by presburger
  moreover have "map fst ?rs = ?es" by (simp add: comp_def)
  ultimately have end': "cv_end r = chain_end p ?es" using req by simp
  have backed: "\<forall>c \<in> set ?es. entry_backed sha db c"
    using row_good_backed [OF rows_good_linked(2) [OF good] keys(1) ids] by blast
  show ?thesis unfolding seg_def sel(1-3)
    using rows_good_linked(1) [OF good] len sel(4) end' backed by blast
qed

section \<open>What an end hash commits to\<close>

text \<open>Everything that was hashed to build a database's chain.\<close>

definition hashed_inputs :: "'a audit_db_scheme \<Rightarrow> string set" where
  "hashed_inputs db = canonical_event ` set (audit_events db)
     \<union> (\<lambda>c. chain_input (ce_previous c) (ce_event_hash c)) ` set (chain_entries db)"

lemma linked_snocD:
  assumes "linked sha p n (es @ [e])"
  shows "linked sha p n es \<and> ce_previous e = chain_end p es
    \<and> ce_chain_hash e = sha256_text sha (chain_input (ce_previous e) (ce_event_hash e))"
  using assms by (simp add: linked_append chain_hash_def)

lemma linked_commits:
  assumes "linked sha p n es" "linked sha q m fs" and "length es = length fs" "chain_end p es = chain_end q fs"
    and "inj_on sha S" "\<And>c. c \<in> set es \<union> set fs \<Longrightarrow> chain_input (ce_previous c) (ce_event_hash c) \<in> S"
  shows "p = q \<and> map ce_event_hash es = map ce_event_hash fs"
  using assms(1-4,6)
proof (induction es arbitrary: fs rule: rev_induct)
  case Nil
  then show ?case by (simp add: chain_end_def)
next
  case (snoc e es)
  then obtain f fs' where fs: "fs = fs' @ [f]" by (metis append_Nil2 append_eq_conv_conj length_append_singleton
        list.size(3) nat.distinct(1) rev_exhaust)
  note E = linked_snocD [OF snoc.prems(1)] and F = linked_snocD [OF snoc.prems(2) [unfolded fs]]
  have "sha256_text sha (chain_input (ce_previous e) (ce_event_hash e))
      = sha256_text sha (chain_input (ce_previous f) (ce_event_hash f))"
    using snoc.prems(4) E F by (simp add: fs)
  then have "chain_input (ce_previous e) (ce_event_hash e) = chain_input (ce_previous f) (ce_event_hash f)"
    by (rule sha256_text_inj [OF assms(5), rotated 2]) (use snoc.prems(5) in \<open>simp_all add: fs\<close>)
  then have "ce_previous e = ce_previous f" "ce_event_hash e = ce_event_hash f"
    by (auto dest: chain_input_inj)
  moreover have "p = q \<and> map ce_event_hash es = map ce_event_hash fs'"
    by (rule snoc.IH) (use snoc.prems(3,5) E F calculation in \<open>auto simp: fs\<close>)
  ultimately show ?case by (simp add: fs)
qed

lemma set_segment: "c \<in> set (segment db t lo hi) \<Longrightarrow> c \<in> set (chain_entries db)"
  by (simp add: segment_def entries_of_def)

lemma segments_commit:
  assumes "linked sha p n (segment db t lo hi)" "linked sha q m (segment db' t' lo' hi')"
    and "length (segment db t lo hi) = length (segment db' t' lo' hi')"
    and "chain_end p (segment db t lo hi) = chain_end q (segment db' t' lo' hi')"
    and "inj_on sha (hashed_inputs db \<union> hashed_inputs db')"
  shows "p = q \<and> map ce_event_hash (segment db t lo hi) = map ce_event_hash (segment db' t' lo' hi')"
  by (rule linked_commits [OF assms]) (auto simp: hashed_inputs_def dest: set_segment)

lemma events_commit:
  assumes "a \<in> set (audit_events db)" "b \<in> set (audit_events db')" "event_hash sha a = event_hash sha b"
    and "inj_on sha (hashed_inputs db \<union> hashed_inputs db')" "0 \<le> ae_occurred_at a" "0 \<le> ae_occurred_at b"
  shows "a = b"
proof -
  have "canonical_event a = canonical_event b"
    by (rule sha256_text_inj [OF assms(4)]) (use assms(1-3) in \<open>auto simp: hashed_inputs_def event_hash_def\<close>)
  then show ?thesis by (rule canonical_event_inj [OF _ assms(5,6)])
qed

section \<open>Anchors\<close>

lemma delete_after_put:
  "(bucket, key) \<notin> fst ` set objs \<Longrightarrow> f ''delete'' = None \<Longrightarrow>
   delete_object f bucket key (put_object bucket key body objs) = objs"
  by (force simp: delete_object_def put_object_def filter_id_conv)

lemma create_anchor_error:
  assumes "create_audit_chain_anchor sha f now bucket aid eid cid (db, objs) t act req = ((db', objs'), Inl e)"
  shows "db' = db \<and> ((\<forall>b. bucket = Some b \<longrightarrow> (b, audit_anchor_key t aid) \<notin> fst ` set objs)
    \<longrightarrow> f ''delete'' = None \<longrightarrow> objs' = objs)"
  using assms
  by (auto simp: create_audit_chain_anchor_def Let_def delete_after_put dest: run_tx_error
      split: sum.splits if_splits option.splits prod.splits)

lemma create_anchor_ok:
  assumes "create_audit_chain_anchor sha f now bucket aid eid cid (db, objs) t act req = ((db', objs'), Inr a)"
  shows "\<exists>v. verify_audit_chain sha f now db t (ar_from req) (ar_to req) = Inr v \<and> cv_valid v \<and> 0 < cv_checked v
    \<and> ca_tenant a = t \<and> ca_from a = cv_from v \<and> ca_to a = cv_to v \<and> ca_chain_hash a = cv_end v"
proof -
  obtain v where v: "verify_audit_chain sha f now db t (ar_from req) (ar_to req) = Inr v"
    "cv_valid v" "0 < cv_checked v"
    using assms by (auto simp: create_audit_chain_anchor_def split: sum.splits if_splits)
  then show ?thesis using assms
    by (auto simp: create_audit_chain_anchor_def Let_def run_tx_ok insert_anchor_def
        split: sum.splits if_splits option.splits prod.splits)
qed

section \<open>Properties\<close>

text \<open>
  C10. Completeness of verification: on every database reachable from an empty audit log by
  recording events, backfilling and applying retention, with any statements failing on the way,
  \<open>VerifyAuditChain\<close> reports a valid chain with no failure, for every tenant and every range.
\<close>

theorem reachable_chain_verifies:
  fixes db :: "'a audit_db_scheme"
  assumes "reachable audit_start (audit_step sha) db"
  shows "\<exists>r. verify_audit_chain sha no_faults now db t rf rt = Inr r \<and> cv_valid r \<and> cv_failures r = []"
proof -
  have inv: "audit_inv sha db" "ids_named db" using audit_log.reachable_inv [OF assms] by simp_all
  obtain v where v: "get_audit_chain_head no_faults db t = Inr v"
    by (cases "filter (\<lambda>h. ch_tenant h = t) (chain_heads db)"; cases "order_by (\<lambda>a. (- ca_to a, - ca_created_at a))
         (filter (\<lambda>a. ca_tenant a = t) (chain_anchors db))")
      (auto simp: get_audit_chain_head_def head_view_rest_def)
  obtain lo hi where "verify_range (hv_sequence v) rf rt = (lo, hi)" by fastforce
  with v have "\<exists>r. verify_audit_chain sha no_faults now db t rf rt = Inr r"
    by (cases "hv_sequence v = 0 \<or> hi < lo") (simp_all add: verify_audit_chain_def query_rows_def)
  then show ?thesis using verify_complete [OF _ inv] by blast
qed

definition sample_chain_db :: audit_db where
  "sample_chain_db = fst (record_audit_event rev no_faults 5000 ''a1'' ''c1'' sample_audit_input sample_audit_db)"

lemma sample_chain_reachable: "reachable audit_start (audit_step rev) sample_chain_db"
proof -
  have "reachable audit_start (audit_step rev) sample_audit_db"
    using sample_audit_start by (rule reach_start)
  moreover have "audit_step rev sample_audit_db sample_chain_db"
    unfolding sample_chain_db_def by (rule step_record) (rule sample_audit_fresh | simp)+
  ultimately show ?thesis by (rule reach_step)
qed

theorem reachable_chain_verifies_witness:
  "\<exists>r. verify_audit_chain rev no_faults 0 sample_chain_db ''t'' 0 0 = Inr r \<and> cv_valid r \<and> cv_failures r = []"
  using reachable_chain_verifies [OF sample_chain_reachable] by blast

text \<open>
  C11. Soundness of verification: when \<open>VerifyAuditChain\<close> reports a valid range, the tenant's
  entries in that range have no gap, each links to the hash of its predecessor (the first one to
  the reported start hash), the reported end hash is that of the last one, and every entry is
  backed by a stored event with the recorded hash or is marked retained. It needs only the
  uniqueness of event identifiers and of sequences that the tables declare.
\<close>

theorem verify_audit_chain_sound:
  assumes "verify_audit_chain sha f now db t rf rt = Inr r" "cv_valid r" "0 < cv_checked r"
    and "distinct (map ae_id (audit_events db))" "distinct (map ce_sequence (entries_of db t))" "ids_named db"
  shows "linked sha (cv_start r) (cv_from r) (segment db t (cv_from r) (cv_to r))
    \<and> int (length (segment db t (cv_from r) (cv_to r))) = cv_to r - cv_from r + 1
    \<and> cv_end r = chain_end (cv_start r) (segment db t (cv_from r) (cv_to r))
    \<and> (\<forall>c \<in> set (segment db t (cv_from r) (cv_to r)). entry_backed sha db c)"
  using verify_sound [OF assms] by blast

lemma sample_chain_head: "\<exists>v. get_audit_chain_head no_faults sample_chain_db ''t'' = Inr v \<and> hv_sequence v = 1"
  by (simp add: sample_chain_db_def sample_audit_db_def record_audit_event_def record_audit_event_tx_def
      run_tx_def then_tx_def bind_tx_def insert_audit_event_def try_tx_def ensure_audit_chain_head_def
      exec_tx_def read_tx_def insert_audit_chain_entry_def update_head_def return_tx_def Let_def
      sample_audit_input_def wrap64_def get_audit_chain_head_def head_view_rest_def order_by_def)

lemma sample_chain_runs: "\<exists>r. verify_audit_chain rev no_faults 0 sample_chain_db ''t'' 0 0 = Inr r"
proof -
  obtain v where "get_audit_chain_head no_faults sample_chain_db ''t'' = Inr v" "hv_sequence v = 1"
    using sample_chain_head by blast
  then show ?thesis by (simp add: verify_audit_chain_def query_rows_def verify_range_def)
qed

lemma sample_chain_checked:
  assumes "verify_audit_chain rev no_faults 0 sample_chain_db ''t'' 0 0 = Inr r"
  shows "0 < cv_checked r \<and> cv_from r = 1 \<and> cv_to r = 1 \<and> cv_valid r"
proof -
  have inv: "audit_inv rev sample_chain_db" "ids_named sample_chain_db"
    using audit_log.reachable_inv [OF sample_chain_reachable] by simp_all
  obtain v where "get_audit_chain_head no_faults sample_chain_db ''t'' = Inr v" "hv_sequence v = 1"
    using sample_chain_head by blast
  moreover have "verify_range 1 0 0 = (1, 1)" by (simp add: verify_range_def)
  ultimately show ?thesis using verify_complete [OF assms inv] by fastforce
qed

lemma sample_chain_keys:
  "distinct (map ae_id (audit_events sample_chain_db))" "distinct (map ce_sequence (entries_of sample_chain_db ''t''))"
  "ids_named sample_chain_db"
proof -
  have inv: "audit_inv rev sample_chain_db" "ids_named sample_chain_db"
    using audit_log.reachable_inv [OF sample_chain_reachable] by simp_all
  then have "linked rev [] 1 (entries_of sample_chain_db ''t'')" by (simp add: audit_inv_def chain_core_def)
  from linked_sequences [OF this] inv
  show "distinct (map ae_id (audit_events sample_chain_db))" "distinct (map ce_sequence (entries_of sample_chain_db ''t''))"
    "ids_named sample_chain_db" by (simp_all add: audit_inv_def chain_core_def)
qed

theorem verify_audit_chain_sound_witness:
  "\<exists>r. verify_audit_chain rev no_faults 0 sample_chain_db ''t'' 0 0 = Inr r
     \<and> linked rev (cv_start r) 1 (segment sample_chain_db ''t'' 1 1)
     \<and> length (segment sample_chain_db ''t'' 1 1) = 1"
proof -
  obtain r where r: "verify_audit_chain rev no_faults 0 sample_chain_db ''t'' 0 0 = Inr r"
    using sample_chain_runs by blast
  note c = sample_chain_checked [OF r]
  from verify_audit_chain_sound [OF r _ _ sample_chain_keys] c r show ?thesis by auto
qed

text \<open>
  C12. An end hash commits to history. If two databases (say, a live one and one restored or
  tampered with) both verify over ranges of the same length and report the same end hash, then
  they report the same start hash and the same event hashes in the same order, and every event
  still present in both at a position is the same event, field by field; unless SHA-256 collides
  on something that was hashed. An auditor who keeps one anchored end hash detects any change
  before it.
\<close>

theorem end_hash_commits:
  fixes db :: "'a audit_db_scheme" and db' :: "'b audit_db_scheme"
  assumes "verify_audit_chain sha f now db t rf rt = Inr r" "cv_valid r" "0 < cv_checked r"
    and "verify_audit_chain sha f' now' db' t' rf' rt' = Inr r'" "cv_valid r'" "0 < cv_checked r'"
    and "distinct (map ae_id (audit_events db))" "distinct (map ce_sequence (entries_of db t))" "ids_named db"
    and "distinct (map ae_id (audit_events db'))" "distinct (map ce_sequence (entries_of db' t'))" "ids_named db'"
    and "inj_on sha (hashed_inputs db \<union> hashed_inputs db')"
    and "cv_checked r = cv_checked r'" "cv_end r = cv_end r'"
  defines "es \<equiv> segment db t (cv_from r) (cv_to r)" and "fs \<equiv> segment db' t' (cv_from r') (cv_to r')"
  shows "cv_start r = cv_start r' \<and> map ce_event_hash es = map ce_event_hash fs
    \<and> (\<forall>i a b. i < length es \<and> lookup_event db (es ! i) = Some a \<and> lookup_event db' (fs ! i) = Some b
         \<and> 0 \<le> ae_occurred_at a \<and> 0 \<le> ae_occurred_at b \<longrightarrow> a = b)"
proof -
  note V = verify_sound [OF assms(1-3,7-9), folded es_def] and W = verify_sound [OF assms(4-6,10-12), folded fs_def]
  have len: "length es = length fs" using V W assms(14) by simp
  have hs: "cv_start r = cv_start r' \<and> map ce_event_hash es = map ce_event_hash fs"
    unfolding es_def fs_def
    by (rule segments_commit [OF _ _ _ _ assms(13)]) (use V W len assms(15) in \<open>auto simp: es_def fs_def\<close>)
  have "a = b" if i: "i < length es" and a: "lookup_event db (es ! i) = Some a"
    and b: "lookup_event db' (fs ! i) = Some b" and t: "0 \<le> ae_occurred_at a" "0 \<le> ae_occurred_at b" for i a b
  proof -
    have "entry_backed sha db (es ! i)" "entry_backed sha db' (fs ! i)"
      using V W i len by (simp_all add: es_def fs_def)
    then have "event_hash sha a = ce_event_hash (es ! i)" "event_hash sha b = ce_event_hash (fs ! i)"
      using lookup_event_Some [OF a] lookup_event_Some [OF b] by (simp_all add: entry_backed_def)
    moreover have "ce_event_hash (es ! i) = ce_event_hash (fs ! i)" using hs i len by (metis nth_map)
    ultimately have "event_hash sha a = event_hash sha b" by simp
    then show ?thesis using lookup_event_Some [OF a] lookup_event_Some [OF b] t
      by (intro events_commit [OF _ _ _ assms(13)]) auto
  qed
  with hs show ?thesis by blast
qed

theorem end_hash_commits_witness:
  "\<exists>r. verify_audit_chain rev no_faults 0 sample_chain_db ''t'' 0 0 = Inr r
     \<and> map ce_event_hash (segment sample_chain_db ''t'' (cv_from r) (cv_to r))
       = map ce_event_hash (segment sample_chain_db ''t'' (cv_from r) (cv_to r)) \<and> cv_checked r > 0"
proof -
  obtain r where r: "verify_audit_chain rev no_faults 0 sample_chain_db ''t'' 0 0 = Inr r"
    using sample_chain_runs by blast
  note c = sample_chain_checked [OF r]
  have "inj_on rev (hashed_inputs sample_chain_db \<union> hashed_inputs sample_chain_db)" by (simp add: inj_on_def)
  from end_hash_commits [OF r _ _ r _ _ sample_chain_keys sample_chain_keys this] c r show ?thesis by auto
qed

text \<open>
  Creating an anchor is atomic and only anchors verified history: an error leaves the
  database as it was, and leaves no object behind when the object's deletion succeeds; a created
  anchor records the range and the end hash of a successful verification of at least one entry.
\<close>

theorem create_anchor_atomic:
  assumes "create_audit_chain_anchor sha f now bucket aid eid cid (db, objs) t act req = ((db', objs'), res)"
  shows "case res of
      Inl e \<Rightarrow> db' = db \<and> ((\<forall>b. bucket = Some b \<longrightarrow> (b, audit_anchor_key t aid) \<notin> fst ` set objs)
          \<longrightarrow> f ''delete'' = None \<longrightarrow> objs' = objs)
    | Inr a \<Rightarrow> \<exists>v. verify_audit_chain sha f now db t (ar_from req) (ar_to req) = Inr v \<and> cv_valid v
          \<and> 0 < cv_checked v \<and> ca_tenant a = t \<and> ca_from a = cv_from v \<and> ca_to a = cv_to v \<and> ca_chain_hash a = cv_end v"
  using assms create_anchor_error [of sha f now bucket aid eid cid db objs t act req db' objs']
    create_anchor_ok [of sha f now bucket aid eid cid db objs t act req db' objs']
  by (cases res) auto

theorem create_anchor_atomic_witness:
  "fst (create_audit_chain_anchor rev no_faults 5 None ''x'' ''a2'' ''c2'' (sample_audit_db, []) ''t'' ''u''
      \<lparr> ar_from = 0, ar_to = 0, ar_reason = ''r'' \<rparr>) = (sample_audit_db, [])"
proof -
  have e: "create_audit_chain_anchor rev no_faults 5 None ''x'' ''a2'' ''c2'' (sample_audit_db, []) ''t'' ''u''
      \<lparr> ar_from = 0, ar_to = 0, ar_reason = ''r'' \<rparr>
    = ((sample_audit_db, []), Inl (ErrInvalidInput ''audit chain range is not verifiable''))"
    by (simp add: create_audit_chain_anchor_def verify_audit_chain_def get_audit_chain_head_def
        head_view_rest_def sample_audit_db_def order_by_def verify_range_def new_verification_def)
  from create_anchor_atomic [OF e] e show ?thesis by simp
qed

end
