(* ===== verification/Sql_Tables.thy ===== *)
theory Sql_Tables
  imports Sql_Store
begin

text \<open>
  The statements the delivery engine repeats on its tables: an insert that respects the primary
  key, an update by condition, an update that returns the row it changed, and the translation of
  \<open>pgx.ErrNoRows\<close>. A table is named by its selector and its update function of the database
  record. The claim of the due rows of a queue, which the outbox and the deliveries share, is
  \<open>claim_order\<close>: urgent rows first, then the tenants in turn, each with its oldest rows first.
\<close>

section \<open>Statements\<close>

definition insert_row ::
    "faults \<Rightarrow> string \<Rightarrow> ('r \<Rightarrow> 'k) \<Rightarrow> ('s \<Rightarrow> 'r list) \<Rightarrow> (('r list \<Rightarrow> 'r list) \<Rightarrow> 's \<Rightarrow> 's) \<Rightarrow> 'r \<Rightarrow> ('s, unit) tx" where
  "insert_row f lbl key table upd r = try_tx f lbl (\<lambda>db.
     if key r \<in> key ` set (table db) then Inl (ErrOther lbl) else Inr (upd (\<lambda>rows. rows @ [r]) db, ()))"

definition update_rows ::
    "faults \<Rightarrow> string \<Rightarrow> (('r list \<Rightarrow> 'r list) \<Rightarrow> 's \<Rightarrow> 's) \<Rightarrow> ('r \<Rightarrow> bool) \<Rightarrow> ('r \<Rightarrow> 'r) \<Rightarrow> ('s, unit) tx" where
  "update_rows f lbl upd p g = exec_tx f lbl (upd (update_where p g))"

text \<open>\<open>QueryRow(UPDATE ... RETURNING ...).Scan\<close>.\<close>

definition update_returning ::
    "faults \<Rightarrow> string \<Rightarrow> ('s \<Rightarrow> 'r list) \<Rightarrow> (('r list \<Rightarrow> 'r list) \<Rightarrow> 's \<Rightarrow> 's) \<Rightarrow> ('r \<Rightarrow> bool) \<Rightarrow> ('r \<Rightarrow> 'r) \<Rightarrow> ('s, 'r) tx" where
  "update_returning f lbl table upd p g = try_tx f lbl (\<lambda>db.
     case filter p (table db) of [] \<Rightarrow> Inl ErrNoRows
     | r # _ \<Rightarrow> Inr (upd (update_where p g) db, g r))"

text \<open>\<open>errors.Is(err, pgx.ErrNoRows)\<close> answered by \<open>app.ErrNotFound\<close>.\<close>

definition no_rows_not_found :: "'a res \<Rightarrow> 'a res" where
  "no_rows_not_found r = (case r of Inl ErrNoRows \<Rightarrow> Inl ErrNotFound | _ \<Rightarrow> r)"

definition not_found_tx :: "('s, 'a) tx \<Rightarrow> ('s, 'a) tx" where
  "not_found_tx m = (\<lambda>s. no_rows_not_found (m s))"

lemma insert_row_Inr [simp]:
  "insert_row f lbl key table upd r s = Inr (s', u) \<longleftrightarrow>
   f lbl = None \<and> key r \<notin> key ` set (table s) \<and> s' = upd (\<lambda>rows. rows @ [r]) s"
  by (auto simp: insert_row_def try_tx_def split: option.splits)

lemma update_rows_Inr [simp]:
  "update_rows f lbl upd p g s = Inr (s', u) \<longleftrightarrow> f lbl = None \<and> s' = upd (update_where p g) s"
  by (simp add: update_rows_def)

lemma update_returning_Inr [simp]:
  "update_returning f lbl table upd p g s = Inr (s', r) \<longleftrightarrow>
   f lbl = None \<and> (\<exists>x xs. filter p (table s) = x # xs \<and> r = g x) \<and> s' = upd (update_where p g) s"
  by (auto simp: update_returning_def try_tx_def split: option.splits list.splits)

lemma no_rows_not_found_Inr [simp]: "no_rows_not_found r = Inr x \<longleftrightarrow> r = Inr x"
  by (auto simp: no_rows_not_found_def split: sum.splits go_error.splits)

lemma not_found_tx_Inr [simp]: "not_found_tx m s = Inr r \<longleftrightarrow> m s = Inr r"
  by (simp add: not_found_tx_def)

lemma tx_preserves_insert [tx_intros]:
  "(\<And>s. I s \<Longrightarrow> key r \<notin> key ` set (table s) \<Longrightarrow> I (upd (\<lambda>rows. rows @ [r]) s)) \<Longrightarrow>
   tx_preserves I (insert_row f lbl key table upd r)"
  by (auto simp: tx_preserves_def)

lemma tx_preserves_update_rows [tx_intros]:
  "(\<And>s. I s \<Longrightarrow> I (upd (update_where p g) s)) \<Longrightarrow> tx_preserves I (update_rows f lbl upd p g)"
  by (auto simp: tx_preserves_def)

lemma tx_preserves_update_returning [tx_intros]:
  "(\<And>s. I s \<Longrightarrow> I (upd (update_where p g) s)) \<Longrightarrow> tx_preserves I (update_returning f lbl table upd p g)"
  by (auto simp: tx_preserves_def)

lemma tx_preserves_not_found [tx_intros]: "tx_preserves I m \<Longrightarrow> tx_preserves I (not_found_tx m)"
  by (simp add: tx_preserves_def)

lemma tx_preserves_case_prod [tx_intros]:
  "(\<And>a b. tx_preserves I (k a b)) \<Longrightarrow> tx_preserves I (case p of (a, b) \<Rightarrow> k a b)"
  by (cases p) simp

text \<open>The rows an update leaves alone, and the one it changes.\<close>

lemma update_where_keys: "(\<And>r. g (upd r) = g r) \<Longrightarrow> map g (update_where p upd rows) = map g rows"
  by (rule map_update_where) simp

lemma filter_update_where_other:
  "(\<And>r. r \<in> set rows \<Longrightarrow> p r \<Longrightarrow> \<not> q r \<and> \<not> q (upd r)) \<Longrightarrow> filter q (update_where p upd rows) = filter q rows"
  by (induction rows) auto

lemma update_where_unique:
  assumes "distinct (map g rows)" and "r \<in> set rows" and "\<And>x. x \<in> set rows \<Longrightarrow> p x \<longleftrightarrow> g x = g r"
    and "\<And>x. g (upd x) = g x"
  shows "r' \<in> set (update_where p upd rows) \<Longrightarrow> g r' = g r \<Longrightarrow> r' = upd r"
proof -
  assume "r' \<in> set (update_where p upd rows)" and k: "g r' = g r"
  then obtain x where x: "x \<in> set rows" "r' = (if p x then upd x else x)" by (auto simp: set_update_where)
  with k assms(4) have "g x = g r" by (auto split: if_splits)
  with x assms(1,2) have "x = r" by (metis distinct_map inj_onD)
  with x assms(2,3) show ?thesis by simp
qed

lemma filter_unique_key:
  "distinct (map g rows) \<Longrightarrow> r \<in> set rows \<Longrightarrow> filter (\<lambda>x. g x = g r \<and> q x) rows = (if q r then [r] else [])"
proof (induction rows)
  case Nil
  then show ?case by simp
next
  case (Cons x xs)
  show ?case
  proof (cases "x = r")
    case True
    have "g y \<noteq> g r" if "y \<in> set xs" for y using Cons.prems(1) True that by (metis distinct.simps(2) image_eqI list.set_map list.simps(9))
    then have "filter (\<lambda>y. g y = g r \<and> q y) xs = []" by (simp add: filter_empty_conv)
    then show ?thesis using True by simp
  next
    case False
    then have "r \<in> set xs" "g x \<noteq> g r" using Cons.prems by auto
    then show ?thesis using Cons by simp
  qed
qed

section \<open>The claim of due rows\<close>

text \<open>\<open>row_number() OVER (PARTITION BY prio, tenant ORDER BY at ASC, id ASC)\<close>.\<close>

definition claim_rank ::
    "('r \<Rightarrow> 'p) \<Rightarrow> ('r \<Rightarrow> string) \<Rightarrow> ('r \<Rightarrow> int) \<Rightarrow> ('r \<Rightarrow> string) \<Rightarrow> 'r list \<Rightarrow> 'r \<Rightarrow> nat" where
  "claim_rank prio tenant at ident rows r = Suc (length (filter (\<lambda>x. prio x = prio r \<and> tenant x = tenant r
     \<and> (at x, ident x) < (at r, ident r)) rows))"

definition claim_order ::
    "('r \<Rightarrow> 'p::linorder) \<Rightarrow> ('r \<Rightarrow> string) \<Rightarrow> ('r \<Rightarrow> int) \<Rightarrow> ('r \<Rightarrow> string) \<Rightarrow> 'r list \<Rightarrow> 'r list" where
  "claim_order prio tenant at ident rows =
     order_by (\<lambda>r. (prio r, claim_rank prio tenant at ident rows r, at r, tenant r, ident r)) rows"

text \<open>\<open>LIMIT n FOR UPDATE SKIP LOCKED\<close>; \<open>locked\<close> are the rows other transactions hold.\<close>

definition claim_ids ::
    "('r \<Rightarrow> 'p::linorder) \<Rightarrow> ('r \<Rightarrow> string) \<Rightarrow> ('r \<Rightarrow> int) \<Rightarrow> ('r \<Rightarrow> string) \<Rightarrow> (string \<Rightarrow> bool) \<Rightarrow> nat \<Rightarrow>
     'r list \<Rightarrow> string list" where
  "claim_ids prio tenant at ident locked lim rows =
     map ident (take lim (filter (\<lambda>r. \<not> locked (ident r)) (claim_order prio tenant at ident rows)))"

lemma set_claim_order [simp]: "set (claim_order prio tenant at ident rows) = set rows"
  by (simp add: claim_order_def)

lemma claim_ids_in:
  "x \<in> set (claim_ids prio tenant at ident locked lim rows) \<Longrightarrow> \<exists>r \<in> set rows. x = ident r \<and> \<not> locked x"
  by (auto simp: claim_ids_def dest!: in_set_takeD)

lemma length_claim_ids: "length (claim_ids prio tenant at ident locked lim rows) \<le> lim"
  by (simp add: claim_ids_def)

lemma distinct_map_take: "distinct (map g xs) \<Longrightarrow> distinct (map g (take n xs))"
  by (simp add: take_map [symmetric])

lemma distinct_claim_ids:
  assumes "distinct (map ident rows)"
  shows "distinct (claim_ids prio tenant at ident locked lim rows)"
proof -
  have "distinct (map ident (claim_order prio tenant at ident rows))"
    using assms by (simp add: claim_order_def order_by_def distinct_map)
  then show ?thesis by (simp add: claim_ids_def distinct_map_take distinct_map_filter)
qed

text \<open>A set of rows that come before all others is in every prefix that is long enough.\<close>

lemma least_rows_in_prefix:
  assumes "sorted (map k xs)" and "distinct xs" and "S \<subseteq> set xs" and "card S \<le> n"
    and "\<And>s x. s \<in> S \<Longrightarrow> x \<in> set xs \<Longrightarrow> x \<notin> S \<Longrightarrow> k s < (k x :: 'k::linorder)"
  shows "S \<subseteq> set (take n xs)"
proof (rule ccontr)
  assume "\<not> S \<subseteq> set (take n xs)"
  then obtain s where s: "s \<in> S" "s \<notin> set (take n xs)" by blast
  then have sd: "s \<in> set (drop n xs)"
    using assms(3) by (metis Un_iff append_take_drop_id set_append subsetD)
  have le: "k x \<le> k s" if "x \<in> set (take n xs)" for x
  proof -
    have "sorted (map k (take n xs) @ map k (drop n xs))"
      using assms(1) by (simp only: map_append [symmetric] append_take_drop_id)
    then show ?thesis using that sd by (simp add: sorted_append)
  qed
  have "set (take n xs) \<subseteq> S - {s}"
  proof
    fix x assume x: "x \<in> set (take n xs)"
    then have "x \<in> set xs" by (rule in_set_takeD)
    then have "x \<in> S" using assms(5) [OF s(1)] le [OF x] by force
    then show "x \<in> S - {s}" using x s(2) by blast
  qed
  moreover have "finite S" using assms(3) finite_subset by blast
  ultimately have "card (set (take n xs)) < card S"
    using s(1) by (metis card_Diff1_less card_mono finite_Diff le_less_trans)
  moreover have "card (set (take n xs)) = n"
  proof -
    have "n \<le> length xs" using sd by (cases "n \<le> length xs") simp_all
    then show ?thesis using assms(2) by (simp add: distinct_card)
  qed
  ultimately show False using assms(4) by simp
qed

text \<open>
  Tenants take turns: when every row of the most urgent class is free and the limit covers the
  tenants that have such rows, the oldest row of each of them is claimed.
\<close>

definition oldest :: "('r \<Rightarrow> 'p) \<Rightarrow> ('r \<Rightarrow> string) \<Rightarrow> ('r \<Rightarrow> int) \<Rightarrow> ('r \<Rightarrow> string) \<Rightarrow> 'r list \<Rightarrow> 'r \<Rightarrow> bool" where
  "oldest prio tenant at ident rows r \<longleftrightarrow> r \<in> set rows \<and>
     (\<forall>x \<in> set rows. prio x = prio r \<and> tenant x = tenant r \<longrightarrow> (at r, ident r) \<le> (at x, ident x))"

lemma claim_rank_oldest:
  "r \<in> set rows \<Longrightarrow> claim_rank prio tenant at ident rows r = 1 \<longleftrightarrow> oldest prio tenant at ident rows r"
  by (auto simp: claim_rank_def oldest_def filter_empty_conv not_less simp del: less_prod_simp less_eq_prod_simp)

lemma oldest_exists:
  assumes "r \<in> set rows"
  shows "\<exists>x. oldest prio tenant at ident rows x \<and> prio x = prio r \<and> tenant x = tenant r"
proof -
  let ?q = "\<lambda>x. prio x = prio r \<and> tenant x = tenant r"
  have ne: "filter ?q rows \<noteq> []" using assms by (auto simp: filter_empty_conv)
  let ?x = "hd (order_by (\<lambda>x. (at x, ident x)) (filter ?q rows))"
  have x: "?x \<in> set (filter ?q rows)" using ne by (rule hd_order_by_in)
  have "(at ?x, ident ?x) \<le> (at y, ident y)" if "y \<in> set rows" "?q y" for y
    using hd_order_by_least [of y "filter ?q rows" "\<lambda>x. (at x, ident x)"] that by simp
  with x show ?thesis by (auto simp: oldest_def simp del: less_eq_prod_simp)
qed

theorem claim_fair:
  assumes "distinct (map ident rows)" and "\<And>x. x \<in> set rows \<Longrightarrow> prio r \<le> prio x"
    and "\<And>x. x \<in> set rows \<Longrightarrow> prio x = prio r \<Longrightarrow> \<not> locked (ident x)"
    and "card (tenant ` {x \<in> set rows. prio x = prio r}) \<le> lim"
    and "oldest prio tenant at ident rows r"
  shows "ident r \<in> set (claim_ids prio tenant at ident locked lim rows)"
proof -
  let ?k = "\<lambda>r. (prio r, claim_rank prio tenant at ident rows r, at r, tenant r, ident r)"
  let ?xs = "filter (\<lambda>r. \<not> locked (ident r)) (claim_order prio tenant at ident rows)"
  let ?S = "{x. oldest prio tenant at ident rows x \<and> prio x = prio r}"
  have dm: "inj_on ident (set rows)" and d: "distinct rows" using assms(1) by (simp_all add: distinct_map)
  have S: "?S \<subseteq> set ?xs" using assms(3) by (auto simp: oldest_def)
  have "inj_on tenant ?S"
  proof (rule inj_onI)
    fix x y assume x: "x \<in> ?S" and y: "y \<in> ?S" and t: "tenant x = tenant y"
    then have "x \<in> set rows" "y \<in> set rows" "(at x, ident x) \<le> (at y, ident y)" "(at y, ident y) \<le> (at x, ident x)"
      by (auto simp: oldest_def simp del: less_eq_prod_simp)
    then have "x \<in> set rows \<and> y \<in> set rows \<and> ident x = ident y" by (auto simp: antisym_conv)
    then show "x = y" using dm by (auto dest: inj_onD)
  qed
  then have "card ?S = card (tenant ` ?S)" by (simp add: card_image)
  also have "\<dots> \<le> card (tenant ` {x \<in> set rows. prio x = prio r})"
    by (rule card_mono) (auto simp: oldest_def)
  finally have card: "card ?S \<le> lim" using assms(4) by simp
  have less: "?k s < ?k x" if s: "s \<in> ?S" and x: "x \<in> set ?xs" "x \<notin> ?S" for s x
  proof -
    have xr: "x \<in> set rows" using x(1) by simp
    have r1: "claim_rank prio tenant at ident rows s = 1" "prio s = prio r"
      using s claim_rank_oldest [of s rows prio tenant at ident] by (auto simp: oldest_def)
    show ?thesis
    proof (cases "prio x = prio r")
      case True
      then have "claim_rank prio tenant at ident rows x \<noteq> 1"
        using x(2) claim_rank_oldest [OF xr, of prio tenant at ident] by blast
      then have "1 < claim_rank prio tenant at ident rows x" by (simp add: claim_rank_def)
      then show ?thesis using r1 True by simp
    next
      case False
      then show ?thesis using assms(2) [OF xr] r1 by (simp add: order.not_eq_order_implies_strict)
    qed
  qed
  have "sorted (map ?k ?xs)"
    by (simp add: claim_order_def order_by_def sorted_filter)
  moreover have "distinct ?xs" using d by (simp add: claim_order_def order_by_def)
  ultimately have "?S \<subseteq> set (take lim ?xs)" using S card less by (rule least_rows_in_prefix)
  then show ?thesis using assms(5) by (auto simp: claim_ids_def)
qed

end
