(* ===== verification/Gateway_Tables.thy ===== *)
theory Gateway_Tables
  imports Sql_Tables Audit_Chain Retry_Policy
begin

text \<open>
  The tables of the gateway (migrations/), with the columns the modelled statements read or write.
  A database of the ingest side extends the audit tables, the delivery side extends the ingest
  side, and the replay tables extend both, so that an operation of one component is typed by the
  tables it needs. A column that the migrations declare \<open>NOT NULL DEFAULT ''\<close> is a plain string.
\<close>

section \<open>Ingest\<close>

record raw_payload_row =
  rw_id :: string
  rw_tenant :: string
  rw_event :: "string option"
  rw_sha256 :: string
  rw_content_type :: string
  rw_size :: int
  rw_body :: string
  rw_backend :: string
  rw_bucket :: string
  rw_key :: string
  rw_status :: string
  rw_created_at :: gotime

record event_row =
  ev_id :: string
  ev_tenant :: string
  ev_source :: string
  ev_provider :: string
  ev_type :: string
  ev_provider_event :: string
  ev_raw_payload :: string
  ev_raw_hash :: string
  ev_verified :: bool
  ev_reason :: string
  ev_dedupe_key :: string
  ev_dedupe_status :: string
  ev_received_at :: gotime
  ev_trace :: string

record receipt_row =
  rc_id :: string
  rc_tenant :: string
  rc_source :: string
  rc_event :: string
  rc_raw_payload :: string
  rc_headers :: "(string \<times> string) list"
  rc_remote_ip :: string
  rc_verified :: bool
  rc_reason :: string
  rc_received_at :: gotime

record normalized_row =
  nz_id :: string
  nz_tenant :: string
  nz_event :: string
  nz_adapter_version :: string
  nz_provider :: string
  nz_provider_event :: string
  nz_type :: string
  nz_source :: string
  nz_subject :: string
  nz_envelope :: string
  nz_data :: string
  nz_metadata :: string
  nz_envelope_sha256 :: string
  nz_data_sha256 :: string
  nz_metadata_sha256 :: string
  nz_status :: string
  nz_created_at :: gotime

record outbox_row =
  ob_id :: string
  ob_tenant :: string
  ob_kind :: string
  ob_resource :: string
  ob_state :: string
  ob_available_at :: gotime
  ob_locked_by :: "string option"
  ob_lock_expires :: "gotime option"

record dedupe_row =
  dr_tenant :: string
  dr_source :: string
  dr_key :: string
  dr_first_event :: string
  dr_last_receipt :: string
  dr_status :: string
  dr_last_seen :: gotime

record idempotency_row =
  id_tenant :: string
  id_key :: string
  id_resource_type :: string
  id_resource :: string
  id_status_code :: int

record quarantine_row =
  qu_id :: string
  qu_tenant :: string
  qu_event :: string
  qu_reason :: string
  qu_state :: string

record adapter_version_row =
  av_id :: string
  av_tenant :: "string option"
  av_name :: string
  av_state :: string
  av_kind :: string
  av_definition :: string
  av_created_at :: gotime
  av_activated_at :: "gotime option"

record source_row =
  so_id :: string
  so_tenant :: string
  so_name :: string
  so_provider :: string
  so_adapter :: string
  so_state :: string
  so_secret :: string

record source_secret_row =
  ss_tenant :: string
  ss_source :: string
  ss_version :: int
  ss_state :: string
  ss_expires_at :: "gotime option"
  ss_secret :: string

record ingest_db = audit_db +
  tenants :: "string list"
  raw_payloads :: "raw_payload_row list"
  events :: "event_row list"
  receipts :: "receipt_row list"
  normalized_envelopes :: "normalized_row list"
  outbox :: "outbox_row list"
  dedupe_records :: "dedupe_row list"
  idempotency_records :: "idempotency_row list"
  quarantine_entries :: "quarantine_row list"
  adapter_versions :: "adapter_version_row list"
  sources :: "source_row list"
  source_secret_versions :: "source_secret_row list"

text \<open>A new row of the outbox, with the defaults of its columns.\<close>

definition route_event_row :: "gotime \<Rightarrow> string \<Rightarrow> string \<Rightarrow> string \<Rightarrow> string \<Rightarrow> outbox_row" where
  "route_event_row now oid tenant kind resource = \<lparr> ob_id = oid, ob_tenant = tenant, ob_kind = kind, ob_resource = resource,
     ob_state = ''pending'', ob_available_at = now, ob_locked_by = None, ob_lock_expires = None \<rparr>"

section \<open>Delivery\<close>

record endpoint_row =
  ep_id :: string
  ep_tenant :: string
  ep_url :: string
  ep_state :: string
  ep_retry_policy :: string
  ep_mtls_enabled :: bool
  ep_mtls_cert :: "string option"
  ep_mtls_key :: "string option"
  ep_failure_count :: int
  ep_circuit_state :: string
  ep_disabled_until :: "gotime option"

record endpoint_secret_row =
  es_id :: string
  es_tenant :: string
  es_endpoint :: string
  es_version :: int
  es_secret :: string
  es_state :: string

record retry_policy_row =
  rr_id :: string
  rr_tenant :: string
  rr_policy :: retry_policy_request

record delivery_row =
  dv_id :: string
  dv_tenant :: string
  dv_event :: string
  dv_endpoint :: string
  dv_route :: string
  dv_route_version :: string
  dv_subscription :: string
  dv_subscription_version :: string
  dv_retry_policy :: string
  dv_replay_job :: string
  dv_adapter_version :: string
  dv_normalized :: string
  dv_transformation_version :: string
  dv_payload :: string
  dv_retry_seed :: string
  dv_state :: string
  dv_attempt_count :: int
  dv_next_attempt :: "gotime option"
  dv_locked_by :: "string option"
  dv_lock_expires :: "gotime option"
  dv_created_at :: gotime

record delivery_payload_row =
  dp_id :: string
  dp_tenant :: string
  dp_delivery :: string
  dp_event :: string
  dp_normalized :: string
  dp_transformation_version :: string
  dp_content_type :: string
  dp_sha256 :: string
  dp_size :: int
  dp_body :: string
  dp_status :: string

record attempt_row =
  at_id :: string
  at_tenant :: string
  at_delivery :: string
  at_event :: string
  at_endpoint :: string
  at_request_sha256 :: string
  at_response_sha256 :: string
  at_number :: int
  at_state :: string
  at_response_status :: int
  at_response_body :: string
  at_failure_class :: string
  at_retryable :: bool
  at_retry_delay_ms :: int
  at_next_retry :: "gotime option"
  at_completed_at :: gotime

record dead_letter_row =
  dd_id :: string
  dd_tenant :: string
  dd_delivery :: string
  dd_event :: string
  dd_reason :: string
  dd_state :: string

record subscription_row =
  sb_id :: string
  sb_tenant :: string
  sb_endpoint :: string
  sb_event_types :: "string list"
  sb_state :: string
  sb_active_version :: string
  sb_transformation_version :: string

record route_row =
  rt_id :: string
  rt_tenant :: string
  rt_source :: string
  rt_priority :: int
  rt_event_types :: "string list"
  rt_endpoint :: string
  rt_state :: string
  rt_active_version :: string
  rt_retry_policy :: string
  rt_transformation_version :: string

record transformation_version_row =
  tv_id :: string
  tv_tenant :: string
  tv_operations :: string
  tv_state :: string

record delivery_db = ingest_db +
  endpoints :: "endpoint_row list"
  endpoint_secrets :: "endpoint_secret_row list"
  retry_policies :: "retry_policy_row list"
  deliveries :: "delivery_row list"
  delivery_payloads :: "delivery_payload_row list"
  delivery_attempts :: "attempt_row list"
  dead_letter_entries :: "dead_letter_row list"
  subscriptions :: "subscription_row list"
  routes :: "route_row list"
  transformation_versions :: "transformation_version_row list"

section \<open>Replay\<close>

record replay_job_row =
  rj_id :: string
  rj_tenant :: string
  rj_state :: string
  rj_scope :: string
  rj_scope_hash :: string
  rj_reason_code :: string
  rj_reason :: string
  rj_created_by :: string
  rj_total_items :: int
  rj_processed_items :: int
  rj_config_mode :: string
  rj_rate_limit :: int
  rj_approval_required :: bool
  rj_approval_expires :: "gotime option"
  rj_approved_by :: string
  rj_approved_at :: "gotime option"
  rj_approval_reason :: string
  rj_paused_at :: "gotime option"
  rj_canceled_at :: "gotime option"
  rj_completed_at :: "gotime option"

record replay_item_row =
  ry_id :: string
  ry_tenant :: string
  ry_job :: string
  ry_event :: string
  ry_original_delivery :: string
  ry_new_delivery :: string
  ry_state :: string
  ry_config_mode :: string
  ry_route_version :: string
  ry_subscription_version :: string
  ry_retry_policy :: string
  ry_adapter_version :: string
  ry_normalized :: string
  ry_transformation_version :: string
  ry_payload :: string
  ry_payload_sha256 :: string
  ry_error :: string

record replay_receipt_row =
  rx_id :: string
  rx_tenant :: string
  rx_job :: string
  rx_event :: string
  rx_delivery :: string
  rx_config_mode :: string
  rx_route_version :: string
  rx_subscription_version :: string
  rx_retry_policy :: string
  rx_adapter_version :: string
  rx_normalized :: string
  rx_transformation_version :: string
  rx_payload :: string
  rx_payload_sha256 :: string

record replay_approval_policy_row =
  pp_id :: string
  pp_tenant :: string
  pp_scope_type :: string
  pp_scope_id :: string
  pp_require_approval :: bool
  pp_default_expiry_seconds :: int
  pp_state :: string
  pp_updated_at :: gotime

record gateway_db = delivery_db +
  replay_jobs :: "replay_job_row list"
  replay_items :: "replay_item_row list"
  replay_receipts :: "replay_receipt_row list"
  replay_approval_policies :: "replay_approval_policy_row list"

text \<open>\<open>decryptSecret\<close>: tenant, purpose and ciphertext to the plain text.\<close>

type_synonym secret_box = "string \<Rightarrow> string \<Rightarrow> string \<Rightarrow> string res"

section \<open>Leases\<close>

text \<open>\<open>upsertWorkerLease\<close>: every claim renews the lease row named after the worker.\<close>

definition upsert_worker_lease :: "faults \<Rightarrow> gotime \<Rightarrow> string \<Rightarrow> ('a audit_db_scheme, unit) tx" where
  "upsert_worker_lease f now worker_id =
     (let wid = (if worker_id = [] then ''worker'' else worker_id) in
      exec_tx f ''worker_lease'' (\<lambda>db.
        if wid \<in> wl_id ` set (worker_leases db)
        then db\<lparr>worker_leases := update_where (\<lambda>l. wl_id l = wid)
               (\<lambda>l. l\<lparr>wl_worker := wid, wl_expires_at := now + ns_minute, wl_updated_at := now\<rparr>) (worker_leases db)\<rparr>
        else db\<lparr>worker_leases := worker_leases db @ [\<lparr> wl_id = wid, wl_worker = wid,
               wl_expires_at = now + ns_minute, wl_updated_at = now \<rparr>]\<rparr>))"

section \<open>Audit records beside other tables\<close>

text \<open>Recording an audit event or a lease leaves every other table alone.\<close>

lemma audit_steps_keep_more [tx_intros]:
  "tx_preserves (\<lambda>db. audit_db.more db = m) (insert_audit_event f e)"
  "tx_preserves (\<lambda>db. audit_db.more db = m) (ensure_audit_chain_head f now t)"
  "tx_preserves (\<lambda>db. audit_db.more db = m) (insert_audit_chain_entry f c)"
  "tx_preserves (\<lambda>db. audit_db.more db = m) (update_head f now t n h l)"
  by (auto simp: tx_preserves_def insert_audit_event_def ensure_audit_chain_head_def
      insert_audit_chain_entry_def update_head_def split: if_splits)

lemma record_audit_event_tx_more:
  assumes "record_audit_event_tx sha f now eid cid inp db = Inr (db', e)"
  shows "audit_db.more db' = audit_db.more db"
proof -
  have "tx_preserves (\<lambda>s. audit_db.more s = audit_db.more db) (record_audit_event_tx sha f now eid cid inp)"
    unfolding record_audit_event_tx_def Let_def by (intro tx_intros)
  from tx_preservesD [OF this refl assms] show ?thesis .
qed

lemma upsert_worker_lease_more:
  "upsert_worker_lease f now w db = Inr (db', u) \<Longrightarrow> audit_db.more db' = audit_db.more db
     \<and> audit_events db' = audit_events db \<and> chain_entries db' = chain_entries db \<and> chain_heads db' = chain_heads db"
  by (auto simp: upsert_worker_lease_def Let_def)

lemma same_more_form:
  assumes "audit_db.more db' = audit_db.more db"
  obtains a c h x w r where "db' = db\<lparr>audit_events := a, chain_entries := c, chain_heads := h, chain_anchors := x,
     worker_leases := w, retention_run_items := r\<rparr>"
proof (rule that)
  show "db' = db\<lparr>audit_events := audit_events db', chain_entries := chain_entries db', chain_heads := chain_heads db',
     chain_anchors := chain_anchors db', worker_leases := worker_leases db',
     retention_run_items := retention_run_items db'\<rparr>"
    using assms by (intro audit_db.equality) simp_all
qed

lemma same_more_ingest:
  fixes db db' :: "'a ingest_db_scheme"
  assumes "audit_db.more db' = audit_db.more db"
  shows "events db' = events db" "outbox db' = outbox db" "raw_payloads db' = raw_payloads db"
    "normalized_envelopes db' = normalized_envelopes db" "ingest_db.more db' = ingest_db.more db"
  by (rule same_more_form [OF assms]; simp)+

lemma same_more_delivery:
  fixes db db' :: "'a delivery_db_scheme"
  assumes "audit_db.more db' = audit_db.more db"
  shows "deliveries db' = deliveries db" "endpoints db' = endpoints db" "endpoint_secrets db' = endpoint_secrets db"
    "retry_policies db' = retry_policies db" "delivery_payloads db' = delivery_payloads db"
    "delivery_attempts db' = delivery_attempts db" "dead_letter_entries db' = dead_letter_entries db"
  by (rule same_more_form [OF assms]; simp)+

lemma same_more_replay:
  fixes db db' :: "'a gateway_db_scheme"
  assumes "audit_db.more db' = audit_db.more db"
  shows "replay_jobs db' = replay_jobs db" "replay_items db' = replay_items db"
    "replay_receipts db' = replay_receipts db" "replay_approval_policies db' = replay_approval_policies db"
  by (rule same_more_form [OF assms]; simp)+

lemmas same_more = same_more_ingest same_more_delivery same_more_replay

lemma record_audit_event_tx_runs:
  assumes "audit_events db = []" "chain_entries db = []" "chain_heads db = []"
  shows "\<exists>db' e. record_audit_event_tx sha no_faults now eid cid inp db = Inr (db', e)"
  using assms by (simp add: record_audit_event_tx_def Let_def then_tx_def bind_tx_def insert_audit_event_def try_tx_def
      ensure_audit_chain_head_def exec_tx_def read_tx_def insert_audit_chain_entry_def update_head_def return_tx_def compute_entry_def)

end
