(* ===== verification/Go_Base64.thy ===== *)
theory Go_Base64
  imports Go_Numbers
begin

text \<open>
  Package \<open>encoding/base64\<close> as the sources use it: the standard and the URL alphabet, with and
  without padding. The decoder skips carriage returns and line feeds, wants the padding of the
  last quantum when padding is on, and does not look at the unused bits of the last digit.
\<close>

abbreviation byte_of :: "char \<Rightarrow> nat" where "byte_of \<equiv> of_char"

definition b64_char :: "bool \<Rightarrow> nat \<Rightarrow> char" where
  "b64_char u d =
     (if d < 26 then char_of (65 + d) else if d < 52 then char_of (71 + d) else if d < 62 then char_of (d - 4)
      else if d = 62 then (if u then CHR ''-'' else CHR ''+'') else (if u then CHR ''_'' else CHR ''/''))"

definition b64_val :: "bool \<Rightarrow> char \<Rightarrow> nat option" where
  "b64_val u c = (let n = byte_of c in
     if 65 \<le> n \<and> n \<le> 90 then Some (n - 65) else if 97 \<le> n \<and> n \<le> 122 then Some (n - 71)
     else if 48 \<le> n \<and> n \<le> 57 then Some (n + 4)
     else if c = (if u then CHR ''-'' else CHR ''+'') then Some 62
     else if c = (if u then CHR ''_'' else CHR ''/'') then Some 63 else None)"

fun b64_encode :: "bool \<Rightarrow> bool \<Rightarrow> string \<Rightarrow> string" where
  "b64_encode u pad [] = []"
| "b64_encode u pad [x] =
     [b64_char u (byte_of x div 4), b64_char u (byte_of x mod 4 * 16)] @ (if pad then ''=='' else [])"
| "b64_encode u pad [x, y] =
     [b64_char u (byte_of x div 4), b64_char u (byte_of x mod 4 * 16 + byte_of y div 16),
      b64_char u (byte_of y mod 16 * 4)] @ (if pad then ''='' else [])"
| "b64_encode u pad (x # y # z # r) =
     [b64_char u (byte_of x div 4), b64_char u (byte_of x mod 4 * 16 + byte_of y div 16),
      b64_char u (byte_of y mod 16 * 4 + byte_of z div 64), b64_char u (byte_of z mod 64)]
     @ b64_encode u pad r"

definition b64_bytes :: "nat list \<Rightarrow> string" where
  "b64_bytes vs = (case vs of
       [a, b] \<Rightarrow> [char_of (a * 4 + b div 16)]
     | [a, b, c] \<Rightarrow> [char_of (a * 4 + b div 16), char_of (b mod 16 * 16 + c div 4)]
     | [a, b, c, d] \<Rightarrow> [char_of (a * 4 + b div 16), char_of (b mod 16 * 16 + c div 4), char_of (c mod 4 * 64 + d)]
     | _ \<Rightarrow> [])"

fun b64_vals :: "bool \<Rightarrow> string \<Rightarrow> nat list option" where
  "b64_vals u [] = Some []"
| "b64_vals u (c # cs) = (case (b64_val u c, b64_vals u cs) of (Some v, Some vs) \<Rightarrow> Some (v # vs) | _ \<Rightarrow> None)"

fun b64_quanta :: "bool \<Rightarrow> bool \<Rightarrow> string \<Rightarrow> string option" where
  "b64_quanta u pad [] = Some []"
| "b64_quanta u pad [a] = None"
| "b64_quanta u pad [a, b] = (if pad then None else map_option b64_bytes (b64_vals u [a, b]))"
| "b64_quanta u pad [a, b, c] = (if pad then None else map_option b64_bytes (b64_vals u [a, b, c]))"
| "b64_quanta u pad (a # b # c # d # r) =
     (if pad \<and> c = CHR ''='' \<and> d = CHR ''='' then
        (if r = [] then map_option b64_bytes (b64_vals u [a, b]) else None)
      else if pad \<and> d = CHR ''='' then
        (if r = [] then map_option b64_bytes (b64_vals u [a, b, c]) else None)
      else case (b64_vals u [a, b, c, d], b64_quanta u pad r) of
        (Some vs, Some rest) \<Rightarrow> Some (b64_bytes vs @ rest) | _ \<Rightarrow> None)"

definition b64_decode :: "bool \<Rightarrow> bool \<Rightarrow> string \<Rightarrow> string option" where
  "b64_decode u pad s = b64_quanta u pad (filter (\<lambda>c. c \<noteq> CHR 0x0D \<and> c \<noteq> CHR 0x0A) s)"

section \<open>Round trip\<close>

lemma b64_cases:
  assumes "d < (64 :: nat)"
  obtains "d < 26" | "26 \<le> d" "d < 52" | "52 \<le> d" "d < 62" | "d = 62" | "d = 63"
  using assms by linarith

lemma b64_val_char [simp]: "d < 64 \<Longrightarrow> b64_val u (b64_char u d) = Some d"
  by (erule b64_cases) (simp_all add: b64_val_def b64_char_def Let_def, arith?)

lemma b64_char_neq [simp]:
  assumes "d < (64 :: nat)"
  shows "b64_char u d \<noteq> CHR ''=''" "b64_char u d \<noteq> CHR 0x0D" "b64_char u d \<noteq> CHR 0x0A"
proof -
  have "b64_val u (CHR ''='') = None" "b64_val u (CHR 0x0D) = None" "b64_val u (CHR 0x0A) = None"
    by (simp_all add: b64_val_def)
  then show "b64_char u d \<noteq> CHR ''=''" "b64_char u d \<noteq> CHR 0x0D" "b64_char u d \<noteq> CHR 0x0A"
    using b64_val_char [OF assms, of u] by force+
qed

lemma byte_parts:
  fixes x y z :: char
  shows "byte_of x div 4 < 64" "byte_of x mod 4 * 16 < 64" "byte_of x mod 4 * 16 + byte_of y div 16 < 64"
    "byte_of y mod 16 * 4 < 64" "byte_of y mod 16 * 4 + byte_of z div 64 < 64" "byte_of z mod 64 < 64"
proof -
  have lt: "byte_of x < 256" "byte_of y < 256" "byte_of z < 256" by simp_all
  show "byte_of x div 4 < 64" "byte_of x mod 4 * 16 < 64" "byte_of x mod 4 * 16 + byte_of y div 16 < 64"
    "byte_of y mod 16 * 4 < 64" "byte_of y mod 16 * 4 + byte_of z div 64 < 64" "byte_of z mod 64 < 64"
    using lt by linarith+
qed

lemma div_mod_join: "(q * k + p) div k = q" "(q * k + p) mod k = p" if "p < k" for p q k :: nat
  using that by simp_all

lemma b64_bytes_join:
  fixes x y z :: char
  shows "b64_bytes [byte_of x div 4, byte_of x mod 4 * 16] = [x]"
    "b64_bytes [byte_of x div 4, byte_of x mod 4 * 16 + byte_of y div 16, byte_of y mod 16 * 4] = [x, y]"
    "b64_bytes [byte_of x div 4, byte_of x mod 4 * 16 + byte_of y div 16,
       byte_of y mod 16 * 4 + byte_of z div 64, byte_of z mod 64] = [x, y, z]"
proof -
  have lt: "byte_of y div 16 < 16" "byte_of z div 64 < 4"
    by (rule less_mult_imp_div_less, simp)+
  have x: "byte_of x div 4 * 4 + byte_of x mod 4 = byte_of x" and y: "byte_of y div 16 * 16 + byte_of y mod 16 = byte_of y"
    and z: "byte_of z div 64 * 64 + byte_of z mod 64 = byte_of z" by simp_all
  note j = div_mod_join [OF lt(1)] div_mod_join [OF lt(2)]
  show "b64_bytes [byte_of x div 4, byte_of x mod 4 * 16] = [x]"
    using x by (simp add: b64_bytes_def)
  show "b64_bytes [byte_of x div 4, byte_of x mod 4 * 16 + byte_of y div 16, byte_of y mod 16 * 4] = [x, y]"
    using x y j by (simp add: b64_bytes_def add.commute)
  show "b64_bytes [byte_of x div 4, byte_of x mod 4 * 16 + byte_of y div 16,
       byte_of y mod 16 * 4 + byte_of z div 64, byte_of z mod 64] = [x, y, z]"
    using x y z j by (simp add: b64_bytes_def add.commute)
qed

lemma b64_encode_clean: "c \<in> set (b64_encode u pad s) \<Longrightarrow> c \<noteq> CHR 0x0D \<and> c \<noteq> CHR 0x0A"
  by (induction u pad s rule: b64_encode.induct) (auto simp: byte_parts split: if_splits)

lemma b64_quanta_encode: "b64_quanta u pad (b64_encode u pad s) = Some s"
  by (induction u pad s rule: b64_encode.induct) (auto simp: byte_parts b64_bytes_join)

lemma b64_decode_encode [simp]: "b64_decode u pad (b64_encode u pad s) = Some s"
proof -
  have "filter (\<lambda>c. c \<noteq> CHR 0x0D \<and> c \<noteq> CHR 0x0A) (b64_encode u pad s) = b64_encode u pad s"
    using b64_encode_clean by (simp add: filter_id_conv)
  then show ?thesis by (simp add: b64_decode_def b64_quanta_encode)
qed

end
