(* ===== verification/Go_Json.thy ===== *)
theory Go_Json
  imports Go_Text Complex_Main
begin

text \<open>
  JSON values as package \<open>encoding/json\<close> hands them to the sources. A parsed document keeps
  the members of an object in the order of the text, duplicates included. Decoding into
  \<open>any\<close> turns an object into a map: \<open>to_any\<close> keeps the last of equal keys, and holds the
  members in the order of their keys, which is also the order of the encoder. A number is the
  rational value of its float64. The text parser, and the text of a number, are arguments of the
  definitions that use them.
\<close>

datatype json =
    JNull
  | JBool bool
  | JNum rat
  | JStr string
  | JArr "json list"
  | JObj "(string \<times> json) list"

section \<open>Maps with string keys\<close>

fun obj_put :: "string \<Rightarrow> 'v \<Rightarrow> (string \<times> 'v) list \<Rightarrow> (string \<times> 'v) list" where
  "obj_put k v [] = [(k, v)]"
| "obj_put k v ((k', v') # ps) =
     (if k = k' then (k, v) # ps else if k < k' then (k, v) # (k', v') # ps
      else (k', v') # obj_put k v ps)"

definition obj_del :: "string \<Rightarrow> (string \<times> 'v) list \<Rightarrow> (string \<times> 'v) list" where
  "obj_del k ps = filter (\<lambda>(k', _). k' \<noteq> k) ps"

definition obj_of :: "(string \<times> 'v) list \<Rightarrow> (string \<times> 'v) list" where
  "obj_of ps = foldl (\<lambda>m (k, v). obj_put k v m) [] ps"

lemma map_of_obj_put [simp]: "map_of (obj_put k v ps) = (map_of ps)(k \<mapsto> v)"
  by (induction k v ps rule: obj_put.induct) auto

lemma map_of_obj_del [simp]: "map_of (obj_del k ps) = (map_of ps)(k := None)"
  by (induction ps) (auto simp: obj_del_def)

lemma map_of_obj_of: "map_of (obj_of ps) k = map_of (rev ps) k"
proof -
  have "map_of (foldl (\<lambda>m (k, v). obj_put k v m) m ps) = map_of m ++ map_of (rev ps)" for m
    by (induction ps arbitrary: m) (auto simp: map_add_def fun_eq_iff split: option.splits)
  then show ?thesis by (simp add: obj_of_def)
qed

text \<open>The representation of a map: strictly ascending keys.\<close>

definition keys_ascending :: "(string \<times> 'v) list \<Rightarrow> bool" where
  "keys_ascending ps = sorted_wrt (<) (map fst ps)"

lemma set_obj_put: "fst ` set (obj_put k v ps) = insert k (fst ` set ps)"
  by (induction k v ps rule: obj_put.induct) auto

lemma keys_ascending_put: "keys_ascending ps \<Longrightarrow> keys_ascending (obj_put k v ps)"
proof (induction k v ps rule: obj_put.induct)
  case (2 k v k' v' ps)
  then show ?case using set_obj_put [of k v ps]
    by (auto simp: keys_ascending_def dest: less_trans)
qed (simp add: keys_ascending_def)

lemma keys_ascending_del: "keys_ascending ps \<Longrightarrow> keys_ascending (obj_del k ps)"
  by (auto simp: keys_ascending_def obj_del_def sorted_wrt_map intro: sorted_wrt_filter)

lemma keys_ascending_of: "keys_ascending (obj_of ps)"
proof -
  have "keys_ascending m \<Longrightarrow> keys_ascending (foldl (\<lambda>m (k, v). obj_put k v m) m ps)" for m
    by (induction ps arbitrary: m) (auto intro: keys_ascending_put)
  then show ?thesis by (simp add: obj_of_def keys_ascending_def)
qed

lemma keys_ascending_distinct: "keys_ascending ps \<Longrightarrow> distinct (map fst ps)"
  by (auto simp: keys_ascending_def strict_sorted_iff)

section \<open>Decoding into any and into a map\<close>

fun to_any :: "json \<Rightarrow> json" where
  "to_any (JArr xs) = JArr (map to_any xs)"
| "to_any (JObj ps) = JObj (obj_of (map (\<lambda>p. (fst p, to_any (snd p))) ps))"
| "to_any v = v"

fun wf_json :: "json \<Rightarrow> bool" where
  "wf_json (JArr xs) = (\<forall>x \<in> set xs. wf_json x)"
| "wf_json (JObj ps) = (keys_ascending ps \<and> (\<forall>p \<in> set ps. wf_json (snd p)))"
| "wf_json _ = True"

lemma obj_of_values: "p \<in> set (obj_of ps) \<Longrightarrow> p \<in> set ps"
proof -
  have put: "q \<in> set (obj_put k v m) \<Longrightarrow> q = (k, v) \<or> q \<in> set m" for q :: "string \<times> 'a" and k v m
    by (induction k v m rule: obj_put.induct) (auto split: if_splits)
  have "q \<in> set (foldl (\<lambda>m (k, v). obj_put k v m) m ps) \<Longrightarrow> q \<in> set m \<or> q \<in> set ps" for q and m :: "(string \<times> 'a) list"
    by (induction ps arbitrary: m) (auto dest!: put)
  from this [of p "[]"] show "p \<in> set (obj_of ps) \<Longrightarrow> p \<in> set ps" by (simp add: obj_of_def)
qed

lemma wf_to_any [simp]: "wf_json (to_any v)"
  by (induction v rule: to_any.induct) (auto simp: keys_ascending_of dest!: obj_of_values)

lemma obj_put_last: "\<forall>p \<in> set m. fst p < k \<Longrightarrow> obj_put k v m = m @ [(k, v)]"
  by (induction k v m rule: obj_put.induct) (auto dest: less_asym)

lemma obj_of_ascending: "keys_ascending ps \<Longrightarrow> obj_of ps = ps"
proof -
  have "keys_ascending (m @ ps) \<Longrightarrow> foldl (\<lambda>m (k, v). obj_put k v m) m ps = m @ ps" for m
  proof (induction ps arbitrary: m)
    case (Cons p ps)
    obtain k v where p: "p = (k, v)" by fastforce
    have "\<forall>q \<in> set m. fst q < k" using Cons.prems p by (auto simp: keys_ascending_def sorted_wrt_append)
    then show ?case using Cons.IH [of "m @ [p]"] Cons.prems p by (simp add: obj_put_last)
  qed simp
  from this [of "[]"] show "keys_ascending ps \<Longrightarrow> obj_of ps = ps" by (simp add: obj_of_def)
qed

lemma to_any_wf: "wf_json v \<Longrightarrow> to_any v = v"
proof (induction v rule: to_any.induct)
  case (2 ps)
  then have "map (\<lambda>p. (fst p, to_any (snd p))) ps = ps" by (intro map_idI) (auto simp: prod_eq_iff)
  then show ?case using 2 by (simp add: obj_of_ascending)
qed (auto intro: map_idI)

type_synonym json_map = "(string \<times> json) list"

text \<open>\<open>json.Unmarshal\<close> into \<open>any\<close>, and into a nil \<open>map[string]any\<close> with the error ignored.\<close>

definition unmarshal_any :: "(string \<Rightarrow> json option) \<Rightarrow> string \<Rightarrow> json option" where
  "unmarshal_any decode raw = map_option to_any (decode raw)"

definition unmarshal_map :: "(string \<Rightarrow> json option) \<Rightarrow> string \<Rightarrow> json_map option" where
  "unmarshal_map decode raw = (case unmarshal_any decode raw of
     Some (JObj ps) \<Rightarrow> Some ps | Some JNull \<Rightarrow> Some [] | _ \<Rightarrow> None)"

definition map_or_nil :: "json_map option \<Rightarrow> json_map" where
  "map_or_nil m = (case m of Some ps \<Rightarrow> ps | None \<Rightarrow> [])"

text \<open>
  \<open>json.Unmarshal\<close> into a struct whose fields are strings: member names are matched without
  regard to case, the last one counts, null leaves a field alone and any other type is an error.
\<close>

definition unmarshal_strings :: "string list \<Rightarrow> json \<Rightarrow> (string \<times> string) list option" where
  "unmarshal_strings fields v = (case v of
       JNull \<Rightarrow> Some []
     | JObj ps \<Rightarrow> foldl (\<lambda>acc (k, x). case find (equal_fold k) fields of
           None \<Rightarrow> acc
         | Some f \<Rightarrow> (case x of
               JStr s \<Rightarrow> map_option (obj_put f s) acc | JNull \<Rightarrow> acc | _ \<Rightarrow> None)) (Some []) ps
     | _ \<Rightarrow> None)"

section \<open>Encoding\<close>

fun json_text :: "(rat \<Rightarrow> string) \<Rightarrow> json \<Rightarrow> string" where
  "json_text num JNull = ''null''"
| "json_text num (JBool b) = (if b then ''true'' else ''false'')"
| "json_text num (JNum q) = num q"
| "json_text num (JStr s) = json_quote s"
| "json_text num (JArr xs) = ''['' @ join_with '','' (map (json_text num) xs) @ '']''"
| "json_text num (JObj ps) =
     ''{'' @ join_with '','' (map (\<lambda>p. json_quote (fst p) @ '':'' @ json_text num (snd p)) ps) @ ''}''"

section \<open>Strings in a map\<close>

definition obj_string :: "json_map \<Rightarrow> string \<Rightarrow> string" where
  "obj_string m k = (case map_of m k of Some (JStr s) \<Rightarrow> s | _ \<Rightarrow> [])"

end
