(* ===== verification/Hmac_Verifier.thy ===== *)
theory Hmac_Verifier
  imports Go_Base64 Go_Json
begin

text \<open>
  The signature verifier of pkg/verifier, which the gateway and its receivers share: HMAC-SHA-256
  signatures in hexadecimal or base64, the timestamped header \<open>t=...,v1=...\<close> with its age check,
  and the verification of the signatures Webhookery itself sends. HMAC-SHA-256 is the argument
  \<open>mac\<close>, a function of the secret and the signed bytes.
\<close>

section \<open>Model\<close>

type_synonym hmac = "string \<Rightarrow> string \<Rightarrow> string"

definition sign_hex :: "hmac \<Rightarrow> string \<Rightarrow> string \<Rightarrow> string" where
  "sign_hex mac secret payload = hex_encode (mac secret payload)"

definition sign_base64 :: "hmac \<Rightarrow> string \<Rightarrow> string \<Rightarrow> string" where
  "sign_base64 mac secret payload = b64_encode False True (mac secret payload)"

definition verify_hex :: "hmac \<Rightarrow> string \<Rightarrow> string \<Rightarrow> string \<Rightarrow> bool" where
  "verify_hex mac secret payload signature =
     (case (hex_decode signature, hex_decode (sign_hex mac secret payload)) of
        (Some got, Some want) \<Rightarrow> got = want | _ \<Rightarrow> False)"

definition verify_base64 :: "hmac \<Rightarrow> string \<Rightarrow> string \<Rightarrow> string \<Rightarrow> bool" where
  "verify_base64 mac secret payload signature =
     (case (b64_decode False True signature, b64_decode False True (sign_base64 mac secret payload)) of
        (Some got, Some want) \<Rightarrow> got = want | _ \<Rightarrow> False)"

definition timestamped_payload :: "int \<Rightarrow> string \<Rightarrow> string" where
  "timestamped_payload unix raw = itoa unix @ ''.'' @ raw"

definition timestamped_header :: "hmac \<Rightarrow> string \<Rightarrow> gotime \<Rightarrow> string \<Rightarrow> string \<Rightarrow> string" where
  "timestamped_header mac version ts secret raw =
     ''t='' @ itoa (unix_of ts) @ '','' @ version @ ''=''
       @ sign_hex mac secret (timestamped_payload (unix_of ts) raw)"

record hmac_input =
  hi_secret :: string
  hi_raw_body :: string
  hi_header :: string
  hi_now :: gotime
  hi_tolerance :: duration
  hi_expected_version :: string
  hi_encoding :: string

record verification_result =
  vr_valid :: bool
  vr_reason :: string
  vr_timestamp :: gotime
  vr_age :: duration
  vr_signature_version :: string

definition parse_kv_header :: "string \<Rightarrow> (string \<times> string) list" where
  "parse_kv_header header =
     foldl (\<lambda>m part. case cut_char (CHR ''='') (trim_space part) of
         None \<Rightarrow> m
       | Some (k, v) \<Rightarrow> if k = [] then m else obj_put (to_lower k) v m)
       [] (split_char (CHR '','') header)"

definition header_value :: "(string \<times> string) list \<Rightarrow> string \<Rightarrow> string" where
  "header_value m k = (case map_of m k of Some v \<Rightarrow> v | None \<Rightarrow> [])"

definition verify_timestamped_hmac :: "hmac \<Rightarrow> hmac_input \<Rightarrow> verification_result" where
  "verify_timestamped_hmac mac i =
     (let values = parse_kv_header (hi_header i);
          malformed = \<lparr> vr_valid = False, vr_reason = ''malformed_header'', vr_timestamp = 0, vr_age = 0,
            vr_signature_version = [] \<rparr> in
      if header_value values ''t'' = [] then malformed
      else case parse_int64 (header_value values ''t'') of
        None \<Rightarrow> malformed
      | Some unix \<Rightarrow>
          let ts = time_unix unix; age = abs_duration (time_sub (hi_now i) ts);
              failed = (\<lambda>reason ver. \<lparr> vr_valid = False, vr_reason = reason, vr_timestamp = ts, vr_age = age,
                vr_signature_version = ver \<rparr>);
              version = hi_expected_version i; signature = header_value values version;
              payload = timestamped_payload unix (hi_raw_body i) in
          if 0 < hi_tolerance i \<and> hi_tolerance i < age then failed ''expired_timestamp'' []
          else if signature = [] then failed ''missing_signature'' version
          else if hi_encoding i \<notin> {[], ''hex'', ''base64''} then failed ''unsupported_algorithm'' version
          else if (if hi_encoding i = ''base64'' then verify_base64 mac (hi_secret i) payload signature
                   else verify_hex mac (hi_secret i) payload signature)
          then \<lparr> vr_valid = True, vr_reason = ''ok'', vr_timestamp = ts, vr_age = age, vr_signature_version = version \<rparr>
          else failed ''invalid_signature'' version)"

record webhookery_input =
  wi_secret :: string
  wi_raw_body :: string
  wi_signature_header :: string
  wi_key_id_header :: string
  wi_key_version_header :: string
  wi_now :: gotime
  wi_tolerance :: duration

record webhookery_result =
  wr_result :: verification_result
  wr_key_id :: string
  wr_key_version :: int

definition key_version_of :: "string \<Rightarrow> int option" where
  "key_version_of h =
     (if trim_space h = [] then Some 0
      else case parse_int64 (trim_space h) of Some n \<Rightarrow> if n \<le> 0 then None else Some n | None \<Rightarrow> None)"

definition verify_webhookery_signature :: "hmac \<Rightarrow> webhookery_input \<Rightarrow> webhookery_result" where
  "verify_webhookery_signature mac i =
     (case key_version_of (wi_key_version_header i) of
        None \<Rightarrow> \<lparr> wr_result = \<lparr> vr_valid = False, vr_reason = ''malformed_header'', vr_timestamp = 0, vr_age = 0,
            vr_signature_version = [] \<rparr>, wr_key_id = trim_space (wi_key_id_header i), wr_key_version = 0 \<rparr>
      | Some version \<Rightarrow>
          \<lparr> wr_result = verify_timestamped_hmac mac \<lparr> hi_secret = wi_secret i, hi_raw_body = wi_raw_body i,
              hi_header = wi_signature_header i, hi_now = wi_now i, hi_tolerance = wi_tolerance i,
              hi_expected_version = ''v1'', hi_encoding = ''hex'' \<rparr>,
            wr_key_id = trim_space (wi_key_id_header i), wr_key_version = version \<rparr>)"

section \<open>Signatures\<close>

lemma verify_hex_iff: "verify_hex mac secret payload s \<longleftrightarrow> hex_decode s = Some (mac secret payload)"
  by (auto simp: verify_hex_def sign_hex_def split: option.splits)

lemma verify_base64_iff: "verify_base64 mac secret payload s \<longleftrightarrow> b64_decode False True s = Some (mac secret payload)"
  by (auto simp: verify_base64_def sign_base64_def split: option.splits)

lemma hex_encode_Nil [simp]: "hex_encode s = [] \<longleftrightarrow> s = []"
  by (cases s) simp_all

lemma hex_digit_plain: "d < 16 \<Longrightarrow> is_digit (hex_digit d) \<or> 97 \<le> (of_char (hex_digit d) :: nat)"
  by (auto simp: hex_digit_def is_digit_def)

lemma set_hex_encode: "c \<in> set (hex_encode s) \<Longrightarrow> is_digit c \<or> 97 \<le> (of_char c :: nat)"
proof (induction s rule: hex_encode.induct)
  case (2 x xs)
  have "byte_of x div 16 < 16" by (rule less_mult_imp_div_less) simp
  then show ?case using 2 hex_digit_plain [of "byte_of x div 16"] hex_digit_plain [of "byte_of x mod 16"] by auto
qed simp

lemma digit_not_space: "is_digit c \<or> 97 \<le> (of_char c :: nat) \<Longrightarrow> \<not> is_space c \<and> c \<noteq> CHR '','' \<and> c \<noteq> CHR ''=''"
  by (auto simp: is_digit_def is_space_def)

section \<open>The header\<close>

lemma trim_space_member:
  assumes "s \<noteq> []" "\<And>c. c \<in> set s \<Longrightarrow> \<not> is_space c"
  shows "trim_space s = s"
  using assms by (intro trim_space_id) auto

lemma itoa_chars: "c \<in> set (itoa n) \<Longrightarrow> \<not> is_space c \<and> c \<noteq> CHR '','' \<and> c \<noteq> CHR ''=''"
  using set_itoa [of c n] by (auto simp: is_digit_def is_space_def)

text \<open>A version label as the senders use it: lower case letters and digits, not the label of the time.\<close>

definition version_label :: "string \<Rightarrow> bool" where
  "version_label v \<longleftrightarrow> v \<noteq> [] \<and> v \<noteq> ''t'' \<and> (\<forall>c \<in> set v. is_digit c \<or> (97 \<le> (of_char c :: nat) \<and> (of_char c :: nat) \<le> 122))"

lemma version_label_lower: "version_label v \<Longrightarrow> to_lower v = v"
  unfolding version_label_def to_lower_def by (intro map_idI) (auto simp: lower_char_def is_digit_def)

lemma parse_timestamped_header:
  assumes v: "version_label v" and sig: "\<And>c. c \<in> set sig \<Longrightarrow> is_digit c \<or> 97 \<le> (of_char c :: nat)"
  shows "header_value (parse_kv_header (''t='' @ itoa n @ '','' @ v @ ''='' @ sig)) ''t'' = itoa n"
    and "header_value (parse_kv_header (''t='' @ itoa n @ '','' @ v @ ''='' @ sig)) v = sig"
proof -
  let ?a = "''t='' @ itoa n" and ?b = "v @ ''='' @ sig"
  have vc: "c \<in> set v \<Longrightarrow> \<not> is_space c \<and> c \<noteq> CHR '','' \<and> c \<noteq> CHR ''=''" for c
    using v digit_not_space [of c] by (auto simp: version_label_def)
  have comma: "CHR '','' \<notin> set ?a" "CHR '','' \<notin> set ?b"
    using itoa_chars [of "CHR '',''" n] vc sig digit_not_space by (auto dest: sig)
  then have split: "split_char (CHR '','') (?a @ '','' @ ?b) = [?a, ?b]"
    using split_char_append [OF comma(1), of ?b] split_char_no_sep [OF comma(2)] by simp
  have trim: "trim_space ?a = ?a" "trim_space ?b = ?b"
    using itoa_chars vc sig digit_not_space v
    by (auto intro!: trim_space_member simp: version_label_def is_space_def)
  have cut: "cut_char (CHR ''='') ?a = Some (''t'', itoa n)" "cut_char (CHR ''='') ?b = Some (v, sig)"
    using cut_char_append [of "CHR ''=''" "''t''" "itoa n"] cut_char_append [of "CHR ''=''" v sig] vc by auto
  have "to_lower ''t'' = ''t''" by (simp add: to_lower_def lower_char_def)
  then have "parse_kv_header (?a @ '','' @ ?b) = obj_put v sig (obj_put ''t'' (itoa n) [])"
    using v by (simp only: parse_kv_header_def split) (simp add: trim [simplified] cut [simplified] version_label_def
        version_label_lower [OF v])
  then show "header_value (parse_kv_header (''t='' @ itoa n @ '','' @ v @ ''='' @ sig)) ''t'' = itoa n"
    and "header_value (parse_kv_header (''t='' @ itoa n @ '','' @ v @ ''='' @ sig)) v = sig"
    using v by (auto simp: header_value_def version_label_def)
qed

lemma time_unix_of:
  assumes "in_int64 (t div ns_second - unix_to_internal)" "in_int64 (t div ns_second)"
  shows "time_unix (unix_of t) = t div ns_second * ns_second"
  using assms by (simp add: time_unix_def unix_of_def)

end
