(* ===== verification/Net_Addr.thy ===== *)
theory Net_Addr
  imports Go_Numbers "HOL-Library.Word"
begin

text \<open>
  The parts of packages \<open>net/netip\<close>, \<open>net\<close> and \<open>net/url\<close> that the egress checks call:
  addresses with their classes, prefixes, the text of an address in both directions, and host
  and port splitting. An address is the zero value, 32 bits, or 128 bits with a zone.
\<close>

unbundle bit_operations_syntax

datatype ip_addr = AddrNone | Addr4 "32 word" | Addr6 "128 word" string

section \<open>Bytes and classes\<close>

definition v4_byte :: "32 word \<Rightarrow> nat \<Rightarrow> nat" where
  "v4_byte a i = unat (drop_bit (8 * (3 - i)) a) mod 256"

definition v6_byte :: "128 word \<Rightarrow> nat \<Rightarrow> nat" where
  "v6_byte a i = unat (drop_bit (8 * (15 - i)) a) mod 256"

definition v6_u16 :: "128 word \<Rightarrow> nat \<Rightarrow> nat" where
  "v6_u16 a i = unat (drop_bit (16 * (7 - i)) a) mod 65536"

definition addr_of_bytes4 :: "nat list \<Rightarrow> ip_addr" where
  "addr_of_bytes4 bs = Addr4 (word_of_nat (foldl (\<lambda>a b. a * 256 + b) 0 bs))"

definition word_of_groups :: "nat list \<Rightarrow> 128 word" where
  "word_of_groups gs = word_of_nat (foldl (\<lambda>a g. a * 65536 + g) 0 gs)"

definition is_4in6 :: "ip_addr \<Rightarrow> bool" where
  "is_4in6 ip = (case ip of Addr6 a _ \<Rightarrow> drop_bit 32 a = 0xffff | _ \<Rightarrow> False)"

definition unmap :: "ip_addr \<Rightarrow> ip_addr" where
  "unmap ip = (case ip of Addr6 a _ \<Rightarrow> if is_4in6 ip then Addr4 (ucast a) else ip | _ \<Rightarrow> ip)"

definition is_private :: "ip_addr \<Rightarrow> bool" where
  "is_private ip = (case unmap ip of
       Addr4 a \<Rightarrow> v4_byte a 0 = 10
         \<or> (v4_byte a 0 = 172 \<and> v4_byte a 1 AND 0xf0 = 16)
         \<or> (v4_byte a 0 = 192 \<and> v4_byte a 1 = 168)
     | Addr6 a _ \<Rightarrow> v6_byte a 0 AND 0xfe = 0xfc
     | AddrNone \<Rightarrow> False)"

definition is_loopback :: "ip_addr \<Rightarrow> bool" where
  "is_loopback ip = (case unmap ip of
       Addr4 a \<Rightarrow> v4_byte a 0 = 127 | Addr6 a _ \<Rightarrow> a = 1 | AddrNone \<Rightarrow> False)"

definition is_link_local_unicast :: "ip_addr \<Rightarrow> bool" where
  "is_link_local_unicast ip = (case unmap ip of
       Addr4 a \<Rightarrow> v4_byte a 0 = 169 \<and> v4_byte a 1 = 254
     | Addr6 a _ \<Rightarrow> v6_u16 a 0 AND 0xffc0 = 0xfe80
     | AddrNone \<Rightarrow> False)"

definition is_link_local_multicast :: "ip_addr \<Rightarrow> bool" where
  "is_link_local_multicast ip = (case unmap ip of
       Addr4 a \<Rightarrow> v4_byte a 0 = 224 \<and> v4_byte a 1 = 0 \<and> v4_byte a 2 = 0
     | Addr6 a _ \<Rightarrow> v6_u16 a 0 AND 0xff0f = 0xff02
     | AddrNone \<Rightarrow> False)"

definition is_multicast :: "ip_addr \<Rightarrow> bool" where
  "is_multicast ip = (case unmap ip of
       Addr4 a \<Rightarrow> v4_byte a 0 AND 0xf0 = 0xe0
     | Addr6 a _ \<Rightarrow> v6_byte a 0 = 0xff
     | AddrNone \<Rightarrow> False)"

definition is_unspecified :: "ip_addr \<Rightarrow> bool" where
  "is_unspecified ip \<longleftrightarrow> ip = Addr4 0 \<or> ip = Addr6 0 []"

definition is_global_unicast :: "ip_addr \<Rightarrow> bool" where
  "is_global_unicast ip =
     (let u = unmap ip in
      u \<noteq> AddrNone \<and> u \<noteq> Addr4 0 \<and> u \<noteq> Addr4 0xffffffff \<and> u \<noteq> Addr6 0 []
      \<and> \<not> is_loopback u \<and> \<not> is_multicast u \<and> \<not> is_link_local_unicast u)"

text \<open>A \<open>netip.Prefix\<close>: an address and a number of bits; a zoned address is in no prefix.\<close>

type_synonym ip_prefix = "ip_addr \<times> nat"

definition prefix_contains :: "ip_prefix \<Rightarrow> ip_addr \<Rightarrow> bool" where
  "prefix_contains p ip = (case (fst p, ip) of
       (Addr4 b, Addr4 a) \<Rightarrow> snd p \<le> 32 \<and> drop_bit (32 - snd p) (a XOR b) = 0
     | (Addr6 b zb, Addr6 a za) \<Rightarrow>
         zb = [] \<and> za = [] \<and> snd p \<le> 128 \<and> drop_bit (128 - snd p) (a XOR b) = 0
     | _ \<Rightarrow> False)"

section \<open>Text of an address\<close>

fun hex_nat :: "nat \<Rightarrow> string" where
  "hex_nat n = (if n < 16 then [hex_digit n] else hex_nat (n div 16) @ [hex_digit (n mod 16)])"

declare hex_nat.simps [simp del]

definition string4 :: "32 word \<Rightarrow> string" where
  "string4 a = join_with ''.'' (map (\<lambda>i. nat_str (v4_byte a i)) [0, 1, 2, 3])"

definition zero_run :: "nat list \<Rightarrow> nat \<Rightarrow> nat" where
  "zero_run gs i = length (takeWhile (\<lambda>g. g = 0) (drop i gs))"

text \<open>The first of the longest runs of at least two zero groups: its start and its length.\<close>

definition longest_zero_run :: "nat list \<Rightarrow> nat \<times> nat" where
  "longest_zero_run gs = foldl (\<lambda>(s, l) i. if 2 \<le> zero_run gs i \<and> l < zero_run gs i
       then (i, zero_run gs i) else (s, l)) (255, 0) [0..<8]"

definition string6 :: "128 word \<Rightarrow> string" where
  "string6 a = (let gs = map (v6_u16 a) [0..<8]; (s, l) = longest_zero_run gs in
     if l = 0 then join_with '':'' (map hex_nat gs)
     else join_with '':'' (map hex_nat (take s gs)) @ ''::'' @ join_with '':'' (map hex_nat (drop (s + l) gs)))"

definition addr_string :: "ip_addr \<Rightarrow> string" where
  "addr_string ip = (case ip of
       AddrNone \<Rightarrow> ''invalid IP''
     | Addr4 a \<Rightarrow> string4 a
     | Addr6 a z \<Rightarrow> (if is_4in6 ip then ''::ffff:'' @ string4 (ucast a) else string6 a)
         @ (if z = [] then [] else CHR ''%'' # z))"

definition parse_octet :: "string \<Rightarrow> nat option" where
  "parse_octet s = (if length s > 1 \<and> hd s = CHR ''0'' then None
     else case parse_digits s of Some n \<Rightarrow> if n \<le> 255 then Some n else None | None \<Rightarrow> None)"

definition parse_octets :: "string \<Rightarrow> nat list option" where
  "parse_octets s = (case map parse_octet (split_char (CHR ''.'') s) of
       [Some a, Some b, Some c, Some d] \<Rightarrow> Some [a, b, c, d] | _ \<Rightarrow> None)"

definition hex_acc :: "string \<Rightarrow> nat" where
  "hex_acc s = foldl (\<lambda>a c. a * 16 + the (hex_val c)) 0 s"

text \<open>
  The loop of \<open>parseIPv6\<close>: \<open>gs\<close> are the groups read so far, \<open>e\<close> the position of the
  ellipsis among them. The result is the groups and the ellipsis when all of the text is used.
\<close>

function parse_groups :: "string \<Rightarrow> nat list \<Rightarrow> nat option \<Rightarrow> (nat list \<times> nat option) option" where
  "parse_groups s gs e =
     (if 8 \<le> length gs then (if s = [] then Some (gs, e) else None)
      else
        let ds = takeWhile (\<lambda>c. hex_val c \<noteq> None) s; rest = dropWhile (\<lambda>c. hex_val c \<noteq> None) s in
        if ds = [] \<or> 4 < length ds then None
        else if rest \<noteq> [] \<and> hd rest = CHR ''.''
        then (if (e = None \<and> length gs \<noteq> 6) \<or> 6 < length gs then None
              else case parse_octets s of
                Some [a, b, c, d] \<Rightarrow> Some (gs @ [a * 256 + b, c * 256 + d], e)
              | _ \<Rightarrow> None)
        else
          let gs' = gs @ [hex_acc ds] in
          if rest = [] then Some (gs', e)
          else if hd rest \<noteq> CHR '':'' \<or> tl rest = [] then None
          else if hd (tl rest) = CHR '':''
          then (if e \<noteq> None then None
                else if tl (tl rest) = [] then Some (gs', Some (length gs'))
                else parse_groups (tl (tl rest)) gs' (Some (length gs')))
          else parse_groups (tl rest) gs' e)"
  by pat_completeness auto
termination
  by (relation "measure (\<lambda>(s, gs, e). 8 - length gs)") auto

declare parse_groups.simps [simp del]

definition parse_ipv6 :: "string \<Rightarrow> ip_addr option" where
  "parse_ipv6 s0 =
     (let (s, zone) = (case cut_char (CHR ''%'') s0 of
           None \<Rightarrow> (s0, Some []) | Some (a, z) \<Rightarrow> (a, if z = [] then None else Some z)) in
      case zone of
        None \<Rightarrow> None
      | Some z \<Rightarrow>
          if s = ''::'' then Some (Addr6 0 z)
          else
            case (if has_prefix s ''::'' then parse_groups (drop 2 s) [] (Some 0)
                  else parse_groups s [] None) of
              None \<Rightarrow> None
            | Some (gs, e) \<Rightarrow>
                (case e of
                   None \<Rightarrow> if length gs = 8 then Some (Addr6 (word_of_groups gs) z) else None
                 | Some k \<Rightarrow> if length gs < 8
                     then Some (Addr6 (word_of_groups (take k gs @ replicate (8 - length gs) 0 @ drop k gs)) z)
                     else None))"

fun parse_addr_at :: "string \<Rightarrow> string \<Rightarrow> ip_addr option" where
  "parse_addr_at whole [] = None"
| "parse_addr_at whole (c # cs) =
     (if c = CHR ''.'' then map_option addr_of_bytes4 (parse_octets whole)
      else if c = CHR '':'' then parse_ipv6 whole
      else if c = CHR ''%'' then None
      else parse_addr_at whole cs)"

definition parse_addr :: "string \<Rightarrow> ip_addr option" where
  "parse_addr s = parse_addr_at s s"

text \<open>\<open>netip.AddrFromSlice\<close>.\<close>

definition addr_from_slice :: "string \<Rightarrow> ip_addr option" where
  "addr_from_slice bs =
     (let n = foldl (\<lambda>a c. a * 256 + of_char c) (0 :: nat) bs in
      if length bs = 4 then Some (Addr4 (word_of_nat n))
      else if length bs = 16 then Some (Addr6 (word_of_nat n) []) else None)"

section \<open>Host and port\<close>

definition last_index :: "char \<Rightarrow> string \<Rightarrow> nat option" where
  "last_index c s = (if c \<in> set s then Some (length s - 1 - length (takeWhile (\<lambda>x. x \<noteq> c) (rev s))) else None)"

definition first_index :: "char \<Rightarrow> string \<Rightarrow> nat option" where
  "first_index c s = (if c \<in> set s then Some (length (takeWhile (\<lambda>x. x \<noteq> c) s)) else None)"

definition split_host_port :: "string \<Rightarrow> (string \<times> string) option" where
  "split_host_port hp =
     (case last_index (CHR '':'') hp of
        None \<Rightarrow> None
      | Some i \<Rightarrow>
          if hd hp = CHR ''[''
          then (case first_index (CHR '']'') hp of
              None \<Rightarrow> None
            | Some en \<Rightarrow>
                if en + 1 \<noteq> i then None
                else if CHR ''['' \<in> set (drop 1 hp) \<or> CHR '']'' \<in> set (drop (en + 1) hp) then None
                else Some (drop 1 (take en hp), drop (i + 1) hp))
          else if CHR '':'' \<in> set (take i hp) \<or> CHR ''['' \<in> set hp \<or> CHR '']'' \<in> set hp then None
          else Some (take i hp, drop (i + 1) hp))"

definition join_host_port :: "string \<Rightarrow> string \<Rightarrow> string" where
  "join_host_port host port =
     (if CHR '':'' \<in> set host then ''['' @ host @ '']:'' @ port else host @ '':'' @ port)"

text \<open>
  A parsed URL: scheme, whether it has user information, the host with its port, and the rest.
  \<open>Hostname\<close> and \<open>Port\<close> split the host at its last colon when only digits follow it.
\<close>

record url =
  url_scheme :: string
  url_user :: bool
  url_host :: string
  url_rest :: string

definition url_split :: "string \<Rightarrow> string \<times> string" where
  "url_split hp =
     (let (h, p) = (case last_index (CHR '':'') hp of
           Some i \<Rightarrow> if list_all is_digit (drop (i + 1) hp) then (take i hp, drop (i + 1) hp) else (hp, [])
         | None \<Rightarrow> (hp, []))
      in (if has_prefix h ''['' \<and> has_suffix h '']'' then drop 1 (take (length h - 1) h) else h, p))"

definition url_hostname :: "url \<Rightarrow> string" where
  "url_hostname u = fst (url_split (url_host u))"

definition url_port :: "url \<Rightarrow> string" where
  "url_port u = snd (url_split (url_host u))"

section \<open>Facts\<close>

lemma unmap_idem [simp]: "unmap (unmap ip) = unmap ip"
  by (auto simp: unmap_def is_4in6_def split: ip_addr.splits)

lemma div_between_nat: "0 < d \<Longrightarrow> (x div d = q) \<longleftrightarrow> q * d \<le> x \<and> x < (q + 1) * (d :: nat)"
  by (metis Suc_eq_plus1 div_nat_eqI div_times_less_eq_dividend dividend_less_div_times mult.commute mult_Suc)

lemma v4_byte_unat: "v4_byte a i = unat a div 2 ^ (8 * (3 - i)) mod 256"
  unfolding v4_byte_def unat_drop_bit_eq by (simp add: drop_bit_eq_div)

lemma v4_byte_div:
  "v4_byte a 0 = unat a div 2 ^ 24" "v4_byte a 1 = unat a div 2 ^ 16 mod 256" "v4_byte a 2 = unat a div 2 ^ 8 mod 256"
proof -
  have "unat a < 2 ^ 32" using unsigned_less [of a] by simp
  then have "unat a div 2 ^ 24 < 256" by (simp add: less_mult_imp_div_less)
  then show "v4_byte a 0 = unat a div 2 ^ 24" by (simp add: v4_byte_unat)
qed (simp_all add: v4_byte_unat)

lemma and_high_bits:
  assumes "(n :: nat) < 2 ^ (k + m)"
  shows "n AND push_bit k (mask m) = (n div 2 ^ k) * 2 ^ k"
proof -
  have n: "take_bit m (drop_bit k n) = drop_bit k n"
    using assms by (simp add: take_bit_eq_mod drop_bit_eq_div less_mult_imp_div_less power_add mult.commute)
  have "n AND push_bit k (mask m) = push_bit k (drop_bit k n AND mask m)"
    by (rule bit_eqI) (auto simp: bit_simps)
  also have "\<dots> = push_bit k (drop_bit k n)" by (simp add: n flip: take_bit_eq_mask)
  finally show ?thesis by (simp add: push_bit_eq_mult drop_bit_eq_div)
qed

lemma and_high_nibble: "n < 256 \<Longrightarrow> n AND 0xf0 = (n div 16) * (16 :: nat)"
  using and_high_bits [of n 4 4] by (simp add: mask_eq_exp_minus_1 push_bit_eq_mult)

lemma v6_byte_unat: "v6_byte a i = unat a div 2 ^ (8 * (15 - i)) mod 256"
  unfolding v6_byte_def unat_drop_bit_eq by (simp add: drop_bit_eq_div)

lemma v6_u16_unat: "v6_u16 a i = unat a div 2 ^ (16 * (7 - i)) mod 65536"
  unfolding v6_u16_def unat_drop_bit_eq by (simp add: drop_bit_eq_div)

lemma v6_first:
  "v6_byte a 0 = unat a div 2 ^ 120" "v6_u16 a 0 = unat a div 2 ^ 112"
proof -
  have lt: "unat a < 2 ^ 128" using unsigned_less [of a] by simp
  have "unat a div 2 ^ 120 < 256" "unat a div 2 ^ 112 < 65536"
    by (rule less_mult_imp_div_less, use lt in simp)+
  then show "v6_byte a 0 = unat a div 2 ^ 120" "v6_u16 a 0 = unat a div 2 ^ 112"
    by (simp_all add: v6_byte_unat v6_u16_unat)
qed

lemma xor_zero_iff: "x XOR y = 0 \<longleftrightarrow> x = (y :: 'w::len word)"
proof
  assume *: "x XOR y = 0"
  show "x = y"
  proof (rule bit_eqI)
    fix n
    have "bit (x XOR y) n = False" using * by simp
    then show "bit x n = bit y n" by (simp add: bit_xor_iff)
  qed
qed simp

lemma drop_bit_xor_zero: "drop_bit n (a XOR b) = 0 \<longleftrightarrow> unat a div 2 ^ n = unat b div 2 ^ n"
  for a b :: "'w::len word"
proof -
  have "drop_bit n (a XOR b) = 0 \<longleftrightarrow> drop_bit n a = drop_bit n b"
    by (simp add: drop_bit_xor xor_zero_iff)
  also have "\<dots> \<longleftrightarrow> drop_bit n (unat a) = drop_bit n (unat b)"
    by (simp only: word_unat_eq_iff unat_drop_bit_eq)
  finally show ?thesis by (simp add: drop_bit_eq_div)
qed

lemma prefix4_iff:
  "k \<le> 32 \<Longrightarrow> prefix_contains (Addr4 b, k) (Addr4 a) \<longleftrightarrow> unat a div 2 ^ (32 - k) = unat b div 2 ^ (32 - k)"
  by (simp add: prefix_contains_def drop_bit_xor_zero del: drop_bit_xor)

lemma prefix6_iff:
  "k \<le> 128 \<Longrightarrow> prefix_contains (Addr6 b [], k) (Addr6 a []) \<longleftrightarrow> unat a div 2 ^ (128 - k) = unat b div 2 ^ (128 - k)"
  by (simp add: prefix_contains_def drop_bit_xor_zero del: drop_bit_xor)

lemma prefix4_interval:
  assumes "k \<le> 32" and "2 ^ (32 - k) dvd unat b"
  shows "prefix_contains (Addr4 b, k) (Addr4 a) \<longleftrightarrow> unat b \<le> unat a \<and> unat a < unat b + 2 ^ (32 - k)"
proof -
  from assms(2) obtain q where q: "unat b = q * 2 ^ (32 - k)" by (metis dvd_def mult.commute)
  then have "unat b div 2 ^ (32 - k) = q" by simp
  then show ?thesis
    using prefix4_iff [OF assms(1), of b a] div_between_nat [of "2 ^ (32 - k)" "unat a" q] q
    by (simp add: add.commute)
qed

end
