(* ===== verification/Ssrf_Guard.thy ===== *)
theory Ssrf_Guard
  imports Net_Addr
begin

text \<open>
  The egress guard of internal/ssrf: the URL check done when an endpoint is stored and before
  each request (ssrf.go), and the dialer that checks the resolved addresses again at connection
  time and connects to one of them by number (transport.go).

  The parser and printer of package \<open>net/url\<close> (\<open>parse\<close>, \<open>print\<close>), the mapping of
  international names to ASCII (\<open>to_ascii\<close>, golang.org/x/net/idna) and the name servers
  (\<open>resolver\<close>) are arguments.
\<close>

section \<open>Model\<close>

record ssrf_policy =
  sp_allow_http :: bool
  sp_allow_ip_literal :: bool
  sp_allowed_ports :: "(string \<times> bool) list option"
  sp_allowed_cidrs :: "ip_prefix list"
  sp_allow_private_net :: bool

definition ssrf_default_policy :: ssrf_policy where
  "ssrf_default_policy = \<lparr> sp_allow_http = False, sp_allow_ip_literal = False,
     sp_allowed_ports = Some [([], True), (''443'', True)], sp_allowed_cidrs = [],
     sp_allow_private_net = False \<rparr>"

text \<open>Indexing a possibly nil map of booleans.\<close>

definition port_allowed :: "ssrf_policy \<Rightarrow> string \<Rightarrow> bool" where
  "port_allowed pol p = (case sp_allowed_ports pol of
     None \<Rightarrow> False | Some m \<Rightarrow> (case map_of m p of Some b \<Rightarrow> b | None \<Rightarrow> False))"

record ssrf_result =
  sr_allowed :: bool
  sr_normalized_url :: string
  sr_resolved_ips :: "string list"
  sr_blocked_reasons :: "string list"

type_synonym resolver = "string \<Rightarrow> ip_addr list res"

text \<open>\<open>NetResolver\<close> over the operating system's answers, which are byte slices.\<close>

definition net_resolver :: "(string \<Rightarrow> string list res) \<Rightarrow> resolver" where
  "net_resolver os host = bind_res (os host) (\<lambda>ips.
     Inr (concat (map (\<lambda>ip. case addr_from_slice ip of Some a \<Rightarrow> [unmap a] | None \<Rightarrow> []) ips)))"

definition static_resolver :: "(string \<times> ip_addr list) list \<Rightarrow> resolver" where
  "static_resolver m host = Inr (case map_of m (to_lower host) of Some as \<Rightarrow> as | None \<Rightarrow> [])"

definition reserved_cidrs :: "ip_prefix list" where
  "reserved_cidrs =
    [(Addr4 0x00000000, 8), (Addr4 0x64400000, 10), (Addr4 0xC0000000, 24), (Addr4 0xC0000200, 24),
     (Addr4 0xC6120000, 15), (Addr4 0xC6336400, 24), (Addr4 0xCB007100, 24), (Addr4 0xE0000000, 4),
     (Addr4 0xF0000000, 4), (Addr6 (push_bit 96 0x20010db8) [], 32)]"

definition is_reserved :: "ip_addr \<Rightarrow> bool" where
  "is_reserved ip = list_ex (\<lambda>c. prefix_contains c ip) reserved_cidrs"

definition blocked_addr :: "ip_addr \<Rightarrow> ssrf_policy \<Rightarrow> bool" where
  "blocked_addr ip pol =
     (if sp_allow_private_net pol \<and> list_ex (\<lambda>p. prefix_contains p ip) (sp_allowed_cidrs pol) then False
      else if is_private ip \<or> is_loopback ip \<or> is_link_local_unicast ip \<or> is_link_local_multicast ip
         \<or> is_multicast ip \<or> is_unspecified ip then True
      else if ip = Addr4 0xA9FEA9FE then True
      else if (case ip of Addr6 _ _ \<Rightarrow> True | _ \<Rightarrow> False) \<and> has_prefix (addr_string ip) ''fd00:ec2::254'' then True
      else is_global_unicast ip \<and> is_reserved ip)"

definition dedupe :: "string list \<Rightarrow> string list" where
  "dedupe xs = fst (foldl (\<lambda>(out, seen) v. if v \<in> set seen then (out, seen) else (out @ [v], v # seen)) ([], []) xs)"

text \<open>The host the check works with and the reasons found while normalising it.\<close>

definition ascii_host :: "(string \<Rightarrow> string option) \<Rightarrow> string \<Rightarrow> string \<times> string list" where
  "ascii_host to_ascii host =
     (let h = trim_suffix (to_lower host) ''.'' in
      if h = [] then (h, [])
      else case to_ascii h of None \<Rightarrow> (h, [''invalid_host'']) | Some a \<Rightarrow> (a, []))"

definition validate_addrs :: "resolver \<Rightarrow> ssrf_policy \<Rightarrow> string \<Rightarrow> ip_addr list \<times> string list" where
  "validate_addrs resolver pol h =
     (case parse_addr h of
        Some a \<Rightarrow> ([unmap a], if sp_allow_ip_literal pol then [] else [''ip_literal_blocked''])
      | None \<Rightarrow>
          if h = [] then ([], [])
          else case resolver h of
            Inl _ \<Rightarrow> ([], [''dns_resolution_failed''])
          | Inr as \<Rightarrow> (map unmap as, if as = [] then [''dns_resolution_failed''] else []))"

definition url_reasons :: "ssrf_policy \<Rightarrow> url \<Rightarrow> string list" where
  "url_reasons pol u =
     (let scheme = to_lower (url_scheme u) in
      (if scheme \<noteq> ''https'' \<and> (scheme \<noteq> ''http'' \<or> \<not> sp_allow_http pol) then [''blocked_scheme''] else [])
      @ (if url_user u then [''embedded_credentials''] else [])
      @ (if url_hostname u = [] then [''empty_host''] else [])
      @ (if port_allowed pol (url_port u) then [] else [''blocked_port'']))"

definition ssrf_validate ::
    "(string \<Rightarrow> url option) \<Rightarrow> (url \<Rightarrow> string) \<Rightarrow> (string \<Rightarrow> string option) \<Rightarrow> resolver \<Rightarrow>
     string \<Rightarrow> ssrf_policy \<Rightarrow> ssrf_result" where
  "ssrf_validate parse print to_ascii resolver raw pol =
     (let invalid = \<lparr> sr_allowed = False, sr_normalized_url = [], sr_resolved_ips = [],
            sr_blocked_reasons = [''invalid_url''] \<rparr> in
      case parse raw of
        None \<Rightarrow> invalid
      | Some u \<Rightarrow>
          if url_scheme u = [] then invalid
          else
            let (h, host_blocked) = ascii_host to_ascii (url_hostname u);
                (addrs, addr_blocked) = validate_addrs resolver pol h;
                blocked = url_reasons pol u @ host_blocked @ addr_blocked
                  @ (if list_ex (\<lambda>a. blocked_addr a pol) addrs then [''blocked_ip_range''] else []);
                resolved = map addr_string addrs in
            if blocked \<noteq> []
            then \<lparr> sr_allowed = False, sr_normalized_url = [], sr_resolved_ips = resolved,
                   sr_blocked_reasons = dedupe blocked \<rparr>
            else
              let u1 = u\<lparr>url_scheme := to_lower (url_scheme u), url_host := h\<rparr>;
                  u2 = (if url_port u1 \<noteq> [] then u1\<lparr>url_host := join_host_port h (url_port u1)\<rparr> else u1) in
              \<lparr> sr_allowed = True, sr_normalized_url = print u2, sr_resolved_ips = resolved,
                sr_blocked_reasons = [] \<rparr>)"

subsection \<open>The pinned dialer\<close>

text \<open>The result of a dial: the reasons of a policy error, or the network and address dialled.\<close>

datatype dial_result = DialRefused "string list" | DialTo string string

definition normalized_dial_host :: "(string \<Rightarrow> string option) \<Rightarrow> string \<Rightarrow> string option" where
  "normalized_dial_host to_ascii host =
     (let trimmed = trim_suffix (to_lower (trim_space host)) ''.'' in
      if trimmed = [] then None
      else if parse_addr trimmed \<noteq> None then Some trimmed
      else to_ascii trimmed)"

definition dial_resolve :: "resolver \<Rightarrow> ssrf_policy \<Rightarrow> string \<Rightarrow> string list + ip_addr list" where
  "dial_resolve resolver pol host =
     (case parse_addr host of
        Some a0 \<Rightarrow>
          let a = unmap a0;
              reasons = (if sp_allow_ip_literal pol then [] else [''ip_literal_blocked''])
                @ (if blocked_addr a pol then [''blocked_ip_range''] else []) in
          if reasons \<noteq> [] then Inl (dedupe reasons) else Inr [a]
      | None \<Rightarrow>
          (case resolver host of
             Inl _ \<Rightarrow> Inl [''dns_resolution_failed'']
           | Inr as \<Rightarrow> Inr (map unmap (filter (\<lambda>a. a \<noteq> AddrNone) as))))"

definition dial_context ::
    "(string \<Rightarrow> string option) \<Rightarrow> resolver \<Rightarrow> ssrf_policy \<Rightarrow> string \<Rightarrow> string \<Rightarrow> dial_result" where
  "dial_context to_ascii resolver pol0 network address =
     (case split_host_port address of
        None \<Rightarrow> DialRefused [''invalid_dial_address'']
      | Some (host, port) \<Rightarrow>
          if trim_space host = [] \<or> trim_space port = [] then DialRefused [''invalid_dial_address'']
          else
            let pol = (if sp_allowed_ports pol0 = None
                  then pol0\<lparr>sp_allowed_ports := sp_allowed_ports ssrf_default_policy\<rparr> else pol0) in
            if \<not> port_allowed pol port then DialRefused [''blocked_port'']
            else case normalized_dial_host to_ascii host of
              None \<Rightarrow> DialRefused [''invalid_host'']
            | Some h \<Rightarrow>
                (case dial_resolve resolver pol h of
                   Inl reasons \<Rightarrow> DialRefused reasons
                 | Inr [] \<Rightarrow> DialRefused [''dns_resolution_failed'']
                 | Inr (a # as) \<Rightarrow>
                     if list_ex (\<lambda>a. blocked_addr a pol) (a # as)
                     then DialRefused (dedupe (map (\<lambda>_. ''blocked_ip_range'')
                            (filter (\<lambda>a. blocked_addr a pol) (a # as))))
                     else DialTo network (join_host_port (addr_string a) port)))"

section \<open>Reasons\<close>

lemma dedupe_set: "set (dedupe xs) = set xs \<and> distinct (dedupe xs)"
proof -
  let ?step = "\<lambda>(out, seen) v. if v \<in> set seen then (out, seen) else (out @ [v], v # seen)"
  have "set (fst (foldl ?step (out, seen) xs)) = set out \<union> set xs
      \<and> distinct (fst (foldl ?step (out, seen) xs))"
    if "set out = set seen" "distinct out" for out seen :: "string list"
    using that
  proof (induction xs arbitrary: out seen)
    case Nil
    then show ?case by simp
  next
    case (Cons x xs)
    then show ?case by (cases "x \<in> set seen") auto
  qed
  from this [of "[]" "[]"] show ?thesis by (simp add: dedupe_def)
qed

lemma dedupe_empty: "dedupe xs = [] \<longleftrightarrow> xs = []"
  using dedupe_set [of xs] by (metis set_empty)

lemma url_reasons_Nil:
  "url_reasons pol u = [] \<longleftrightarrow>
     (to_lower (url_scheme u) = ''https'' \<or> (to_lower (url_scheme u) = ''http'' \<and> sp_allow_http pol))
     \<and> \<not> url_user u \<and> url_hostname u \<noteq> [] \<and> port_allowed pol (url_port u)"
  by (auto simp: url_reasons_def Let_def)

section \<open>Blocked IPv4 addresses\<close>

text \<open>
  The address ranges the guard is meant to keep out, as intervals of the 32-bit value: this
  network, private use, shared address space, loopback, link local, protocol assignments and
  documentation, benchmarking, multicast and the reserved block.
\<close>

definition v4_forbidden :: "nat \<Rightarrow> bool" where
  "v4_forbidden n = list_ex (\<lambda>(lo, hi). lo \<le> n \<and> n \<le> hi)
     [(0x00000000, 0x00FFFFFF), (0x0A000000, 0x0AFFFFFF), (0x64400000, 0x647FFFFF),
      (0x7F000000, 0x7FFFFFFF), (0xA9FE0000, 0xA9FEFFFF), (0xAC100000, 0xAC1FFFFF),
      (0xC0000000, 0xC00000FF), (0xC0000200, 0xC00002FF), (0xC0A80000, 0xC0A8FFFF),
      (0xC6120000, 0xC613FFFF), (0xC6336400, 0xC63364FF), (0xCB007100, 0xCB0071FF),
      (0xE0000000, 0xFFFFFFFE)]"

lemma v4_second_byte:
  "v4_byte a 0 = p \<and> v4_byte a 1 = q \<longleftrightarrow> unat a div 2 ^ 16 = p * 256 + q \<and> q < 256"
proof -
  have "unat a div 2 ^ 24 = unat a div 2 ^ 16 div 256" by (simp flip: div_mult2_eq)
  then show ?thesis unfolding v4_byte_div by auto
qed

lemma v4_classes:
  "is_private (Addr4 a) \<longleftrightarrow> 0x0A000000 \<le> unat a \<and> unat a \<le> 0x0AFFFFFF
     \<or> 0xAC100000 \<le> unat a \<and> unat a \<le> 0xAC1FFFFF \<or> 0xC0A80000 \<le> unat a \<and> unat a \<le> 0xC0A8FFFF" (is ?P)
  "is_loopback (Addr4 a) \<longleftrightarrow> 0x7F000000 \<le> unat a \<and> unat a \<le> 0x7FFFFFFF" (is ?L)
  "is_link_local_unicast (Addr4 a) \<longleftrightarrow> 0xA9FE0000 \<le> unat a \<and> unat a \<le> 0xA9FEFFFF" (is ?U)
  "is_multicast (Addr4 a) \<longleftrightarrow> 0xE0000000 \<le> unat a \<and> unat a \<le> 0xEFFFFFFF" (is ?M)
proof -
  note between = div_between_nat [where d = "2 ^ 24"] div_between_nat [where d = "2 ^ 16"]
    div_between_nat [where d = "2 ^ 20"] div_between_nat [where d = "2 ^ 28"]
  have lt: "v4_byte a 0 < 256" "v4_byte a 1 < 256" by (simp_all add: v4_byte_def)
  have nib: "v4_byte a 0 AND 0xf0 = 0xe0 \<longleftrightarrow> unat a div 2 ^ 28 = 14"
  proof -
    have "unat a div 2 ^ 28 = v4_byte a 0 div 16" by (simp add: v4_byte_div flip: div_mult2_eq)
    then show ?thesis using and_high_nibble [OF lt(1)] by simp
  qed
  have nib2: "v4_byte a 0 = 172 \<and> v4_byte a 1 AND 0xf0 = 16 \<longleftrightarrow> unat a div 2 ^ 20 = 172 * 16 + 1"
  proof -
    have "unat a div 2 ^ 20 = unat a div 2 ^ 16 div 16" by (simp flip: div_mult2_eq)
    moreover have "unat a div 2 ^ 16 = v4_byte a 0 * 256 + v4_byte a 1"
      using v4_second_byte [of a "v4_byte a 0" "v4_byte a 1"] by simp
    ultimately have "unat a div 2 ^ 20 = v4_byte a 0 * 16 + v4_byte a 1 div 16" by simp
    moreover have "v4_byte a 1 div 16 < 16" using lt(2) by (simp add: less_mult_imp_div_less)
    moreover have "p * 16 + q = 172 * 16 + 1 \<longleftrightarrow> p = 172 \<and> q = 1" if "q < 16" for p q :: nat
      using that by presburger
    ultimately show ?thesis using and_high_nibble [OF lt(2)] by simp
  qed
  show ?L by (simp add: is_loopback_def unmap_def v4_byte_div(1) between) auto
  show ?U by (simp add: is_link_local_unicast_def unmap_def v4_second_byte between del: One_nat_def) auto
  show ?M by (simp add: is_multicast_def unmap_def nib between) auto
  have "is_private (Addr4 a) \<longleftrightarrow>
      unat a div 2 ^ 24 = 10 \<or> unat a div 2 ^ 20 = 172 * 16 + 1 \<or> (unat a div 2 ^ 16 = 192 * 256 + 168 \<and> (168 :: nat) < 256)"
    by (simp only: is_private_def unmap_def ip_addr.case nib2 v4_second_byte flip: v4_byte_div(1))
  then show ?P by (simp add: between) auto
qed


lemma v4_unspecified: "is_unspecified (Addr4 a) \<longleftrightarrow> unat a = 0"
  by (simp add: is_unspecified_def unat_eq_0)

lemma v4_metadata: "Addr4 a = Addr4 0xA9FEA9FE \<longleftrightarrow> unat a = 0xA9FEA9FE"
  by (simp add: word_unat_eq_iff)

lemma v4_reserved: "is_reserved (Addr4 a) \<longleftrightarrow>
    unat a \<le> 0x00FFFFFF \<or> 0x64400000 \<le> unat a \<and> unat a \<le> 0x647FFFFF
    \<or> 0xC0000000 \<le> unat a \<and> unat a \<le> 0xC00000FF \<or> 0xC0000200 \<le> unat a \<and> unat a \<le> 0xC00002FF
    \<or> 0xC6120000 \<le> unat a \<and> unat a \<le> 0xC613FFFF \<or> 0xC6336400 \<le> unat a \<and> unat a \<le> 0xC63364FF
    \<or> 0xCB007100 \<le> unat a \<and> unat a \<le> 0xCB0071FF \<or> 0xE0000000 \<le> unat a \<and> unat a \<le> 0xFFFFFFFF"
proof -
  have v6: "\<not> prefix_contains (Addr6 b z, k) (Addr4 a)" for b z k by (simp add: prefix_contains_def)
  show ?thesis by (simp add: is_reserved_def reserved_cidrs_def v6 prefix4_interval) arith
qed

lemma v4_blocked_iff:
  assumes "\<not> sp_allow_private_net pol"
  shows "blocked_addr (Addr4 a) pol \<longleftrightarrow> v4_forbidden (unat a)"
proof -
  have lt: "unat a < 0x100000000" using unsigned_less [of a] by simp
  have ll: "is_link_local_multicast (Addr4 a) \<Longrightarrow> is_multicast (Addr4 a)"
    by (simp add: is_link_local_multicast_def is_multicast_def unmap_def)
  have g: "is_global_unicast (Addr4 a) \<longleftrightarrow> unat a \<noteq> 0 \<and> unat a \<noteq> 0xFFFFFFFF \<and> \<not> is_loopback (Addr4 a)
      \<and> \<not> is_multicast (Addr4 a) \<and> \<not> is_link_local_unicast (Addr4 a)"
    by (simp add: is_global_unicast_def unmap_def word_unat_eq_iff Let_def)
  have "blocked_addr (Addr4 a) pol \<longleftrightarrow> is_private (Addr4 a) \<or> is_loopback (Addr4 a)
      \<or> is_link_local_unicast (Addr4 a) \<or> is_multicast (Addr4 a) \<or> unat a = 0 \<or> unat a = 0xA9FEA9FE
      \<or> (unat a \<noteq> 0xFFFFFFFF \<and> is_reserved (Addr4 a))"
    unfolding blocked_addr_def v4_unspecified v4_metadata g ip_addr.case using assms ll by argo
  also have "\<dots> \<longleftrightarrow> v4_forbidden (unat a)" (is "?l \<longleftrightarrow> ?r")
  proof
    assume ?l
    then show ?r unfolding v4_classes v4_reserved v4_forbidden_def using lt by (elim disjE conjE) simp_all
  next
    assume ?r
    then show ?l unfolding v4_classes v4_reserved v4_forbidden_def list_ex_Cons_iff list_ex_Nil_iff prod.case using lt
      by (elim disjE conjE) simp_all
  qed
  finally show ?thesis .
qed

section \<open>Blocked IPv6 addresses\<close>

text \<open>
  The IPv6 addresses the guard keeps out: loopback, unique local, link local and multicast, and,
  for an address without a zone, the unspecified address and the documentation block.
\<close>

definition v6_forbidden :: "nat \<Rightarrow> string \<Rightarrow> bool" where
  "v6_forbidden n z \<longleftrightarrow> n = 1 \<or> n div 2 ^ 121 = 0x7E \<or> n div 2 ^ 118 = 0x3FA \<or> n div 2 ^ 120 = 0xFF
     \<or> (z = [] \<and> (n = 0 \<or> n div 2 ^ 96 = 0x20010DB8))"

definition forbidden_addr :: "ip_addr \<Rightarrow> bool" where
  "forbidden_addr ip = (case ip of AddrNone \<Rightarrow> False | Addr4 a \<Rightarrow> v4_forbidden (unat a)
     | Addr6 a z \<Rightarrow> v6_forbidden (unat a) z)"

lemma v6_forbidden_blocked:
  assumes "\<not> sp_allow_private_net pol" and "\<not> is_4in6 (Addr6 a z)" and "v6_forbidden (unat a) z"
  shows "blocked_addr (Addr6 a z) pol"
proof -
  have u: "unmap (Addr6 a z) = Addr6 a z" using assms(2) by (simp add: unmap_def)
  have lt: "v6_byte a 0 < 256" "v6_u16 a 0 < 65536" by (simp_all add: v6_byte_def v6_u16_def)
  have m1: "v6_byte a 0 AND 0xfe = 0xfc \<longleftrightarrow> unat a div 2 ^ 121 = 0x7E"
  proof -
    have "v6_byte a 0 div 2 = unat a div 2 ^ 121" by (simp add: v6_first flip: div_mult2_eq)
    then show ?thesis using and_high_bits [of "v6_byte a 0" 1 7] lt
      by (simp add: mask_eq_exp_minus_1 push_bit_eq_mult)
  qed
  have m2: "v6_u16 a 0 AND 0xffc0 = 0xfe80 \<longleftrightarrow> unat a div 2 ^ 118 = 0x3FA"
  proof -
    have "v6_u16 a 0 div 64 = unat a div 2 ^ 118" by (simp add: v6_first flip: div_mult2_eq)
    then show ?thesis using and_high_bits [of "v6_u16 a 0" 6 10] lt
      by (simp add: mask_eq_exp_minus_1 push_bit_eq_mult)
  qed
  have classes: "is_private (Addr6 a z) \<longleftrightarrow> unat a div 2 ^ 121 = 0x7E"
    "is_loopback (Addr6 a z) \<longleftrightarrow> unat a = 1"
    "is_link_local_unicast (Addr6 a z) \<longleftrightarrow> unat a div 2 ^ 118 = 0x3FA"
    "is_multicast (Addr6 a z) \<longleftrightarrow> unat a div 2 ^ 120 = 0xFF"
    "is_unspecified (Addr6 a z) \<longleftrightarrow> unat a = 0 \<and> z = []"
    using m1 m2 by (simp_all add: is_private_def is_loopback_def is_link_local_unicast_def is_multicast_def
        is_unspecified_def u v6_first word_unat_eq_iff)
  have doc: "is_reserved (Addr6 a z)" if "z = []" "unat a div 2 ^ 96 = 0x20010DB8"
    using that prefix6_iff [of 32 "push_bit 96 0x20010db8" a]
    by (simp add: is_reserved_def reserved_cidrs_def push_bit_eq_mult)
  have glob: "is_global_unicast (Addr6 a z)" if "unat a div 2 ^ 96 = 0x20010DB8"
    "\<not> is_loopback (Addr6 a z)" "\<not> is_multicast (Addr6 a z)" "\<not> is_link_local_unicast (Addr6 a z)"
    using that by (auto simp: is_global_unicast_def u Let_def)
  show ?thesis using assms(1,3) classes doc glob unfolding v6_forbidden_def blocked_addr_def by auto
qed

lemma forbidden_blocked:
  assumes "\<not> sp_allow_private_net pol" and "forbidden_addr (unmap ip)"
  shows "blocked_addr (unmap ip) pol"
proof (cases "unmap ip")
  case AddrNone
  with assms show ?thesis by (simp add: forbidden_addr_def)
next
  case (Addr4 a)
  with assms(2) have "v4_forbidden (unat a)" by (simp add: forbidden_addr_def)
  then show ?thesis using v4_blocked_iff [OF assms(1)] unfolding Addr4 by blast
next
  case (Addr6 a z)
  then have "\<not> is_4in6 (Addr6 a z)" by (auto simp: unmap_def split: ip_addr.splits if_splits)
  moreover have "v6_forbidden (unat a) z" using Addr6 assms(2) by (simp add: forbidden_addr_def)
  ultimately show ?thesis unfolding Addr6 by (rule v6_forbidden_blocked [OF assms(1)])
qed

section \<open>Properties\<close>

lemma validate_addrs_source:
  assumes "validate_addrs resolver pol h = (addrs, [])"
  shows "h = [] \<and> addrs = []
    \<or> addrs \<noteq> [] \<and> (\<exists>as. addrs = map unmap as
        \<and> (parse_addr h = None \<and> resolver h = Inr as
           \<or> sp_allow_ip_literal pol \<and> (\<exists>a. parse_addr h = Some a \<and> as = [a])))"
  using assms
  by (auto simp: validate_addrs_def split: option.splits if_splits sum.splits)

text \<open>
  C23. What an allowed URL is: its scheme is https (or http where the policy allows it), it has no
  user information, its port is allowed, and it is stored with the addresses of its host, none of
  which the policy blocks; outside the networks of an operator's exception none of them is a
  private, loopback, link-local, multicast, reserved or documentation address. There is at least
  one address, unless the host is nothing but a dot.
\<close>

theorem validate_allowed_public:
  assumes "sr_allowed (ssrf_validate parse print to_ascii resolver raw pol)"
  shows "\<exists>u addrs. parse raw = Some u
    \<and> (to_lower (url_scheme u) = ''https'' \<or> (to_lower (url_scheme u) = ''http'' \<and> sp_allow_http pol))
    \<and> \<not> url_user u \<and> port_allowed pol (url_port u)
    \<and> sr_resolved_ips (ssrf_validate parse print to_ascii resolver raw pol) = map addr_string addrs
    \<and> (\<forall>a \<in> set addrs. \<not> blocked_addr a pol \<and> (\<not> sp_allow_private_net pol \<longrightarrow> \<not> forbidden_addr a))
    \<and> (fst (ascii_host to_ascii (url_hostname u)) \<noteq> [] \<longrightarrow> addrs \<noteq> [])"
proof -
  obtain u where u: "parse raw = Some u" "url_scheme u \<noteq> []"
    using assms by (auto simp: ssrf_validate_def Let_def split: option.splits if_splits)
  obtain h hb where h: "ascii_host to_ascii (url_hostname u) = (h, hb)" by fastforce
  obtain addrs ab where a: "validate_addrs resolver pol h = (addrs, ab)" by fastforce
  have nil: "url_reasons pol u = []" "hb = []" "ab = []" "\<not> list_ex (\<lambda>a. blocked_addr a pol) addrs"
    using assms u h a by (auto simp: ssrf_validate_def Let_def split: if_splits)
  have res: "sr_resolved_ips (ssrf_validate parse print to_ascii resolver raw pol) = map addr_string addrs"
    using nil u h a by (simp add: ssrf_validate_def Let_def)
  note src = validate_addrs_source [OF a [unfolded nil(3)]]
  have ok: "\<not> blocked_addr x pol \<and> (\<not> sp_allow_private_net pol \<longrightarrow> \<not> forbidden_addr x)" if x: "x \<in> set addrs" for x
  proof -
    have "x \<in> range unmap" using src x by auto
    then obtain y where "x = unmap y" by blast
    then show ?thesis using nil(4) x forbidden_blocked [of pol y] by (auto simp: list_ex_iff)
  qed
  have "fst (ascii_host to_ascii (url_hostname u)) \<noteq> [] \<longrightarrow> addrs \<noteq> []" using src h by auto
  then show ?thesis using u(1) nil(1) res ok unfolding url_reasons_Nil by blast
qed

definition sample_url :: url where
  "sample_url = \<lparr> url_scheme = ''https'', url_user = False, url_host = ''a.example'', url_rest = ''/h'' \<rparr>"

definition sample_resolver :: resolver where
  "sample_resolver = static_resolver [(''a.example'', [Addr4 0x5DB8D822])]"

lemma sample_host: "url_split ''a.example'' = (''a.example'', [])" "parse_addr ''a.example'' = None"
  "to_lower ''a.example'' = ''a.example''" "trim_suffix ''a.example'' ''.'' = ''a.example''"
  by code_simp+

lemma sample_validates:
  "sr_allowed (ssrf_validate (\<lambda>_. Some sample_url) (\<lambda>_. ''https://a.example/h'') Some sample_resolver ''x'' ssrf_default_policy)"
proof -
  have "\<not> blocked_addr (Addr4 0x5DB8D822) ssrf_default_policy"
    by (subst v4_blocked_iff) (simp_all add: ssrf_default_policy_def v4_forbidden_def)
  moreover have "to_lower ''https'' = ''https''" by code_simp
  ultimately show ?thesis
    by (simp add: ssrf_validate_def sample_url_def sample_host url_reasons_def url_hostname_def url_port_def
        ascii_host_def validate_addrs_def sample_resolver_def static_resolver_def unmap_def port_allowed_def Let_def)
       (simp add: ssrf_default_policy_def)
qed

theorem validate_allowed_public_witness:
  "\<exists>addrs. addrs \<noteq> [] \<and> (\<forall>a \<in> set addrs. \<not> forbidden_addr a)
     \<and> sr_resolved_ips (ssrf_validate (\<lambda>_. Some sample_url) (\<lambda>_. ''https://a.example/h'') Some sample_resolver ''x''
         ssrf_default_policy) = map addr_string addrs"
proof -
  have "fst (ascii_host Some (url_hostname sample_url)) \<noteq> []"
    by (simp add: sample_url_def url_hostname_def sample_host ascii_host_def)
  moreover have "\<not> sp_allow_private_net ssrf_default_policy" by (simp add: ssrf_default_policy_def)
  ultimately show ?thesis using validate_allowed_public [OF sample_validates] by auto
qed

text \<open>
  C22. The dialer is safe against DNS rebinding: whatever was validated before and whatever the
  name servers answer now, a connection is only made to a numeric address that the policy does
  not block, and, outside an operator's exception, to no private, loopback, link-local, multicast,
  reserved or documentation address; on an allowed port; and that address is the literal host of
  an allowed literal or one of the addresses just resolved, none of which may be blocked.
\<close>

theorem pinned_dial_safe:
  assumes "dial_context to_ascii resolver pol network address = DialTo net target"
  shows "\<exists>a h host port. net = network \<and> target = join_host_port (addr_string a) port
    \<and> split_host_port address = Some (host, port) \<and> normalized_dial_host to_ascii host = Some h
    \<and> port \<noteq> [] \<and> (port_allowed pol port \<or> sp_allowed_ports pol = None \<and> port = ''443'')
    \<and> \<not> blocked_addr a pol \<and> (\<not> sp_allow_private_net pol \<longrightarrow> \<not> forbidden_addr a)
    \<and> (sp_allow_ip_literal pol \<and> map_option unmap (parse_addr h) = Some a
       \<or> (\<exists>as. resolver h = Inr as \<and> a \<in> unmap ` set as \<and> (\<forall>x \<in> set as. x \<noteq> AddrNone \<longrightarrow> \<not> blocked_addr (unmap x) pol)))"
proof -
  define pol' where "pol' = (if sp_allowed_ports pol = None
    then pol\<lparr>sp_allowed_ports := sp_allowed_ports ssrf_default_policy\<rparr> else pol)"
  have same: "blocked_addr x pol' = blocked_addr x pol" "sp_allow_ip_literal pol' = sp_allow_ip_literal pol" for x
  proof -
    have "blocked_addr x (pol\<lparr>sp_allowed_ports := ps\<rparr>) = blocked_addr x pol" for ps
      unfolding blocked_addr_def by simp
    then show "blocked_addr x pol' = blocked_addr x pol" "sp_allow_ip_literal pol' = sp_allow_ip_literal pol"
      by (simp_all add: pol'_def)
  qed
  obtain host port where hp: "split_host_port address = Some (host, port)" "trim_space port \<noteq> []" "port_allowed pol' port"
    using assms by (auto simp: dial_context_def Let_def pol'_def split: option.splits if_splits)
  obtain h a as where h: "normalized_dial_host to_ascii host = Some h" "dial_resolve resolver pol' h = Inr (a # as)"
    "\<not> list_ex (\<lambda>a. blocked_addr a pol') (a # as)" "net = network" "target = join_host_port (addr_string a) port"
    using assms hp
    by (auto simp: dial_context_def Let_def simp flip: pol'_def split: option.splits if_splits sum.splits list.splits)
  have port: "port_allowed pol port \<or> sp_allowed_ports pol = None \<and> port = ''443''"
    using hp(2,3) by (auto simp: pol'_def port_allowed_def ssrf_default_policy_def split: if_splits option.splits)
  have src: "(sp_allow_ip_literal pol \<and> map_option unmap (parse_addr h) = Some a \<and> as = [])
      \<or> (\<exists>bs. resolver h = Inr bs \<and> a # as = map unmap (filter (\<lambda>a. a \<noteq> AddrNone) bs))"
    using h(2) by (auto simp: dial_resolve_def same Let_def split: option.splits if_splits sum.splits)
  then have "a \<in> range unmap" by (auto simp: Cons_eq_map_conv)
  then obtain y where "a = unmap y" by blast
  then have "\<not> sp_allow_private_net pol \<longrightarrow> \<not> forbidden_addr a"
    using h(3) forbidden_blocked [of pol y] by (auto simp: same)
  moreover have "sp_allow_ip_literal pol \<and> map_option unmap (parse_addr h) = Some a
       \<or> (\<exists>as. resolver h = Inr as \<and> a \<in> unmap ` set as \<and> (\<forall>x \<in> set as. x \<noteq> AddrNone \<longrightarrow> \<not> blocked_addr (unmap x) pol))"
    using src
  proof
    assume "\<exists>bs. resolver h = Inr bs \<and> a # as = map unmap (filter (\<lambda>a. a \<noteq> AddrNone) bs)"
    then obtain bs where bs: "resolver h = Inr bs" "a # as = map unmap (filter (\<lambda>a. a \<noteq> AddrNone) bs)"
      by (elim exE conjE)
    then have "set (a # as) = unmap ` {x \<in> set bs. x \<noteq> AddrNone}" by simp
    then show ?thesis using bs(1) h(3) by (auto simp: list_ex_iff same)
  qed blast
  ultimately show ?thesis using hp h port by (auto simp: same)
qed

theorem pinned_dial_safe_witness:
  "\<exists>a. dial_context Some sample_resolver ssrf_default_policy ''tcp'' ''a.example:443''
      = DialTo ''tcp'' (join_host_port (addr_string a) ''443'') \<and> \<not> forbidden_addr a"
proof -
  have "\<not> blocked_addr (Addr4 0x5DB8D822) ssrf_default_policy"
    by (subst v4_blocked_iff) (simp_all add: ssrf_default_policy_def v4_forbidden_def)
  moreover have "split_host_port ''a.example:443'' = Some (''a.example'', ''443'')" by code_simp
  moreover have "trim_space ''a.example'' = ''a.example''" "trim_space ''443'' = ''443''" by code_simp+
  moreover have "port_allowed ssrf_default_policy ''443''" by code_simp
  moreover have "sp_allowed_ports ssrf_default_policy \<noteq> None" by (simp add: ssrf_default_policy_def)
  ultimately have d: "dial_context Some sample_resolver ssrf_default_policy ''tcp'' ''a.example:443''
      = DialTo ''tcp'' (join_host_port (addr_string (Addr4 0x5DB8D822)) ''443'')"
    by (auto simp: dial_context_def normalized_dial_host_def sample_host dial_resolve_def sample_resolver_def
        static_resolver_def unmap_def Let_def)
  have "\<not> sp_allow_private_net ssrf_default_policy" by (simp add: ssrf_default_policy_def)
  moreover have "split_host_port ''a.example:443'' = Some (''a.example'', ''443'')" by code_simp
  ultimately show ?thesis using pinned_dial_safe [OF d] d by (elim exE) (auto intro: exI)
qed

text \<open>
  C24. Without an operator's exception the IPv4 addresses the guard lets through are exactly those
  outside the forbidden ranges. The limited broadcast address 255.255.255.255 is let through
  although the reserved block 240.0.0.0/4 contains it, since the reserved blocks are only
  consulted for global unicast addresses.
\<close>

theorem blocked_v4_exact:
  assumes "\<not> sp_allow_private_net pol"
  shows "(blocked_addr (Addr4 a) pol \<longleftrightarrow> v4_forbidden (unat a))
    \<and> is_reserved (Addr4 0xFFFFFFFF) \<and> \<not> blocked_addr (Addr4 0xFFFFFFFF) pol"
  using v4_blocked_iff [OF assms] by (simp add: v4_reserved v4_forbidden_def)

theorem blocked_v4_exact_witness:
  "blocked_addr (Addr4 0x0A000001) ssrf_default_policy \<and> \<not> blocked_addr (Addr4 0x5DB8D822) ssrf_default_policy"
proof -
  have "\<not> sp_allow_private_net ssrf_default_policy" by (simp add: ssrf_default_policy_def)
  from blocked_v4_exact [OF this] show ?thesis by (simp add: v4_forbidden_def)
qed

text \<open>
  Two corner cases of the URL check, for every policy that allows the port. A host that is a
  single dot is allowed without any address having been looked up. The normalised URL loses its
  port: the port is read again after the host has been replaced by the bare host name.
\<close>

theorem validate_corner_cases:
  assumes "parse raw = Some u" and "to_lower (url_scheme u) = ''https''" and "\<not> url_user u"
    and "port_allowed pol (url_port u)"
  shows "(url_hostname u = ''.'' \<longrightarrow>
      ssrf_validate parse print to_ascii resolver raw pol
        = \<lparr> sr_allowed = True, sr_normalized_url = print (u\<lparr>url_scheme := ''https'', url_host := []\<rparr>),
            sr_resolved_ips = [], sr_blocked_reasons = [] \<rparr>)
    \<and> (sr_allowed (ssrf_validate parse print to_ascii resolver raw pol) \<and>
      CHR '':'' \<notin> set (fst (ascii_host to_ascii (url_hostname u))) \<longrightarrow>
      sr_normalized_url (ssrf_validate parse print to_ascii resolver raw pol)
        = print (u\<lparr>url_scheme := ''https'', url_host := fst (ascii_host to_ascii (url_hostname u))\<rparr>))"
proof -
  have sch: "url_scheme u \<noteq> []" using assms(2) by auto
  have nosplit: "snd (url_split h) = []" if "CHR '':'' \<notin> set h" for h
    using that by (simp add: url_split_def last_index_def Let_def)
  have dot: "ssrf_validate parse print to_ascii resolver raw pol
        = \<lparr> sr_allowed = True, sr_normalized_url = print (u\<lparr>url_scheme := ''https'', url_host := []\<rparr>),
            sr_resolved_ips = [], sr_blocked_reasons = [] \<rparr>" if h: "url_hostname u = ''.''"
  proof -
    have "ascii_host to_ascii ''.'' = ([], [])"
      by (simp add: ascii_host_def trim_suffix_def to_lower_def lower_char_def)
    moreover have "validate_addrs resolver pol [] = ([], [])" by (simp add: validate_addrs_def parse_addr_def)
    ultimately show ?thesis using assms sch h nosplit [of "[]"]
      by (simp add: ssrf_validate_def url_reasons_def url_port_def Let_def)
  qed
  moreover have "sr_normalized_url (ssrf_validate parse print to_ascii resolver raw pol)
        = print (u\<lparr>url_scheme := ''https'', url_host := fst (ascii_host to_ascii (url_hostname u))\<rparr>)"
    if "sr_allowed (ssrf_validate parse print to_ascii resolver raw pol)"
      "CHR '':'' \<notin> set (fst (ascii_host to_ascii (url_hostname u)))"
    using that assms sch nosplit
    by (auto simp: ssrf_validate_def url_port_def Let_def split: prod.splits if_splits)
  ultimately show ?thesis by blast
qed

theorem validate_corner_cases_witness:
  "sr_allowed (ssrf_validate (\<lambda>_. Some (sample_url\<lparr>url_host := ''.''\<rparr>)) (\<lambda>_. ''https:///h'') Some (\<lambda>_. Inl ErrNotFound)
     ''https://./h'' ssrf_default_policy)"
proof -
  let ?u = "sample_url\<lparr>url_host := ''.''\<rparr>"
  have "url_split ''.'' = (''.'', [])" by code_simp
  then have s: "url_hostname ?u = ''.''" "url_port ?u = []" by (simp_all add: url_hostname_def url_port_def)
  have "to_lower (url_scheme ?u) = ''https''" by code_simp
  moreover have "port_allowed ssrf_default_policy (url_port ?u)" by (simp add: s) code_simp
  ultimately show ?thesis
    using validate_corner_cases [of "\<lambda>_. Some ?u" _ ?u] s by (simp add: sample_url_def)
qed

end
