(* ===== verification/Delivery_Client.thy ===== *)
theory Delivery_Client
  imports Hmac_Verifier Ssrf_Guard
begin

text \<open>
  The HTTP client of deliveries (internal/adapters/deliveryhttp/client.go): the egress check and
  the signature headers of a request, the choice of a pinned transport, and the classification of
  the answer. The round trip on the wire (\<open>send\<close>), the check of the client key pair
  (\<open>key_pair_ok\<close>) and the arguments of the egress guard are arguments.
\<close>

section \<open>Model\<close>

datatype client_transport = NoClient | NilTransport | HttpTransport | CustomTransport

record delivery_client =
  dc_transport :: client_transport
  dc_secret :: string
  dc_signing_key_id :: string
  dc_signing_key_version :: int
  dc_mtls_cert :: string
  dc_mtls_key :: string

record http_request =
  hr_url :: string
  hr_headers :: "(string \<times> string) list"
  hr_body :: string

record url_lib =
  ul_parse :: "string \<Rightarrow> url option"
  ul_print :: "url \<Rightarrow> string"
  ul_to_ascii :: "string \<Rightarrow> string option"

definition endpoint_blocked :: "string list \<Rightarrow> go_error" where
  "endpoint_blocked reasons = ErrOther (''endpoint URL blocked: ['' @ join_with '' '' reasons @ '']'')"

definition build_request ::
    "url_lib \<Rightarrow> resolver \<Rightarrow> hmac \<Rightarrow> delivery_client \<Rightarrow> gotime \<Rightarrow> string \<Rightarrow> string \<Rightarrow> http_request res" where
  "build_request ul resolver mac c now raw_url body =
     (let result = ssrf_validate (ul_parse ul) (ul_print ul) (ul_to_ascii ul) resolver raw_url ssrf_default_policy in
      if \<not> sr_allowed result then Inl (endpoint_blocked (sr_blocked_reasons result))
      else if ul_parse ul (sr_normalized_url result) = None then Inl (ErrOther ''parse'')
      else
        let timestamp = itoa (unix_of now) in
        Inr \<lparr> hr_url = sr_normalized_url result,
              hr_headers =
                [(''Content-Type'', ''application/json''), (''User-Agent'', ''Webhookery/0.1''),
                 (''Webhook-Timestamp'', timestamp),
                 (''Webhook-Signature'', ''t='' @ timestamp @ '',v1='' @ sign_hex mac (dc_secret c) (timestamp @ ''.'' @ body))]
                @ (if dc_signing_key_id c \<noteq> [] then [(''Webhook-Signature-Key-Id'', dc_signing_key_id c)] else [])
                @ (if 0 < dc_signing_key_version c
                   then [(''Webhook-Signature-Key-Version'', itoa (dc_signing_key_version c))] else []),
              hr_body = body \<rparr>)"

text \<open>
  \<open>safeHTTPClient\<close> and \<open>httpClient\<close>: the pinned transports are those built with the guard's
  dialer; a custom transport cannot enforce it and is refused.
\<close>

definition unsafe_custom_transport :: go_error where
  "unsafe_custom_transport = ErrOther ''custom HTTP transport cannot enforce pinned egress''"

definition safe_http_client :: "delivery_client \<Rightarrow> unit res" where
  "safe_http_client c = (case dc_transport c of
     NoClient \<Rightarrow> Inr () | NilTransport \<Rightarrow> Inr () | HttpTransport \<Rightarrow> Inr () | CustomTransport \<Rightarrow> Inl unsafe_custom_transport)"

definition http_client :: "(string \<Rightarrow> string \<Rightarrow> bool) \<Rightarrow> delivery_client \<Rightarrow> unit res" where
  "http_client key_pair_ok c =
     bind_res (safe_http_client c) (\<lambda>_.
     if dc_mtls_cert c = [] \<and> dc_mtls_key c = [] then Inr ()
     else if dc_mtls_cert c = [] \<or> dc_mtls_key c = []
     then Inl (ErrOther ''mTLS client certificate and key are required together'')
     else guard_res (key_pair_ok (dc_mtls_cert c) (dc_mtls_key c)) (ErrOther ''tls''))"

definition classify_response :: "int \<Rightarrow> string" where
  "classify_response status =
     (if 200 \<le> status \<and> status \<le> 299 then ''success''
      else if status = 408 \<or> status = 409 \<or> status = 425 \<or> status = 429 then ''temporary_http''
      else if 500 \<le> status \<and> status \<le> 599 then ''temporary_http''
      else if 300 \<le> status \<and> status \<le> 399 then ''redirect_blocked''
      else ''permanent_http'')"

datatype send_result =
    SendPolicyError "string list"
  | SendError
  | SendResponse int string bool

record deliver_result =
  dl_status :: int
  dl_body :: string
  dl_truncated :: bool
  dl_failure_class :: string

definition failed_delivery :: "string \<Rightarrow> deliver_result" where
  "failed_delivery fc = \<lparr> dl_status = 0, dl_body = [], dl_truncated = False, dl_failure_class = fc \<rparr>"

definition response_limit :: nat where
  "response_limit = 16384"

definition deliver ::
    "url_lib \<Rightarrow> resolver \<Rightarrow> hmac \<Rightarrow> (string \<Rightarrow> string \<Rightarrow> bool) \<Rightarrow> (http_request \<Rightarrow> send_result) \<Rightarrow> delivery_client \<Rightarrow>
     gotime \<Rightarrow> string \<Rightarrow> string \<Rightarrow> deliver_result \<times> go_error option" where
  "deliver ul resolver mac key_pair_ok send c now raw_url body =
     (case build_request ul resolver mac c now raw_url body of
        Inl e \<Rightarrow> (failed_delivery ''policy_blocked'', Some e)
      | Inr req \<Rightarrow>
          (case http_client key_pair_ok c of
             Inl e \<Rightarrow> (failed_delivery (if e = unsafe_custom_transport then ''client_configuration_error''
                         else ''client_certificate_error''), Some e)
           | Inr _ \<Rightarrow>
               (case send req of
                  SendPolicyError reasons \<Rightarrow> (failed_delivery ''policy_blocked'',
                    Some (ErrOther (''ssrf policy blocked: '' @ join_with '','' reasons)))
                | SendError \<Rightarrow> (failed_delivery ''network_error'', Some (ErrOther ''delivery network error''))
                | SendResponse status resp_body read_ok \<Rightarrow>
                    if \<not> read_ok
                    then (\<lparr> dl_status = status, dl_body = [], dl_truncated = False,
                            dl_failure_class = ''response_read_error'' \<rparr>, Some (ErrOther ''read''))
                    else let b = take response_limit resp_body in
                      (\<lparr> dl_status = status, dl_body = b, dl_truncated = (length b = response_limit),
                         dl_failure_class = classify_response status \<rparr>, None))))"

section \<open>Verification of a timestamped signature\<close>

definition signature_matches :: "hmac \<Rightarrow> hmac_input \<Rightarrow> int \<Rightarrow> bool" where
  "signature_matches mac i unix =
     (let s = header_value (parse_kv_header (hi_header i)) (hi_expected_version i) in
      s \<noteq> [] \<and> (if hi_encoding i = ''base64'' then b64_decode False True s else hex_decode s)
        = Some (mac (hi_secret i) (timestamped_payload unix (hi_raw_body i))))"

lemma abs_duration_within:
  assumes "0 < w" "w < max_int64"
  shows "abs_duration (time_sub now ts) \<le> w \<longleftrightarrow> \<bar>now - ts\<bar> \<le> w \<or> now - ts \<le> min_int64"
proof
  assume "abs_duration (time_sub now ts) \<le> w"
  then show "\<bar>now - ts\<bar> \<le> w \<or> now - ts \<le> min_int64" using age_within assms(2) by blast
next
  assume "\<bar>now - ts\<bar> \<le> w \<or> now - ts \<le> min_int64"
  then show "abs_duration (time_sub now ts) \<le> w"
  proof
    assume *: "\<bar>now - ts\<bar> \<le> w"
    then have "time_sub now ts = now - ts" using assms by (intro time_sub_small) linarith
    moreover have "abs_duration (now - ts) = \<bar>now - ts\<bar>" using * assms by (intro abs_duration_normal) linarith+
    ultimately show ?thesis using * by simp
  next
    assume "now - ts \<le> min_int64"
    then have "time_sub now ts = min_int64" by (simp only: time_sub_min)
    then show ?thesis using assms(1) by (simp only: abs_duration_min) simp
  qed
qed

lemma verify_timestamped_iff:
  assumes "0 < hi_tolerance i" "hi_tolerance i < max_int64"
  shows "vr_valid (verify_timestamped_hmac mac i) \<longleftrightarrow>
    hi_encoding i \<in> {[], ''hex'', ''base64''}
    \<and> (\<exists>unix. parse_int64 (header_value (parse_kv_header (hi_header i)) ''t'') = Some unix
      \<and> signature_matches mac i unix
      \<and> (\<bar>hi_now i - time_unix unix\<bar> \<le> hi_tolerance i \<or> hi_now i - time_unix unix \<le> min_int64))"
proof -
  have nil: "parse_int64 [] = None" by (simp add: parse_int64_def)
  have late: "hi_tolerance i < abs_duration (time_sub now ts) \<longleftrightarrow>
      \<not> (\<bar>now - ts\<bar> \<le> hi_tolerance i \<or> now - ts \<le> min_int64)" for now ts
    using abs_duration_within [OF assms, of now ts] by linarith
  show ?thesis
  proof (cases "parse_int64 (header_value (parse_kv_header (hi_header i)) ''t'')")
    case None
    then show ?thesis by (simp add: verify_timestamped_hmac_def Let_def)
  next
    case (Some unix)
    moreover from this have "header_value (parse_kv_header (hi_header i)) ''t'' \<noteq> []" using nil by auto
    ultimately show ?thesis using assms(1)
      by (simp only: verify_timestamped_hmac_def Let_def late option.case) (auto simp: signature_matches_def
          verify_hex_iff verify_base64_iff Let_def)
  qed
qed

section \<open>Properties\<close>

text \<open>
  Exactly which signatures the verifier accepts under a tolerance: the header names a time,
  the label's signature decodes to the MAC of that time and the body, and the time is within the
  tolerance of now, before or after; or it lies more than 292 years in the future, where the
  duration saturates and its negation wraps around, so that such a signature never expires.
\<close>

theorem verifier_accepts_exactly:
  assumes "0 < hi_tolerance i" and "hi_tolerance i < max_int64"
  shows "vr_valid (verify_timestamped_hmac mac i) \<longleftrightarrow>
    hi_encoding i \<in> {[], ''hex'', ''base64''}
    \<and> (\<exists>unix. parse_int64 (header_value (parse_kv_header (hi_header i)) ''t'') = Some unix
      \<and> signature_matches mac i unix
      \<and> (\<bar>hi_now i - time_unix unix\<bar> \<le> hi_tolerance i \<or> hi_now i - time_unix unix \<le> min_int64))"
  using verify_timestamped_iff [OF assms] .

definition sample_hmac_input :: "string \<Rightarrow> gotime \<Rightarrow> hmac_input" where
  "sample_hmac_input header now = \<lparr> hi_secret = ''k'', hi_raw_body = ''b'', hi_header = header, hi_now = now,
     hi_tolerance = 300 * ns_second, hi_expected_version = ''v1'', hi_encoding = ''hex'' \<rparr>"

theorem verifier_accepts_exactly_witness:
  "\<not> vr_valid (verify_timestamped_hmac (\<lambda>k p. k @ p) (sample_hmac_input ''t=5'' 7))"
proof -
  have "header_value (parse_kv_header ''t=5'') ''v1'' = []" by code_simp
  then show ?thesis
    using verifier_accepts_exactly [of "sample_hmac_input ''t=5'' 7" "\<lambda>k p. k @ p"]
    by (simp add: sample_hmac_input_def signature_matches_def)
qed

lemma sign_verify:
  assumes v: "version_label (hi_expected_version i)" and m: "mac (hi_secret i) (timestamped_payload unix (hi_raw_body i)) \<noteq> []"
    and h: "hi_header i = ''t='' @ itoa unix @ '','' @ hi_expected_version i @ ''=''
      @ sign_hex mac (hi_secret i) (timestamped_payload unix (hi_raw_body i))"
    and enc: "hi_encoding i \<in> {[], ''hex''}" and unix: "in_int64 unix"
    and tol: "0 < hi_tolerance i" "hi_tolerance i < max_int64" "\<bar>hi_now i - time_unix unix\<bar> \<le> hi_tolerance i"
  shows "vr_valid (verify_timestamped_hmac mac i)"
proof -
  let ?sig = "sign_hex mac (hi_secret i) (timestamped_payload unix (hi_raw_body i))"
  have sig: "\<And>c. c \<in> set ?sig \<Longrightarrow> is_digit c \<or> 97 \<le> (of_char c :: nat)"
    unfolding sign_hex_def by (rule set_hex_encode)
  have "header_value (parse_kv_header (hi_header i)) ''t'' = itoa unix"
    "header_value (parse_kv_header (hi_header i)) (hi_expected_version i) = ?sig"
    unfolding h using parse_timestamped_header [OF v sig, where n = unix] by simp_all
  then show ?thesis using assms(2) enc unix tol
    by (subst verify_timestamped_iff [OF tol(1,2)]) (auto simp: signature_matches_def sign_hex_def)
qed

text \<open>
  C27. Receivers can verify every delivery: a request the client builds carries a signature header
  that the published verifier accepts with the same secret and the same body, as long as the
  receiver's clock is within its tolerance of the second of signing, and the key version header
  it carries is read back. The MAC is never empty.
\<close>

theorem built_request_verifies:
  assumes "build_request ul resolver mac c now raw_url body = Inr req"
    and "mac (dc_secret c) (timestamped_payload (unix_of now) body) \<noteq> []"
    and "0 < tol" and "tol < max_int64" and "\<bar>now' - time_unix (unix_of now)\<bar> \<le> tol"
    and "in_int64 (dc_signing_key_version c)"
  shows "\<exists>sig. (''Webhook-Signature'', sig) \<in> set (hr_headers req) \<and> hr_body req = body \<and>
    (let kv = (case map_of (hr_headers req) ''Webhook-Signature-Key-Version'' of Some v \<Rightarrow> v | None \<Rightarrow> []);
         r = verify_webhookery_signature mac \<lparr> wi_secret = dc_secret c, wi_raw_body = hr_body req,
           wi_signature_header = sig, wi_key_id_header = dc_signing_key_id c, wi_key_version_header = kv,
           wi_now = now', wi_tolerance = tol \<rparr>
     in vr_valid (wr_result r) \<and> wr_key_version r = max 0 (dc_signing_key_version c))"
proof -
  let ?ts = "itoa (unix_of now)"
  let ?sig = "''t='' @ ?ts @ '',v1='' @ sign_hex mac (dc_secret c) (?ts @ ''.'' @ body)"
  have hdrs: "(''Webhook-Signature'', ?sig) \<in> set (hr_headers req)" and b: "hr_body req = body"
    and kv: "map_of (hr_headers req) ''Webhook-Signature-Key-Version''
      = (if 0 < dc_signing_key_version c then Some (itoa (dc_signing_key_version c)) else None)"
    using assms(1) by (auto simp: build_request_def Let_def split: if_splits)
  have itoa: "trim_space (itoa n) = itoa n" for n
    using itoa_chars [of _ n] by (intro trim_space_member) auto
  have key: "key_version_of (if 0 < dc_signing_key_version c then itoa (dc_signing_key_version c) else [])
      = Some (max 0 (dc_signing_key_version c))"
    using assms(6) by (simp add: key_version_of_def itoa)
  have "version_label ''v1''" by (simp add: version_label_def is_digit_def)
  then have valid: "vr_valid (verify_timestamped_hmac mac \<lparr> hi_secret = dc_secret c, hi_raw_body = body,
      hi_header = ?sig, hi_now = now', hi_tolerance = tol, hi_expected_version = ''v1'', hi_encoding = ''hex'' \<rparr>)"
    using assms(2-5) by (intro sign_verify [where unix = "unix_of now"]) (simp_all add: timestamped_payload_def unix_of_def)
  show ?thesis
    by (rule exI [of _ ?sig]) (use hdrs b kv key valid in \<open>simp add: verify_webhookery_signature_def Let_def
        split: if_splits\<close>)
qed

definition sample_url_lib :: url_lib where
  "sample_url_lib = \<lparr> ul_parse = (\<lambda>_. Some sample_url), ul_print = (\<lambda>_. ''https://a.example/h''), ul_to_ascii = Some \<rparr>"

definition sample_client :: delivery_client where
  "sample_client = \<lparr> dc_transport = NoClient, dc_secret = ''k'', dc_signing_key_id = ''kid'',
     dc_signing_key_version = 2, dc_mtls_cert = [], dc_mtls_key = [] \<rparr>"

theorem built_request_verifies_witness:
  "\<exists>req sig. build_request sample_url_lib sample_resolver (\<lambda>k p. k @ p) sample_client 0 ''x'' ''b'' = Inr req
     \<and> (''Webhook-Signature'', sig) \<in> set (hr_headers req)"
proof -
  obtain req where req: "build_request sample_url_lib sample_resolver (\<lambda>k p. k @ p) sample_client 0 ''x'' ''b'' = Inr req"
    using sample_validates [unfolded sample_url_def]
    by (simp add: build_request_def Let_def sample_url_lib_def sample_url_def)
  have "\<bar>time_unix (unix_of 0) - time_unix (unix_of 0)\<bar> \<le> ns_second" by simp
  from built_request_verifies [OF req _ _ _ this] req show ?thesis
    by (fastforce simp: sample_client_def in_int64_def)
qed

end
