(* ===== verification/Delivery_Attempts.thy ===== *)
theory Delivery_Attempts
  imports Gateway_Tables Delivery_Client Go_Json
begin

text \<open>
  The delivery queue of internal/adapters/postgres/store.go: \<open>ClaimDueDeliveries\<close> with
  \<open>populateDeliveryItem\<close>, \<open>RecordDeliveryAttempt\<close>, and the operator's \<open>RetryDelivery\<close> and
  \<open>CancelDelivery\<close>. The secret box (\<open>dec\<close>) and the rows that concurrent transactions hold
  locked (\<open>locked\<close>) are arguments; \<open>now\<close> is the time of the transaction and \<open>wall\<close> the clock of
  the process.
\<close>

section \<open>Model: claiming\<close>

record delivery_item =
  di_id :: string
  di_tenant :: string
  di_event :: string
  di_endpoint :: string
  di_url :: string
  di_attempt_count :: int
  di_retry_policy :: string
  di_retry_seed :: string
  di_secret :: string
  di_key_id :: string
  di_key_version :: int
  di_mtls_cert :: string
  di_mtls_key :: string
  di_body :: string

definition item_of_row :: "delivery_row \<Rightarrow> delivery_item" where
  "item_of_row d = \<lparr> di_id = dv_id d, di_tenant = dv_tenant d, di_event = dv_event d, di_endpoint = dv_endpoint d,
     di_url = [], di_attempt_count = dv_attempt_count d, di_retry_policy = dv_retry_policy d,
     di_retry_seed = dv_retry_seed d, di_secret = [], di_key_id = [], di_key_version = 0, di_mtls_cert = [],
     di_mtls_key = [], di_body = [] \<rparr>"

definition endpoint_open :: "gotime \<Rightarrow> endpoint_row \<Rightarrow> bool" where
  "endpoint_open now e \<longleftrightarrow> ep_state e = ''active''
     \<and> (case ep_disabled_until e of None \<Rightarrow> True | Some t \<Rightarrow> t \<le> now)"

definition delivery_due :: "gotime \<Rightarrow> 'a delivery_db_scheme \<Rightarrow> delivery_row \<Rightarrow> bool" where
  "delivery_due now db d \<longleftrightarrow> dv_state d = ''scheduled''
     \<and> (case dv_next_attempt d of None \<Rightarrow> False | Some t \<Rightarrow> t \<le> now)
     \<and> list_ex (\<lambda>e. ep_tenant e = dv_tenant d \<and> ep_id e = dv_endpoint d \<and> endpoint_open now e) (endpoints db)"

definition next_attempt_time :: "delivery_row \<Rightarrow> gotime" where
  "next_attempt_time d = (case dv_next_attempt d of None \<Rightarrow> 0 | Some t \<Rightarrow> t)"

definition due_ids :: "gotime \<Rightarrow> (string \<Rightarrow> bool) \<Rightarrow> nat \<Rightarrow> 'a delivery_db_scheme \<Rightarrow> string list" where
  "due_ids now locked lmt db = claim_ids (\<lambda>d. dv_replay_job d \<noteq> []) dv_tenant next_attempt_time dv_id locked lmt
     (filter (delivery_due now db) (deliveries db))"

definition lock_delivery :: "gotime \<Rightarrow> string \<Rightarrow> delivery_row \<Rightarrow> delivery_row" where
  "lock_delivery now worker_id d = d\<lparr>dv_state := ''in_progress'', dv_locked_by := Some worker_id,
     dv_lock_expires := Some (now + ns_minute)\<rparr>"

definition unlock_delivery :: "string \<Rightarrow> delivery_row \<Rightarrow> delivery_row" where
  "unlock_delivery state d = d\<lparr>dv_state := state, dv_locked_by := None, dv_lock_expires := None\<rparr>"

definition lock_expired :: "gotime \<Rightarrow> delivery_row \<Rightarrow> bool" where
  "lock_expired now d \<longleftrightarrow> dv_state d = ''in_progress''
     \<and> (case dv_lock_expires d of None \<Rightarrow> False | Some t \<Rightarrow> t \<le> now)"

definition claim_rows ::
    "faults \<Rightarrow> gotime \<Rightarrow> (string \<Rightarrow> bool) \<Rightarrow> string \<Rightarrow> nat \<Rightarrow> ('a delivery_db_scheme, delivery_item list) tx" where
  "claim_rows f now locked worker_id lmt = try_tx f ''claim'' (\<lambda>db.
     let ids = due_ids now locked lmt db; chosen = (\<lambda>d. dv_id d \<in> set ids) in
     Inr (deliveries_update (update_where chosen (lock_delivery now worker_id)) db,
          map item_of_row (filter chosen (deliveries db))))"

definition legacy_delivery_envelope :: "faults \<Rightarrow> 'a ingest_db_scheme \<Rightarrow> string \<Rightarrow> string \<Rightarrow> string res" where
  "legacy_delivery_envelope f db tenant event_id =
     bind_res (no_rows_not_found (query_row f ''legacy_envelope''
        (filter (\<lambda>e. ev_tenant e = tenant \<and> ev_id e = event_id) (events db)))) (\<lambda>e.
     Inr (json_text (\<lambda>_. []) (JObj (obj_of
       [(''id'', JStr event_id), (''type'', JStr (ev_type e)), (''provider'', JStr (ev_provider e)),
        (''provider_event_id'', JStr (ev_provider_event e)), (''raw_payload_hash'', JStr (ev_raw_hash e))]))))"

definition populate_rows ::
    "'a delivery_db_scheme \<Rightarrow> delivery_item \<Rightarrow>
     (delivery_row \<times> endpoint_row \<times> endpoint_secret_row \<times> delivery_payload_row option) list" where
  "populate_rows db item = order_by (\<lambda>(d, e, s, p). - es_version s)
     (concat (map (\<lambda>d. concat (map (\<lambda>e. concat (map (\<lambda>s. map (\<lambda>p. (d, e, s, p))
         (left_join (\<lambda>p. dp_tenant p = dv_tenant d \<and> dp_id p = dv_payload d) (delivery_payloads db)))
         (filter (\<lambda>s. es_tenant s = ep_tenant e \<and> es_endpoint s = ep_id e \<and> es_state s = ''active'') (endpoint_secrets db))))
         (filter (\<lambda>e. ep_tenant e = dv_tenant d \<and> ep_id e = dv_endpoint d) (endpoints db))))
         (filter (\<lambda>d. dv_tenant d = di_tenant item \<and> dv_id d = di_id item) (deliveries db))))"

definition payload_missing :: "delivery_row \<Rightarrow> delivery_payload_row option \<Rightarrow> bool" where
  "payload_missing d p \<longleftrightarrow> dv_payload d \<noteq> []
     \<and> (case p of None \<Rightarrow> True | Some r \<Rightarrow> dp_id r = [] \<or> dp_status r = ''deleted'')"

definition mtls_material :: "secret_box \<Rightarrow> string \<Rightarrow> endpoint_row \<Rightarrow> (string \<times> string) res" where
  "mtls_material dec tenant e =
     (let cert = (case ep_mtls_cert e of None \<Rightarrow> [] | Some c \<Rightarrow> c);
          key = (case ep_mtls_key e of None \<Rightarrow> [] | Some k \<Rightarrow> k)
      in if \<not> ep_mtls_enabled e then Inr ([], [])
         else if cert = [] \<or> key = []
         then Inl (ErrOther ''endpoint mTLS is enabled without encrypted client material'')
         else bind_res (dec tenant ''endpoint_mtls_client_cert'' cert) (\<lambda>c.
              bind_res (dec tenant ''endpoint_mtls_client_key'' key) (\<lambda>k. Inr (c, k))))"

definition populate_delivery_item ::
    "secret_box \<Rightarrow> faults \<Rightarrow> 'a delivery_db_scheme \<Rightarrow> delivery_item \<Rightarrow> delivery_item res" where
  "populate_delivery_item dec f db item =
     bind_res (query_row f ''populate'' (populate_rows db item)) (\<lambda>(d, e, s, p).
     bind_res (guard_res (\<not> payload_missing d p) ErrGone) (\<lambda>_.
     bind_res (dec (di_tenant item) ''endpoint_signing_secret'' (es_secret s)) (\<lambda>secret.
     bind_res (mtls_material dec (di_tenant item) e) (\<lambda>(cert, key).
     bind_res (if dv_payload d = [] then legacy_delivery_envelope f db (di_tenant item) (di_event item)
               else Inr (case p of None \<Rightarrow> [] | Some r \<Rightarrow> dp_body r)) (\<lambda>body.
     Inr (item\<lparr>di_url := ep_url e, di_key_id := es_id s, di_key_version := es_version s, di_secret := secret,
               di_mtls_cert := cert, di_mtls_key := key, di_body := body\<rparr>))))))"

fun populate_items ::
    "secret_box \<Rightarrow> faults \<Rightarrow> 'a delivery_db_scheme \<Rightarrow> delivery_item list \<Rightarrow> delivery_item list res" where
  "populate_items dec f db [] = Inr []"
| "populate_items dec f db (item # items) =
     bind_res (populate_delivery_item dec f db item) (\<lambda>x.
     bind_res (populate_items dec f db items) (\<lambda>xs. Inr (x # xs)))"

definition release_expired :: "faults \<Rightarrow> gotime \<Rightarrow> ('a delivery_db_scheme, unit) tx" where
  "release_expired f now = update_rows f ''release_expired'' deliveries_update (lock_expired now) (unlock_delivery ''scheduled'')"

definition claim_due_deliveries ::
    "secret_box \<Rightarrow> faults \<Rightarrow> gotime \<Rightarrow> (string \<Rightarrow> bool) \<Rightarrow> string \<Rightarrow> nat \<Rightarrow>
     'a delivery_db_scheme \<Rightarrow> 'a delivery_db_scheme \<times> delivery_item list res" where
  "claim_due_deliveries dec f now locked worker_id lmt = run_tx f
     (then_tx (upsert_worker_lease f now worker_id)
     (then_tx (release_expired f now)
     (bind_tx (claim_rows f now locked worker_id lmt) (\<lambda>items.
        read_tx (\<lambda>db. populate_items dec f db items)))))"

section \<open>Model: recording an attempt\<close>

definition retry_policy_for_delivery ::
    "faults \<Rightarrow> 'a delivery_db_scheme \<Rightarrow> string \<Rightarrow> string \<Rightarrow> retry_policy res" where
  "retry_policy_for_delivery f db tenant policy_id =
     (if policy_id = [] then Inr default_policy
      else bind_res (no_rows_not_found (query_row f ''retry_policy'' (filter (\<lambda>r. rr_tenant r = tenant
             \<and> rr_id r = policy_id \<and> rp_state (rr_policy r) = ''active'') (retry_policies db))))
           (\<lambda>r. Inr (policy_of_row (rr_policy r))))"

definition delivery_retry_seed ::
    "(string \<Rightarrow> string) \<Rightarrow> string \<Rightarrow> string \<Rightarrow> string \<Rightarrow> string \<Rightarrow> string" where
  "delivery_retry_seed sha tenant delivery_id event_id endpoint_id = seed_of sha [tenant, delivery_id, event_id, endpoint_id]"

definition attempt_failed :: "deliver_result \<Rightarrow> go_error option \<Rightarrow> bool" where
  "attempt_failed result deliver_err \<longleftrightarrow> deliver_err \<noteq> None \<or> dl_status result < 200 \<or> 299 < dl_status result"

definition attempt_retries :: "retry_policy \<Rightarrow> delivery_item \<Rightarrow> deliver_result \<Rightarrow> go_error option \<Rightarrow> bool" where
  "attempt_retries policy item result deliver_err \<longleftrightarrow> attempt_failed result deliver_err
     \<and> cls_retryable (classify_status (dl_status result)) \<and> di_attempt_count item + 1 < max_attempts policy"

definition attempt_seed :: "(string \<Rightarrow> string) \<Rightarrow> delivery_item \<Rightarrow> string" where
  "attempt_seed sha item = (if di_retry_seed item = []
     then delivery_retry_seed sha (di_tenant item) (di_id item) (di_event item) (di_endpoint item)
     else di_retry_seed item)"

definition attempt_delay ::
    "(string \<Rightarrow> string) \<Rightarrow> retry_policy \<Rightarrow> delivery_item \<Rightarrow> deliver_result \<Rightarrow> go_error option \<Rightarrow> duration" where
  "attempt_delay sha policy item result deliver_err = (if attempt_retries policy item result deliver_err
     then next_deterministic_delay sha policy (di_attempt_count item + 1) (attempt_seed sha item) else 0)"

definition attempt_failure_class :: "deliver_result \<Rightarrow> go_error option \<Rightarrow> string" where
  "attempt_failure_class result deliver_err =
     (if attempt_failed result deliver_err \<and> dl_failure_class result = []
      then cls_reason (classify_status (dl_status result)) else dl_failure_class result)"

text \<open>\<open>nextRetryAt\<close> stays the zero time, and is stored as NULL, when no retry follows.\<close>

definition attempt_of ::
    "(string \<Rightarrow> string) \<Rightarrow> gotime \<Rightarrow> string \<Rightarrow> retry_policy \<Rightarrow> delivery_item \<Rightarrow> deliver_result \<Rightarrow> go_error option \<Rightarrow>
     attempt_row" where
  "attempt_of sha wall att_id policy item result deliver_err =
     (let failed = attempt_failed result deliver_err;
          delay = attempt_delay sha policy item result deliver_err;
          next_at = (if attempt_retries policy item result deliver_err then wall + delay else 0)
      in \<lparr> at_id = att_id, at_tenant = di_tenant item, at_delivery = di_id item, at_event = di_event item,
           at_endpoint = di_endpoint item, at_request_sha256 = sha256_text sha (di_body item),
           at_response_sha256 = sha256_text sha (dl_body result), at_number = di_attempt_count item + 1,
           at_state = (if failed then ''failed'' else ''succeeded''), at_response_status = dl_status result,
           at_response_body = take 16384 (dl_body result),
           at_failure_class = attempt_failure_class result deliver_err,
           at_retryable = (failed \<and> cls_retryable (classify_status (dl_status result))),
           at_retry_delay_ms = delay div 1000000,
           at_next_retry = (if next_at = 0 then None else Some next_at), at_completed_at = wall \<rparr>)"

definition close_circuit :: "endpoint_row \<Rightarrow> endpoint_row" where
  "close_circuit e = e\<lparr>ep_failure_count := 0, ep_circuit_state := ''closed'', ep_disabled_until := None\<rparr>"

definition count_failure :: "gotime \<Rightarrow> endpoint_row \<Rightarrow> endpoint_row" where
  "count_failure now e = e\<lparr>ep_failure_count := ep_failure_count e + 1,
     ep_circuit_state := (if 3 \<le> ep_failure_count e + 1 then ''open'' else ep_circuit_state e),
     ep_disabled_until := (if 3 \<le> ep_failure_count e + 1 then Some (now + 5 * ns_minute) else ep_disabled_until e)\<rparr>"

definition open_circuit :: "gotime \<Rightarrow> endpoint_row \<Rightarrow> endpoint_row" where
  "open_circuit now e = e\<lparr>ep_failure_count := ep_failure_count e + 1, ep_circuit_state := ''open'',
     ep_disabled_until := Some (now + 10 * ns_minute)\<rparr>"

definition record_delivery_attempt ::
    "(string \<Rightarrow> string) \<Rightarrow> faults \<Rightarrow> gotime \<Rightarrow> gotime \<Rightarrow> string \<Rightarrow> string \<Rightarrow> delivery_item \<Rightarrow> deliver_result \<Rightarrow>
     go_error option \<Rightarrow> 'a delivery_db_scheme \<Rightarrow> 'a delivery_db_scheme \<times> unit res" where
  "record_delivery_attempt sha f now wall att_id dlq_id item result deliver_err = run_tx f
     (bind_tx (read_tx (\<lambda>db. retry_policy_for_delivery f db (di_tenant item) (di_retry_policy item))) (\<lambda>policy.
      let n = di_attempt_count item + 1;
          this = (\<lambda>d. dv_tenant d = di_tenant item \<and> dv_id d = di_id item);
          target = (\<lambda>e. ep_tenant e = di_tenant item \<and> ep_id e = di_endpoint item)
      in then_tx (insert_row f ''insert_attempt'' at_id delivery_attempts delivery_attempts_update
             (attempt_of sha wall att_id policy item result deliver_err))
        (if \<not> attempt_failed result deliver_err
         then then_tx (update_rows f ''delivery_succeeded'' deliveries_update this
                (\<lambda>d. (unlock_delivery ''succeeded'' d)\<lparr>dv_attempt_count := n\<rparr>))
              (update_rows f ''close_circuit'' endpoints_update target close_circuit)
         else if attempt_retries policy item result deliver_err
         then then_tx (update_rows f ''delivery_rescheduled'' deliveries_update this
                (\<lambda>d. (unlock_delivery ''scheduled'' d)\<lparr>dv_attempt_count := n,
                   dv_next_attempt := Some (wall + attempt_delay sha policy item result deliver_err),
                   dv_retry_seed := attempt_seed sha item\<rparr>))
              (update_rows f ''count_failure'' endpoints_update target (count_failure now))
         else then_tx (update_rows f ''delivery_dead'' deliveries_update this
                (\<lambda>d. (unlock_delivery ''dead_lettered'' d)\<lparr>dv_attempt_count := n\<rparr>))
              (then_tx (update_rows f ''open_circuit'' endpoints_update target (open_circuit now))
                (insert_row f ''insert_dead_letter'' dd_id dead_letter_entries dead_letter_entries_update
                   \<lparr> dd_id = dlq_id, dd_tenant = di_tenant item, dd_delivery = di_id item, dd_event = di_event item,
                     dd_reason = attempt_failure_class result deliver_err, dd_state = ''open'' \<rparr>)))))"

section \<open>Model: operator actions\<close>

text \<open>The row that the call returns, with the hash of its payload.\<close>

definition payload_sha :: "'a delivery_db_scheme \<Rightarrow> delivery_row \<Rightarrow> string" where
  "payload_sha db d = (case filter (\<lambda>p. dp_tenant p = dv_tenant d \<and> dp_id p = dv_payload d) (delivery_payloads db) of
     [] \<Rightarrow> [] | p # _ \<Rightarrow> dp_sha256 p)"

definition delivery_audit :: "string \<Rightarrow> string \<Rightarrow> string \<Rightarrow> string \<Rightarrow> string \<Rightarrow> audit_input" where
  "delivery_audit tenant actor action delivery_id reason = \<lparr> ai_tenant = tenant, ai_actor = actor, ai_action = action,
     ai_resource = ''delivery'', ai_resource_id = delivery_id, ai_reason = reason, ai_occurred_at = 0, ai_source = [] \<rparr>"

definition retry_delivery ::
    "(string \<Rightarrow> string) \<Rightarrow> faults \<Rightarrow> gotime \<Rightarrow> string \<Rightarrow> string \<Rightarrow> string \<Rightarrow> string \<Rightarrow> string \<Rightarrow> string \<Rightarrow>
     'a delivery_db_scheme \<Rightarrow> 'a delivery_db_scheme \<times> (delivery_row \<times> string) res" where
  "retry_delivery sha f now eid cid tenant delivery_id actor reason = run_tx f
     (bind_tx (not_found_tx (update_returning f ''retry_delivery'' deliveries deliveries_update
         (\<lambda>d. dv_tenant d = tenant \<and> dv_id d = delivery_id)
         (\<lambda>d. (unlock_delivery ''scheduled'' d)\<lparr>dv_next_attempt := Some now\<rparr>))) (\<lambda>d.
      bind_tx (read_tx (\<lambda>db. Inr (payload_sha db d))) (\<lambda>h.
      then_tx (record_audit_event_tx sha f now eid cid (delivery_audit tenant actor ''delivery.retry_requested'' delivery_id reason))
        (return_tx (d, h)))))"

definition cancel_delivery ::
    "(string \<Rightarrow> string) \<Rightarrow> faults \<Rightarrow> gotime \<Rightarrow> string \<Rightarrow> string \<Rightarrow> string \<Rightarrow> string \<Rightarrow> string \<Rightarrow> string \<Rightarrow>
     'a delivery_db_scheme \<Rightarrow> 'a delivery_db_scheme \<times> (delivery_row \<times> string) res" where
  "cancel_delivery sha f now eid cid tenant delivery_id actor reason = run_tx f
     (bind_tx (not_found_tx (update_returning f ''cancel_delivery'' deliveries deliveries_update
         (\<lambda>d. dv_tenant d = tenant \<and> dv_id d = delivery_id
            \<and> dv_state d \<notin> {''succeeded'', ''dead_lettered'', ''canceled''})
         (unlock_delivery ''canceled''))) (\<lambda>d.
      bind_tx (read_tx (\<lambda>db. Inr (payload_sha db d))) (\<lambda>h.
      then_tx (record_audit_event_tx sha f now eid cid (delivery_audit tenant actor ''delivery.canceled'' delivery_id reason))
        (return_tx (d, h)))))"

section \<open>What a claim does\<close>

text \<open>The database in which a claim looks for due deliveries: expired locks are released first.\<close>

definition released :: "gotime \<Rightarrow> 'a delivery_db_scheme \<Rightarrow> 'a delivery_db_scheme" where
  "released now db = deliveries_update (update_where (lock_expired now) (unlock_delivery ''scheduled'')) db"

lemma due_ids_cong:
  "deliveries db' = deliveries db \<Longrightarrow> endpoints db' = endpoints db \<Longrightarrow> due_ids now locked lmt db' = due_ids now locked lmt db"
  by (simp add: due_ids_def delivery_due_def [abs_def])

lemma lease_keeps:
  assumes "upsert_worker_lease f now w (db :: 'a delivery_db_scheme) = Inr (db', u)"
  shows "deliveries db' = deliveries db" "endpoints db' = endpoints db" "retry_policies db' = retry_policies db"
    "delivery_payloads db' = delivery_payloads db" "delivery_attempts db' = delivery_attempts db"
  using same_more_delivery [OF conjunct1 [OF upsert_worker_lease_more [OF assms]]] by blast+

lemma claim_committed:
  assumes "claim_due_deliveries dec f now locked w lmt db = (db', Inr items)"
  defines "chosen \<equiv> (\<lambda>d. dv_id d \<in> set (due_ids now locked lmt (released now db)))"
  shows "deliveries db' = update_where chosen (lock_delivery now w) (deliveries (released now db))"
    and "populate_items dec f db' (map item_of_row (filter chosen (deliveries (released now db)))) = Inr items"
    and "retry_policies db' = retry_policies db" and "delivery_payloads db' = delivery_payloads db"
    and "delivery_attempts db' = delivery_attempts db" and "endpoints db' = endpoints db"
proof -
  from assms(1) obtain db1 u where l: "upsert_worker_lease f now w db = Inr (db1, u)"
    and c: "claim_rows f now locked w lmt (released now db1)
       = Inr (db', map item_of_row (filter (\<lambda>d. dv_id d \<in> set (due_ids now locked lmt (released now db1)))
            (deliveries (released now db1))))"
    and p: "populate_items dec f db' (map item_of_row (filter (\<lambda>d. dv_id d \<in> set (due_ids now locked lmt (released now db1)))
            (deliveries (released now db1)))) = Inr items"
    by (auto simp: claim_due_deliveries_def run_tx_ok release_expired_def released_def claim_rows_def Let_def)
  note k = lease_keeps [OF l]
  have r: "deliveries (released now db1) = deliveries (released now db)" "endpoints (released now db1) = endpoints (released now db)"
    using k by (simp_all add: released_def)
  note ids = due_ids_cong [OF r, of now locked lmt]
  have d': "db' = deliveries_update (update_where chosen (lock_delivery now w)) (released now db1)"
    using c ids by (simp add: claim_rows_def Let_def chosen_def)
  show "deliveries db' = update_where chosen (lock_delivery now w) (deliveries (released now db))"
    using r by (simp add: d')
  show "populate_items dec f db' (map item_of_row (filter chosen (deliveries (released now db)))) = Inr items"
    using p r ids by (simp add: chosen_def)
  show "retry_policies db' = retry_policies db" "delivery_payloads db' = delivery_payloads db"
    "delivery_attempts db' = delivery_attempts db" "endpoints db' = endpoints db"
    using k by (simp_all add: d' released_def)
qed

text \<open>What populating keeps of an item.\<close>

definition same_work :: "delivery_item \<Rightarrow> delivery_item \<Rightarrow> bool" where
  "same_work x y \<longleftrightarrow> di_id x = di_id y \<and> di_tenant x = di_tenant y \<and> di_event x = di_event y
     \<and> di_endpoint x = di_endpoint y \<and> di_attempt_count x = di_attempt_count y
     \<and> di_retry_policy x = di_retry_policy y \<and> di_retry_seed x = di_retry_seed y"

lemma populate_item_same: "populate_delivery_item dec f db item = Inr x \<Longrightarrow> same_work x item"
  by (auto simp: populate_delivery_item_def same_work_def split: prod.splits)

lemma populate_items_same: "populate_items dec f db items = Inr xs \<Longrightarrow> list_all2 same_work xs items"
  by (induction items arbitrary: xs) (auto dest: populate_item_same)

lemma populate_items_ids: "populate_items dec f db items = Inr xs \<Longrightarrow> map di_id xs = map di_id items"
proof -
  assume "populate_items dec f db items = Inr xs"
  from populate_items_same [OF this] show ?thesis by (induction rule: list_all2_induct) (auto simp: same_work_def)
qed

lemma claim_item_ids:
  assumes "claim_due_deliveries dec f now locked w lmt db = (db', Inr items)"
  shows "map di_id items = filter (\<lambda>i. i \<in> set (due_ids now locked lmt (released now db))) (map dv_id (deliveries db))"
proof -
  have "map di_id items = map dv_id (filter (\<lambda>d. dv_id d \<in> set (due_ids now locked lmt (released now db))) (deliveries (released now db)))"
    using populate_items_ids [OF claim_committed(2) [OF assms]] by (simp add: comp_def item_of_row_def)
  also have "\<dots> = filter (\<lambda>i. i \<in> set (due_ids now locked lmt (released now db))) (map dv_id (deliveries (released now db)))"
    by (simp add: filter_map comp_def)
  also have "map dv_id (deliveries (released now db)) = map dv_id (deliveries db)"
    by (simp add: released_def update_where_keys unlock_delivery_def)
  finally show ?thesis .
qed

section \<open>Well-formed deliveries\<close>

definition delivery_ok :: "delivery_row \<Rightarrow> bool" where
  "delivery_ok d \<longleftrightarrow> dv_state d \<in> {''scheduled'', ''in_progress'', ''succeeded'', ''dead_lettered'', ''canceled''}
     \<and> 0 \<le> dv_attempt_count d \<and> (dv_locked_by d \<noteq> None \<longleftrightarrow> dv_state d = ''in_progress'')
     \<and> (dv_lock_expires d \<noteq> None \<longleftrightarrow> dv_state d = ''in_progress'')
     \<and> (dv_state d \<in> {''scheduled'', ''in_progress''} \<longrightarrow> dv_next_attempt d \<noteq> None)"

definition deliveries_ok :: "'a delivery_db_scheme \<Rightarrow> bool" where
  "deliveries_ok db \<longleftrightarrow> distinct (map dv_id (deliveries db)) \<and> list_all delivery_ok (deliveries db)"

lemma deliveries_okD:
  "deliveries_ok db \<Longrightarrow> d \<in> set (deliveries db) \<Longrightarrow> delivery_ok d"
  "deliveries_ok db \<Longrightarrow> d \<in> set (deliveries db) \<Longrightarrow> x \<in> set (deliveries db) \<Longrightarrow> dv_id x = dv_id d \<Longrightarrow> x = d"
  by (auto simp: deliveries_ok_def list_all_iff distinct_map dest: inj_onD)

lemma deliveries_ok_update:
  assumes "deliveries_ok db" and "deliveries db' = update_where p g (deliveries db)"
    and "\<And>d. dv_id (g d) = dv_id d" and "\<And>d. delivery_ok d \<Longrightarrow> p d \<Longrightarrow> delivery_ok (g d)"
  shows "deliveries_ok db'"
  using assms by (auto simp: deliveries_ok_def update_where_keys list_all_iff set_update_where)

lemma released_ok: "deliveries_ok db \<Longrightarrow> deliveries_ok (released now db)"
  by (erule deliveries_ok_update [where p = "lock_expired now" and g = "unlock_delivery ''scheduled''"])
    (auto simp: released_def unlock_delivery_def delivery_ok_def lock_expired_def)

lemma due_ids_due:
  assumes "deliveries_ok db" and "d \<in> set (deliveries db)" and "dv_id d \<in> set (due_ids now locked lmt db)"
  shows "delivery_due now db d" and "\<not> locked (dv_id d)"
proof -
  from claim_ids_in [OF assms(3) [unfolded due_ids_def]]
  obtain x where x: "x \<in> set (deliveries db)" "delivery_due now db x" "dv_id d = dv_id x" "\<not> locked (dv_id d)" by auto
  with deliveries_okD(2) [OF assms(1) x(1) assms(2)] show "delivery_due now db d" "\<not> locked (dv_id d)" by simp_all
qed

lemma claim_ok:
  assumes "deliveries_ok db"
  shows "deliveries_ok (fst (claim_due_deliveries dec f now locked w lmt db))"
proof (cases "snd (claim_due_deliveries dec f now locked w lmt db)")
  case (Inl e)
  then show ?thesis using assms by (metis claim_due_deliveries_def prod.collapse run_tx_error)
next
  case (Inr items)
  define db' where "db' = fst (claim_due_deliveries dec f now locked w lmt db)"
  have "claim_due_deliveries dec f now locked w lmt db = (db', Inr items)" using Inr by (simp add: db'_def prod_eq_iff)
  note c = claim_committed(1) [OF this]
  let ?p = "\<lambda>d. dv_id d \<in> set (due_ids now locked lmt (released now db))"
  have "deliveries db' = update_where (\<lambda>d. ?p d \<and> dv_state d = ''scheduled'') (lock_delivery now w) (deliveries (released now db))"
    using due_ids_due(1) [OF released_ok [OF assms]]
    by (auto simp: c update_where_def delivery_due_def intro!: map_cong)
  then have "deliveries_ok db'"
    by (rule deliveries_ok_update [OF released_ok [OF assms]]) (auto simp: lock_delivery_def delivery_ok_def)
  then show ?thesis by (simp add: db'_def)
qed

section \<open>What recording does\<close>

definition recorded_row ::
    "(string \<Rightarrow> string) \<Rightarrow> gotime \<Rightarrow> retry_policy \<Rightarrow> delivery_item \<Rightarrow> deliver_result \<Rightarrow> go_error option \<Rightarrow>
     delivery_row \<Rightarrow> delivery_row" where
  "recorded_row sha wall policy item result deliver_err d =
     (let n = di_attempt_count item + 1 in
      if \<not> attempt_failed result deliver_err then (unlock_delivery ''succeeded'' d)\<lparr>dv_attempt_count := n\<rparr>
      else if attempt_retries policy item result deliver_err
      then (unlock_delivery ''scheduled'' d)\<lparr>dv_attempt_count := n,
             dv_next_attempt := Some (wall + attempt_delay sha policy item result deliver_err),
             dv_retry_seed := attempt_seed sha item\<rparr>
      else (unlock_delivery ''dead_lettered'' d)\<lparr>dv_attempt_count := n\<rparr>)"

lemma record_committed:
  assumes "record_delivery_attempt sha f now wall aid did item result err db = (db', Inr u)"
  obtains policy where "retry_policy_for_delivery f db (di_tenant item) (di_retry_policy item) = Inr policy"
    and "deliveries db' = update_where (\<lambda>d. dv_tenant d = di_tenant item \<and> dv_id d = di_id item)
       (recorded_row sha wall policy item result err) (deliveries db)"
    and "delivery_attempts db' = delivery_attempts db @ [attempt_of sha wall aid policy item result err]"
    and "dead_letter_entries db' = dead_letter_entries db @
       (if attempt_failed result err \<and> \<not> attempt_retries policy item result err
        then [\<lparr> dd_id = did, dd_tenant = di_tenant item, dd_delivery = di_id item, dd_event = di_event item,
               dd_reason = attempt_failure_class result err, dd_state = ''open'' \<rparr>] else [])"
    and "endpoints db' = update_where (\<lambda>e. ep_tenant e = di_tenant item \<and> ep_id e = di_endpoint item)
       (if \<not> attempt_failed result err then close_circuit
        else if attempt_retries policy item result err then count_failure now else open_circuit now) (endpoints db)"
    and "retry_policies db' = retry_policies db" and "events db' = events db"
    and "delivery_payloads db' = delivery_payloads db"
proof -
  from assms obtain policy where p: "retry_policy_for_delivery f db (di_tenant item) (di_retry_policy item) = Inr policy"
    by (auto simp: record_delivery_attempt_def run_tx_ok Let_def)
  show ?thesis
  proof (cases "attempt_failed result err")
    case False
    with assms p show ?thesis
      by (intro that [OF p])
        (simp_all add: record_delivery_attempt_def run_tx_ok Let_def recorded_row_def [abs_def] attempt_retries_def)
  next
    case True
    show ?thesis
    proof (cases "attempt_retries policy item result err")
      case r: True
      with assms p True show ?thesis
        by (intro that [OF p])
          (simp_all add: record_delivery_attempt_def run_tx_ok Let_def recorded_row_def [abs_def])
    next
      case r: False
      with assms p True show ?thesis
        by (intro that [OF p])
          (simp_all add: record_delivery_attempt_def run_tx_ok Let_def recorded_row_def [abs_def])
    qed
  qed
qed

lemma recorded_row_keeps:
  "dv_id (recorded_row sha wall policy item result err d) = dv_id d"
  "dv_tenant (recorded_row sha wall policy item result err d) = dv_tenant d"
  "dv_attempt_count (recorded_row sha wall policy item result err d) = di_attempt_count item + 1"
  "dv_retry_policy (recorded_row sha wall policy item result err d) = dv_retry_policy d"
  "dv_locked_by (recorded_row sha wall policy item result err d) = None"
  "dv_state (recorded_row sha wall policy item result err d) = (if \<not> attempt_failed result err then ''succeeded''
     else if attempt_retries policy item result err then ''scheduled'' else ''dead_lettered'')"
  by (simp_all add: recorded_row_def Let_def unlock_delivery_def)

lemma recorded_row_ok:
  "0 \<le> di_attempt_count item \<Longrightarrow> delivery_ok (recorded_row sha wall policy item result err d)"
  by (simp add: recorded_row_def Let_def unlock_delivery_def delivery_ok_def)

lemma record_failed:
  "record_delivery_attempt sha f now wall aid did item result err db = (db', Inl e) \<Longrightarrow> db' = db"
  unfolding record_delivery_attempt_def by (rule run_tx_error)

lemma record_ok:
  assumes "deliveries_ok db" and "0 \<le> di_attempt_count item"
  shows "deliveries_ok (fst (record_delivery_attempt sha f now wall aid did item result err db))"
proof (cases "record_delivery_attempt sha f now wall aid did item result err db")
  case (Pair db' r)
  show ?thesis
  proof (cases r)
    case (Inl e)
    then show ?thesis using Pair record_failed assms(1) by (metis fst_conv)
  next
    case (Inr u)
    with Pair obtain policy where
      "deliveries db' = update_where (\<lambda>d. dv_tenant d = di_tenant item \<and> dv_id d = di_id item)
         (recorded_row sha wall policy item result err) (deliveries db)"
      by (auto elim: record_committed)
    then have "deliveries_ok db'"
      by (rule deliveries_ok_update [OF assms(1)]) (simp_all add: recorded_row_keeps recorded_row_ok assms(2))
    then show ?thesis using Pair by simp
  qed
qed

section \<open>What operators do\<close>

lemma operator_body:
  assumes "bind_tx (not_found_tx (update_returning f lbl deliveries deliveries_update p g)) (\<lambda>d.
      bind_tx (read_tx (\<lambda>db. Inr (h db d))) (\<lambda>x.
      then_tx (record_audit_event_tx sha f now eid cid inp) (return_tx (d, x)))) (db :: 'a delivery_db_scheme) = Inr (db', r)"
  shows "audit_db.more db' = audit_db.more (deliveries_update (update_where p g) db)"
  using assms by (auto dest: record_audit_event_tx_more)

lemma retry_committed:
  assumes "retry_delivery sha f now eid cid t i actor reason db = (db', Inr r)"
  shows "deliveries db' = update_where (\<lambda>d. dv_tenant d = t \<and> dv_id d = i)
       (\<lambda>d. (unlock_delivery ''scheduled'' d)\<lparr>dv_next_attempt := Some now\<rparr>) (deliveries db)"
    and "endpoints db' = endpoints db" and "delivery_payloads db' = delivery_payloads db"
    and "endpoint_secrets db' = endpoint_secrets db" and "retry_policies db' = retry_policies db"
  using same_more_delivery [OF operator_body [OF conjunct2 [OF conjunct2 [OF iffD1 [OF run_tx_ok
      assms [unfolded retry_delivery_def]]]]]] by simp_all

lemma cancel_committed:
  assumes "cancel_delivery sha f now eid cid t i actor reason db = (db', Inr r)"
  shows "deliveries db' = update_where (\<lambda>d. dv_tenant d = t \<and> dv_id d = i
         \<and> dv_state d \<notin> {''succeeded'', ''dead_lettered'', ''canceled''}) (unlock_delivery ''canceled'') (deliveries db)"
    and "retry_policies db' = retry_policies db"
  using same_more_delivery [OF operator_body [OF conjunct2 [OF conjunct2 [OF iffD1 [OF run_tx_ok
      assms [unfolded cancel_delivery_def]]]]]] by simp_all

lemma retry_failed: "retry_delivery sha f now eid cid t i actor reason db = (db', Inl e) \<Longrightarrow> db' = db"
  unfolding retry_delivery_def by (rule run_tx_error)

lemma cancel_failed: "cancel_delivery sha f now eid cid t i actor reason db = (db', Inl e) \<Longrightarrow> db' = db"
  unfolding cancel_delivery_def by (rule run_tx_error)

lemma claim_failed: "claim_due_deliveries dec f now locked w lmt db = (db', Inl e) \<Longrightarrow> db' = db"
  unfolding claim_due_deliveries_def by (rule run_tx_error)

lemma retry_ok:
  assumes "deliveries_ok db" and "retry_delivery sha f now eid cid t i actor reason db = (db', r)"
  shows "deliveries_ok db'"
proof (cases r)
  case (Inl e)
  then show ?thesis using assms retry_failed by blast
next
  case (Inr x)
  with assms(2) have "retry_delivery sha f now eid cid t i actor reason db = (db', Inr x)" by simp
  from retry_committed(1) [OF this] show ?thesis
    by (rule deliveries_ok_update [OF assms(1)]) (auto simp: unlock_delivery_def delivery_ok_def)
qed

lemma cancel_ok:
  assumes "deliveries_ok db" and "cancel_delivery sha f now eid cid t i actor reason db = (db', r)"
  shows "deliveries_ok db'"
proof (cases r)
  case (Inl e)
  then show ?thesis using assms cancel_failed by blast
next
  case (Inr x)
  with assms(2) have "cancel_delivery sha f now eid cid t i actor reason db = (db', Inr x)" by simp
  from cancel_committed(1) [OF this] show ?thesis
    by (rule deliveries_ok_update [OF assms(1)]) (auto simp: unlock_delivery_def delivery_ok_def)
qed

end
