(* ===== verification/Delivery_Lifecycle.thy ===== *)
theory Delivery_Lifecycle
  imports Delivery_Attempts Step_Systems
begin

text \<open>
  What the delivery queue promises. An abstract life cycle of a delivery (\<open>worker_move\<close> and
  \<open>operator_move\<close>) is refined by the store operations of \<open>Delivery_Attempts\<close>; from it follow the
  safety of delivered messages and the bound on the number of attempts. Then the claim: due,
  bounded, exclusive and fair; and two behaviours that defeat it.
\<close>

section \<open>The life cycle and its refinement\<close>

datatype dstate = Scheduled | InProgress | Succeeded | DeadLettered | Canceled

inductive worker_move :: "dstate \<Rightarrow> dstate \<Rightarrow> bool" where
  move_claim: "worker_move Scheduled InProgress"
| move_expire: "worker_move InProgress Scheduled"
| move_delivered: "worker_move InProgress Succeeded"
| move_dead: "worker_move InProgress DeadLettered"

inductive operator_move :: "dstate \<Rightarrow> dstate \<Rightarrow> bool" where
  move_retry: "operator_move s Scheduled"
| move_cancel: "s \<in> {Scheduled, InProgress} \<Longrightarrow> operator_move s Canceled"

inductive_cases worker_move_cases: "worker_move s s'"

definition dstate_of :: "string \<Rightarrow> dstate" where
  "dstate_of s = (if s = ''scheduled'' then Scheduled else if s = ''in_progress'' then InProgress
     else if s = ''succeeded'' then Succeeded else if s = ''dead_lettered'' then DeadLettered else Canceled)"

definition abs_deliveries :: "'a delivery_db_scheme \<Rightarrow> (string \<rightharpoonup> dstate)" where
  "abs_deliveries db = map_of (map (\<lambda>d. (dv_id d, dstate_of (dv_state d))) (deliveries db))"

text \<open>The store operations as steps, with every choice of clock, identifiers, faults and locks.\<close>

definition holds_lock :: "'a delivery_db_scheme \<Rightarrow> delivery_item \<Rightarrow> bool" where
  "holds_lock db item \<longleftrightarrow> (\<exists>d \<in> set (deliveries db). dv_id d = di_id item \<and> dv_tenant d = di_tenant item
     \<and> dv_retry_policy d = di_retry_policy item \<and> dv_attempt_count d = di_attempt_count item \<and> dv_state d = ''in_progress'')"

inductive worker_step :: "'a delivery_db_scheme \<Rightarrow> string option \<Rightarrow> 'a delivery_db_scheme \<Rightarrow> bool" where
  step_claim: "claim_due_deliveries dec f now locked w lmt db = (db', r) \<Longrightarrow> worker_step db None db'"
| step_record: "holds_lock db item \<Longrightarrow>
    record_delivery_attempt sha f now wall aid did item result err db = (db', Inr ()) \<Longrightarrow>
    worker_step db (Some (di_id item)) db'"
| step_record_failed: "record_delivery_attempt sha f now wall aid did item result err db = (db', Inl e) \<Longrightarrow>
    worker_step db None db'"

inductive operator_step :: "'a delivery_db_scheme \<Rightarrow> 'a delivery_db_scheme \<Rightarrow> bool" where
  step_retry: "retry_delivery sha f now eid cid t i actor reason db = (db', r) \<Longrightarrow> operator_step db db'"
| step_cancel: "cancel_delivery sha f now eid cid t i actor reason db = (db', r) \<Longrightarrow> operator_step db db'"

definition refines :: "(dstate \<Rightarrow> dstate \<Rightarrow> bool) \<Rightarrow> (string \<rightharpoonup> dstate) \<Rightarrow> (string \<rightharpoonup> dstate) \<Rightarrow> bool" where
  "refines move m m' \<longleftrightarrow> dom m' = dom m \<and> (\<forall>i \<in> dom m. move\<^sup>*\<^sup>* (the (m i)) (the (m' i)))"

lemma abs_deliveries_update:
  assumes "\<And>d. dv_id (g d) = dv_id d" and "deliveries db' = update_where p g (deliveries db)"
  shows "dom (abs_deliveries db') = dom (abs_deliveries db)"
proof -
  have d: "dom (abs_deliveries x) = set (map dv_id (deliveries x))" for x :: "'c delivery_db_scheme"
    by (simp add: abs_deliveries_def dom_map_of_conv_image_fst image_image)
  show ?thesis unfolding d assms(2) by (simp only: update_where_keys [of dv_id, OF assms(1)])
qed

lemma abs_deliveries_at:
  "deliveries_ok db \<Longrightarrow> d \<in> set (deliveries db) \<Longrightarrow> abs_deliveries db (dv_id d) = Some (dstate_of (dv_state d))"
  unfolding abs_deliveries_def
  by (rule map_of_is_SomeI) (auto simp: deliveries_ok_def comp_def)

lemma refines_update:
  assumes "deliveries_ok db" "deliveries_ok db'" and "deliveries db' = update_where p g (deliveries db)"
    and "\<And>d. dv_id (g d) = dv_id d"
    and "\<And>d. d \<in> set (deliveries db) \<Longrightarrow> delivery_ok d \<Longrightarrow> p d \<Longrightarrow> move\<^sup>*\<^sup>* (dstate_of (dv_state d)) (dstate_of (dv_state (g d)))"
  shows "refines move (abs_deliveries db) (abs_deliveries db')"
  unfolding refines_def
proof (intro conjI ballI)
  show "dom (abs_deliveries db') = dom (abs_deliveries db)" using assms(4,3) by (rule abs_deliveries_update)
  fix i assume "i \<in> dom (abs_deliveries db)"
  then obtain d where d: "d \<in> set (deliveries db)" "dv_id d = i"
    by (auto simp: abs_deliveries_def dest!: map_of_SomeD)
  let ?d' = "if p d then g d else d"
  have "?d' \<in> set (deliveries db')" using d assms(3) by (auto simp: set_update_where)
  from abs_deliveries_at [OF assms(2) this] have "abs_deliveries db' i = Some (dstate_of (dv_state ?d'))"
    using d(2) assms(4) by (simp split: if_splits)
  moreover have "abs_deliveries db i = Some (dstate_of (dv_state d))" using abs_deliveries_at [OF assms(1) d(1)] d(2) by simp
  ultimately show "move\<^sup>*\<^sup>* (the (abs_deliveries db i)) (the (abs_deliveries db' i))"
    using assms(5) [OF d(1) deliveries_okD(1) [OF assms(1) d(1)]] by auto
qed

lemma refines_trans: "refines move m m' \<Longrightarrow> refines move m' m'' \<Longrightarrow> refines move m m''"
  unfolding refines_def by (metis rtranclp_trans)

lemma refines_refl: "refines move m m"
  by (simp add: refines_def)

lemma claim_refines:
  assumes "deliveries_ok db" and "claim_due_deliveries dec f now locked w lmt db = (db', Inr items)"
  shows "refines worker_move (abs_deliveries db) (abs_deliveries db')"
proof (rule refines_trans)
  note r = released_ok [OF assms(1), of now]
  show "refines worker_move (abs_deliveries db) (abs_deliveries (released now db))"
    by (rule refines_update [OF assms(1) r, of "lock_expired now" "unlock_delivery ''scheduled''"])
      (auto simp: released_def unlock_delivery_def dstate_of_def lock_expired_def intro: move_expire)
  have ok': "deliveries_ok db'" using claim_ok [OF assms(1), of dec f now locked w lmt] assms(2) by simp
  show "refines worker_move (abs_deliveries (released now db)) (abs_deliveries db')"
    using due_ids_due(1) [OF r]
    by (intro refines_update [OF r ok' claim_committed(1) [OF assms(2)]])
      (auto simp: lock_delivery_def dstate_of_def delivery_due_def intro: move_claim)
qed

lemma holds_lock_row:
  assumes "deliveries_ok db" and "holds_lock db item" and "x \<in> set (deliveries db)" and "dv_id x = di_id item"
  shows "dv_state x = ''in_progress''" "dv_attempt_count x = di_attempt_count item" "dv_tenant x = di_tenant item"
    "dv_retry_policy x = di_retry_policy item" "0 \<le> di_attempt_count item"
proof -
  from assms(2) obtain d where d: "d \<in> set (deliveries db)" "dv_id d = di_id item" "dv_tenant d = di_tenant item"
    "dv_retry_policy d = di_retry_policy item" "dv_attempt_count d = di_attempt_count item" "dv_state d = ''in_progress''"
    unfolding holds_lock_def by blast
  moreover have "x = d" using deliveries_okD(2) [OF assms(1) d(1) assms(3)] assms(4) d(2) by simp
  ultimately show "dv_state x = ''in_progress''" "dv_attempt_count x = di_attempt_count item" "dv_tenant x = di_tenant item"
    "dv_retry_policy x = di_retry_policy item" "0 \<le> di_attempt_count item"
    using deliveries_okD(1) [OF assms(1) d(1)] by (auto simp: delivery_ok_def)
qed

lemma holds_lock_count: "deliveries_ok db \<Longrightarrow> holds_lock db item \<Longrightarrow> 0 \<le> di_attempt_count item"
  using holds_lock_row(5) unfolding holds_lock_def by blast

lemma worker_step_ok: "worker_step db l db' \<Longrightarrow> deliveries_ok db \<Longrightarrow> deliveries_ok db'"
proof (induction rule: worker_step.induct)
  case (step_claim dec f now locked w lmt db db' r)
  then show ?case using claim_ok [of db dec f now locked w lmt] by simp
next
  case (step_record db item sha f now wall aid did result err db')
  then show ?case using record_ok [of db item sha f now wall aid did result err]
      holds_lock_count [OF step_record(3,1)] by simp
next
  case (step_record_failed sha f now wall aid did item result err db db' e)
  then show ?case using record_failed by blast
qed

lemma worker_step_refines:
  "worker_step db l db' \<Longrightarrow> deliveries_ok db \<Longrightarrow> refines worker_move (abs_deliveries db) (abs_deliveries db')"
proof (induction rule: worker_step.induct)
  case (step_claim dec f now locked w lmt db db' r)
  then show ?case
    by (cases r) (auto dest: claim_failed claim_refines simp: refines_refl)
next
  case (step_record db item sha f now wall aid did result err db')
  note ok' = worker_step_ok [OF worker_step.step_record [OF step_record(1,2)] step_record(3)]
  from step_record(2) obtain policy where
    "deliveries db' = update_where (\<lambda>d. dv_tenant d = di_tenant item \<and> dv_id d = di_id item)
       (recorded_row sha wall policy item result err) (deliveries db)" by (rule record_committed)
  then show ?case
    by (rule refines_update [OF step_record(3) ok'])
      (auto simp: recorded_row_keeps dstate_of_def dest: holds_lock_row(1) [OF step_record(3,1)] intro: worker_move.intros)
next
  case (step_record_failed sha f now wall aid did item result err db db' e)
  then show ?case using record_failed refines_refl by metis
qed

lemma operator_step_ok: "operator_step db db' \<Longrightarrow> deliveries_ok db \<Longrightarrow> deliveries_ok db'"
  by (induction rule: operator_step.induct) (auto dest: retry_ok cancel_ok)

lemma operator_step_refines:
  "operator_step db db' \<Longrightarrow> deliveries_ok db \<Longrightarrow> refines operator_move (abs_deliveries db) (abs_deliveries db')"
proof (induction rule: operator_step.induct)
  case (step_retry sha f now eid cid t i actor reason db db' r)
  note ok' = retry_ok [OF step_retry(2,1)]
  show ?case
  proof (cases r)
    case (Inl e)
    then show ?thesis using step_retry retry_failed refines_refl by metis
  next
    case (Inr x)
    with step_retry(1) have "retry_delivery sha f now eid cid t i actor reason db = (db', Inr x)" by simp
    from refines_update [OF step_retry(2) ok' retry_committed(1) [OF this]] show ?thesis
      by (auto simp: unlock_delivery_def dstate_of_def intro: move_retry)
  qed
next
  case (step_cancel sha f now eid cid t i actor reason db db' r)
  note ok' = cancel_ok [OF step_cancel(2,1)]
  show ?case
  proof (cases r)
    case (Inl e)
    then show ?thesis using step_cancel cancel_failed refines_refl by metis
  next
    case (Inr x)
    with step_cancel(1) have "cancel_delivery sha f now eid cid t i actor reason db = (db', Inr x)" by simp
    then show ?thesis
      by (intro refines_update [OF step_cancel(2) ok' cancel_committed(1)])
        (auto simp: unlock_delivery_def dstate_of_def delivery_ok_def intro: move_cancel)
  qed
qed

section \<open>Runs\<close>

definition worker_run :: "'a delivery_db_scheme \<Rightarrow> 'a delivery_db_scheme \<Rightarrow> bool" where
  "worker_run = (\<lambda>a b. \<exists>l. worker_step a l b)\<^sup>*\<^sup>*"

lemma worker_run_refines:
  "worker_run db db' \<Longrightarrow> deliveries_ok db \<Longrightarrow>
   deliveries_ok db' \<and> refines worker_move (abs_deliveries db) (abs_deliveries db')"
  unfolding worker_run_def
proof (induction rule: rtranclp_induct)
  case base
  then show ?case by (simp add: refines_refl)
next
  case (step b c)
  then show ?case by (auto intro: worker_step_ok worker_step_refines refines_trans)
qed

lemma worker_moves_end:
  assumes "worker_move\<^sup>*\<^sup>* s s'" and "s \<in> {Succeeded, DeadLettered, Canceled}"
  shows "s' = s"
  using assms by (induction rule: rtranclp_induct) (auto elim: worker_move_cases)

section \<open>Bounded attempts\<close>

definition policies_ok :: "'a delivery_db_scheme \<Rightarrow> bool" where
  "policies_ok db \<longleftrightarrow> list_all (\<lambda>r. validate_retry_policy (rr_policy r) = Inr ()) (retry_policies db)"

lemma worker_step_policies: "worker_step db l db' \<Longrightarrow> retry_policies db' = retry_policies db"
proof (induction rule: worker_step.induct)
  case (step_claim dec f now locked w lmt db db' r)
  then show ?case by (cases r) (auto dest: claim_failed claim_committed(3))
next
  case (step_record db item sha f now wall aid did result err db')
  from step_record(2) show ?case by (rule record_committed)
next
  case (step_record_failed sha f now wall aid did item result err db db' e)
  then show ?case using record_failed by blast
qed

lemma delivery_policy_bound:
  assumes "policies_ok db" and "retry_policy_for_delivery f db t p = Inr policy"
  shows "max_attempts policy \<le> 100" and "safe_policy policy"
proof -
  have "max_attempts policy \<le> 100 \<and> safe_policy policy"
  proof (cases "p = []")
    case True
    then show ?thesis using assms(2) default_policy_safe
      by (auto simp: retry_policy_for_delivery_def default_policy_def)
  next
    case False
    then obtain r where "r \<in> set (retry_policies db)" "policy = policy_of_row (rr_policy r)"
      using assms(2) by (auto simp: retry_policy_for_delivery_def dest!: query_row_in)
    moreover from this have "validate_retry_policy (rr_policy r) = Inr ()"
      using assms(1) by (auto simp: policies_ok_def list_all_iff)
    ultimately show ?thesis
      using validated_fields [of "rr_policy r"] validated_row_safe [of "rr_policy r"] by (auto simp: policy_of_row_def)
  qed
  then show "max_attempts policy \<le> 100" "safe_policy policy" by simp_all
qed

text \<open>How many attempts a delivery can still see, and a round: other work, then one attempt on it.\<close>

definition live_row :: "delivery_row \<Rightarrow> bool" where
  "live_row d \<longleftrightarrow> dv_state d \<in> {''scheduled'', ''in_progress''}"

definition attempts_left :: "string \<Rightarrow> 'a delivery_db_scheme \<Rightarrow> nat" where
  "attempts_left i db = (case filter (\<lambda>d. dv_id d = i \<and> live_row d) (deliveries db) of
     [] \<Rightarrow> 0 | d # _ \<Rightarrow> nat (max 1 (100 - dv_attempt_count d)))"

definition attempt_round :: "string \<Rightarrow> 'a delivery_db_scheme \<Rightarrow> 'a delivery_db_scheme \<Rightarrow> bool" where
  "attempt_round i db db' \<longleftrightarrow> deliveries_ok db \<and> policies_ok db
     \<and> (\<exists>db1. (\<lambda>a b. \<exists>l. l \<noteq> Some i \<and> worker_step a l b)\<^sup>*\<^sup>* db db1 \<and> worker_step db1 (Some i) db')"

lemma attempts_left_row:
  assumes "deliveries_ok db" and "d \<in> set (deliveries db)"
  shows "attempts_left (dv_id d) db = (if live_row d then nat (max 1 (100 - dv_attempt_count d)) else 0)"
  using filter_unique_key [of dv_id "deliveries db" d live_row] assms
  by (simp add: attempts_left_def deliveries_ok_def)

lemma other_steps_keep_left:
  assumes "worker_step db l db'" and "l \<noteq> Some i" and "deliveries_ok db"
  shows "attempts_left i db' = attempts_left i db"
  using assms
proof (induction rule: worker_step.induct)
  case (step_claim dec f now locked w lmt db db' r)
  show ?case
  proof (cases r)
    case (Inl e)
    then show ?thesis using step_claim claim_failed by blast
  next
    case (Inr items)
    note c = claim_committed(1) [OF step_claim(1) [unfolded Inr]]
    let ?p = "\<lambda>d. dv_id d \<in> set (due_ids now locked lmt (released now db))"
    define h where "h = (\<lambda>d. if ?p (if lock_expired now d then unlock_delivery ''scheduled'' d else d)
        then lock_delivery now w (if lock_expired now d then unlock_delivery ''scheduled'' d else d)
        else (if lock_expired now d then unlock_delivery ''scheduled'' d else d))"
    have m: "deliveries db' = map h (deliveries db)"
      by (simp add: h_def c released_def update_where_def comp_def)
    have h: "dv_id (h d) = dv_id d \<and> dv_attempt_count (h d) = dv_attempt_count d \<and> (live_row (h d) \<longleftrightarrow> live_row d)"
      if "d \<in> set (deliveries db)" for d
    proof -
      have "?p x \<Longrightarrow> x \<in> set (deliveries (released now db)) \<Longrightarrow> dv_state x = ''scheduled''" for x
        using due_ids_due(1) [OF released_ok [OF step_claim(3)]] by (auto simp: delivery_due_def)
      moreover have "(if lock_expired now d then unlock_delivery ''scheduled'' d else d) \<in> set (deliveries (released now db))"
        using that by (auto simp: released_def set_update_where)
      ultimately show ?thesis
        by (auto simp: h_def lock_delivery_def unlock_delivery_def live_row_def lock_expired_def split: if_splits)
    qed
    show ?thesis
    proof (cases "\<exists>d \<in> set (deliveries db). dv_id d = i")
      case True
      then obtain d where d: "d \<in> set (deliveries db)" "dv_id d = i" by blast
      have "h d \<in> set (deliveries db')" using d(1) m by simp
      moreover have "deliveries_ok db'" using claim_ok [OF step_claim(3), of dec f now locked w lmt] step_claim(1) by simp
      ultimately show ?thesis
        using attempts_left_row [of db' "h d"] attempts_left_row [OF step_claim(3) d(1)] h [OF d(1)] d(2) by simp
    next
      case False
      then have "filter (\<lambda>d. dv_id d = i \<and> live_row d) (deliveries db) = []"
        by (auto simp: filter_empty_conv)
      moreover have "filter (\<lambda>d. dv_id d = i \<and> live_row d) (deliveries db') = []"
        using False h by (auto simp: filter_empty_conv m)
      ultimately show ?thesis by (simp add: attempts_left_def)
    qed
  qed
next
  case (step_record db item sha f now wall aid did result err db')
  from step_record(2) obtain policy where
    d: "deliveries db' = update_where (\<lambda>d. dv_tenant d = di_tenant item \<and> dv_id d = di_id item)
       (recorded_row sha wall policy item result err) (deliveries db)" by (rule record_committed)
  have "filter (\<lambda>d. dv_id d = i \<and> live_row d) (deliveries db') = filter (\<lambda>d. dv_id d = i \<and> live_row d) (deliveries db)"
    unfolding d using step_record(3) by (intro filter_update_where_other) (auto simp: recorded_row_keeps)
  then show ?case by (simp add: attempts_left_def)
next
  case (step_record_failed sha f now wall aid did item result err db db' e)
  then show ?case using record_failed by blast
qed

lemma attempt_uses_one:
  assumes "worker_step db (Some i) db'" and "deliveries_ok db" and "policies_ok db"
  shows "attempts_left i db' < attempts_left i db"
proof -
  from assms(1) obtain item sha f now wall aid did result err where i: "i = di_id item" and h: "holds_lock db item"
    and r: "record_delivery_attempt sha f now wall aid did item result err db = (db', Inr ())"
    by (auto elim: worker_step.cases)
  from r obtain policy where p: "retry_policy_for_delivery f db (di_tenant item) (di_retry_policy item) = Inr policy"
    and d': "deliveries db' = update_where (\<lambda>d. dv_tenant d = di_tenant item \<and> dv_id d = di_id item)
       (recorded_row sha wall policy item result err) (deliveries db)" by (rule record_committed)
  from h obtain d where d: "d \<in> set (deliveries db)" "dv_id d = i" unfolding holds_lock_def i by blast
  note hd = holds_lock_row [OF assms(2) h d(1) d(2) [unfolded i]]
  let ?r = "recorded_row sha wall policy item result err d"
  have "?r \<in> set (deliveries db')" using d hd(3) i by (force simp: d' set_update_where)
  from attempts_left_row [OF worker_step_ok [OF assms(1,2)] this]
  have "attempts_left i db' = (if live_row ?r then nat (max 1 (100 - (di_attempt_count item + 1))) else 0)"
    by (simp add: recorded_row_keeps d(2))
  moreover have "attempts_left i db = nat (max 1 (100 - di_attempt_count item))"
    using attempts_left_row [OF assms(2) d(1)] d(2) hd(1,2) by (simp add: live_row_def)
  moreover have "di_attempt_count item + 1 < 100" if "live_row ?r"
    using that delivery_policy_bound(1) [OF assms(3) p]
    by (auto simp: live_row_def recorded_row_keeps attempt_retries_def split: if_splits)
  ultimately show ?thesis by (auto simp: max_def)
qed

lemma attempt_round_decreases:
  assumes "attempt_round i db db'"
  shows "attempts_left i db' < attempts_left i db"
proof -
  from assms obtain db1 where ok: "deliveries_ok db" "policies_ok db"
    and r: "(\<lambda>a b. \<exists>l. l \<noteq> Some i \<and> worker_step a l b)\<^sup>*\<^sup>* db db1" and s: "worker_step db1 (Some i) db'"
    unfolding attempt_round_def by blast
  from r have "deliveries_ok db1 \<and> policies_ok db1 \<and> attempts_left i db1 = attempts_left i db"
  proof (induction rule: rtranclp_induct)
    case base
    then show ?case using ok by simp
  next
    case (step b c)
    then obtain l where l: "l \<noteq> Some i" "worker_step b l c" by blast
    have "policies_ok c" using step.IH worker_step_policies [OF l(2)] by (simp add: policies_ok_def)
    then show ?case using step.IH l worker_step_ok [OF l(2)] other_steps_keep_left [OF l(2,1)] by simp
  qed
  with attempt_uses_one [OF s] show ?thesis by simp
qed

interpretation attempts: bounded_system "attempt_round i" "attempts_left i"
  by unfold_locales (rule attempt_round_decreases)

section \<open>Due, exclusive and fair claims\<close>

lemma list_all2_partner: "list_all2 P xs ys \<Longrightarrow> x \<in> set xs \<Longrightarrow> \<exists>y \<in> set ys. P x y"
  by (induction rule: list_all2_induct) auto

lemma claimed_in_progress:
  assumes "deliveries_ok db" and "claim_due_deliveries dec f now locked w lmt db = (db', Inr items)" and "item \<in> set items"
  obtains d where "d \<in> set (deliveries (released now db))" and "dv_id d = di_id item"
    and "dv_id d \<in> set (due_ids now locked lmt (released now db))" and "same_work item (item_of_row d)"
    and "lock_delivery now w d \<in> set (deliveries db')"
proof -
  let ?chosen = "\<lambda>d. dv_id d \<in> set (due_ids now locked lmt (released now db))"
  note c = claim_committed [OF assms(2)]
  from list_all2_partner [OF populate_items_same [OF c(2)] assms(3)]
  obtain x where "x \<in> set (map item_of_row (filter ?chosen (deliveries (released now db))))" "same_work item x" by blast
  then obtain d where d: "d \<in> set (deliveries (released now db))" "?chosen d" "same_work item (item_of_row d)" by auto
  then have "lock_delivery now w d \<in> set (deliveries db')" by (force simp: c(1) set_update_where)
  moreover have "dv_id d = di_id item" using d(3) by (simp add: same_work_def item_of_row_def)
  ultimately show ?thesis using d by (intro that [of d])
qed

lemma released_rows:
  "d \<in> set (deliveries (released now db)) \<longleftrightarrow>
   (\<exists>x \<in> set (deliveries db). d = (if lock_expired now x then unlock_delivery ''scheduled'' x else x))"
  by (auto simp: released_def set_update_where)

lemma locked_not_claimed:
  assumes "deliveries_ok db" and "d \<in> set (deliveries db)" and "dv_state d = ''in_progress''"
    and "dv_lock_expires d = Some t" and "now < t"
    and "claim_due_deliveries dec f now locked w lmt db = (db', Inr items)"
  shows "dv_id d \<notin> di_id ` set items"
proof
  assume "dv_id d \<in> di_id ` set items"
  then obtain item where item: "item \<in> set items" "dv_id d = di_id item" by auto
  from claimed_in_progress [OF assms(1,6) item(1)] obtain x where x: "x \<in> set (deliveries (released now db))"
    "dv_id x = di_id item" "dv_id x \<in> set (due_ids now locked lmt (released now db))" by blast
  have "\<not> lock_expired now d" using assms(4,5) by (simp add: lock_expired_def)
  then have "d \<in> set (deliveries (released now db))" using assms(2) by (auto simp: released_rows)
  with deliveries_okD(2) [OF released_ok [OF assms(1)] x(1)] x(2) item(2) have "d = x" by simp
  with due_ids_due(1) [OF released_ok [OF assms(1)] x(1,3)] assms(3) show False by (simp add: delivery_due_def)
qed

lemma claim_poisons:
  assumes "deliveries_ok db" and "d \<in> set (deliveries (released now db))"
    and "dv_id d \<in> set (due_ids now locked lmt (released now db))" and "dv_payload d \<noteq> []"
    and "\<And>p. p \<in> set (delivery_payloads db) \<Longrightarrow> dp_id p = dv_payload d \<Longrightarrow> dp_status p = ''deleted''"
  shows "\<exists>e. claim_due_deliveries dec f now locked w lmt db = (db, Inl e)"
proof (cases "claim_due_deliveries dec f now locked w lmt db")
  case (Pair db' r)
  show ?thesis
  proof (cases r)
    case (Inl e)
    then show ?thesis using Pair claim_failed by blast
  next
    case (Inr items)
    note c = claim_committed [OF Pair [unfolded Inr]]
    note ok' = claim_ok [OF assms(1), of dec f now locked w lmt, unfolded Pair fst_conv]
    let ?d = "lock_delivery now w d"
    have d': "?d \<in> set (deliveries db')" using assms(2,3) by (force simp: c(1) set_update_where)
    have bad: "\<exists>e. populate_delivery_item dec f db' (item_of_row d) = Inl e"
    proof (cases "query_row f ''populate'' (populate_rows db' (item_of_row d))")
      case (Inl e)
      then show ?thesis by (simp add: populate_delivery_item_def)
    next
      case (Inr q)
      obtain x e s p where q: "q = (x, e, s, p)" by (cases q)
      have "q \<in> set (populate_rows db' (item_of_row d))" using Inr by (rule query_row_in)
      then have x: "x \<in> set (deliveries db')" "dv_id x = dv_id d"
        and p: "p \<in> set (left_join (\<lambda>p. dp_tenant p = dv_tenant x \<and> dp_id p = dv_payload x) (delivery_payloads db'))"
        by (auto simp: populate_rows_def q item_of_row_def)
      have "x = ?d" using deliveries_okD(2) [OF ok' d' x(1)] x(2) by (simp add: lock_delivery_def)
      then have "payload_missing x p"
        using p assms(4,5) by (auto simp: payload_missing_def left_join_def c(4) lock_delivery_def
            filter_eq_Cons_iff split: list.splits option.splits)
      then show ?thesis by (simp add: populate_delivery_item_def Inr q)
    qed
    have "\<exists>e. populate_items dec f db' items' = Inl e" if "item_of_row d \<in> set items'" for items'
      using that bad by (induction items') (auto simp: bind_res_def split: sum.splits)
    moreover have "item_of_row d \<in> set (map item_of_row (filter (\<lambda>d. dv_id d \<in> set (due_ids now locked lmt (released now db)))
         (deliveries (released now db))))" using assms(2,3) by auto
    ultimately show ?thesis using c(2) by (metis Inl_Inr_False)
  qed
qed

section \<open>A sample database\<close>

definition sample_endpoint :: endpoint_row where
  "sample_endpoint = \<lparr> ep_id = ''e'', ep_tenant = ''t'', ep_url = ''https://x'', ep_state = ''active'', ep_retry_policy = [],
     ep_mtls_enabled = False, ep_mtls_cert = None, ep_mtls_key = None, ep_failure_count = 0,
     ep_circuit_state = ''closed'', ep_disabled_until = None \<rparr>"

definition sample_delivery :: "string \<Rightarrow> string \<Rightarrow> delivery_row" where
  "sample_delivery i state = \<lparr> dv_id = i, dv_tenant = ''t'', dv_event = ''ev'', dv_endpoint = ''e'', dv_route = [],
     dv_route_version = [], dv_subscription = [], dv_subscription_version = [], dv_retry_policy = [], dv_replay_job = [],
     dv_adapter_version = [], dv_normalized = [], dv_transformation_version = [], dv_payload = ''p'', dv_retry_seed = ''s'',
     dv_state = state, dv_attempt_count = 0, dv_next_attempt = Some 5, dv_locked_by = None, dv_lock_expires = None,
     dv_created_at = 1 \<rparr>"

definition sample_payload :: "string \<Rightarrow> delivery_payload_row" where
  "sample_payload status = \<lparr> dp_id = ''p'', dp_tenant = ''t'', dp_delivery = ''d'', dp_event = ''ev'', dp_normalized = [],
     dp_transformation_version = [], dp_content_type = ''application/json'', dp_sha256 = ''h'', dp_size = 2,
     dp_body = ''{}'', dp_status = status \<rparr>"

definition sample_delivery_db :: "delivery_row list \<Rightarrow> string \<Rightarrow> delivery_db" where
  "sample_delivery_db ds status = \<lparr> audit_events = [], chain_entries = [], chain_heads = [], chain_anchors = [],
     worker_leases = [], retention_run_items = [], tenants = [''t''], raw_payloads = [], events = [], receipts = [],
     normalized_envelopes = [], outbox = [], dedupe_records = [], idempotency_records = [], quarantine_entries = [],
     adapter_versions = [], sources = [], source_secret_versions = [], endpoints = [sample_endpoint],
     endpoint_secrets = [\<lparr> es_id = ''k'', es_tenant = ''t'', es_endpoint = ''e'', es_version = 1, es_secret = ''x'', es_state = ''active'' \<rparr>],
     retry_policies = [], deliveries = ds, delivery_payloads = [sample_payload status], delivery_attempts = [],
     dead_letter_entries = [], subscriptions = [], routes = [], transformation_versions = [] \<rparr>"

abbreviation open_box :: secret_box where
  "open_box \<equiv> (\<lambda>_ _ c. Inr c)"

lemmas delivery_eval = sample_delivery_db_def sample_delivery_def sample_payload_def sample_endpoint_def
  deliveries_ok_def delivery_ok_def policies_ok_def

lemma sample_claim:
  "case claim_due_deliveries open_box no_faults 9 (\<lambda>_. False) ''w'' 5
     (sample_delivery_db [sample_delivery ''d'' ''scheduled''] ''stored'') of (db', r) \<Rightarrow>
   (case r of Inl _ \<Rightarrow> False | Inr items \<Rightarrow> map di_id items = [''d''] \<and> map dv_state (deliveries db') = [''in_progress'']
     \<and> snd (claim_due_deliveries open_box no_faults 10 (\<lambda>_. False) ''v'' 5 db') = Inr [])"
  by code_simp

lemma sample_db_ok: "deliveries_ok (sample_delivery_db [sample_delivery ''d'' ''scheduled''] st)"
  "policies_ok (sample_delivery_db ds st)"
  by (simp_all add: delivery_eval)

section \<open>Properties\<close>

text \<open>
  C17. Deliveries keep their type. A delivery row is well formed when its state is one of the five
  states, its attempts are counted from 0, it carries a lock and the expiry of a lock exactly
  while it is in progress, and it has a time for its next attempt while it is scheduled or in
  progress; the identifiers are distinct. Claiming, recording an attempt, retrying and canceling
  keep all rows well formed, on success and on every error.
\<close>

theorem delivery_rows_typed:
  assumes "deliveries_ok db" and "0 \<le> di_attempt_count item"
  shows "deliveries_ok (fst (claim_due_deliveries dec f now locked w lmt db))
    \<and> deliveries_ok (fst (record_delivery_attempt sha f now wall aid did item result err db))
    \<and> deliveries_ok (fst (retry_delivery sha f now eid cid t i actor reason db))
    \<and> deliveries_ok (fst (cancel_delivery sha f now eid cid t i actor reason db))"
  by (intro conjI claim_ok record_ok assms retry_ok [OF assms(1) prod.collapse [symmetric]]
      cancel_ok [OF assms(1) prod.collapse [symmetric]])

theorem delivery_rows_typed_witness:
  "deliveries_ok (fst (cancel_delivery rev no_faults 9 ''a'' ''c'' ''t'' ''d'' ''u'' ''r''
     (sample_delivery_db [sample_delivery ''d'' ''scheduled''] ''stored'')))"
proof -
  have "(0::int) \<le> di_attempt_count (item_of_row (sample_delivery ''d'' ''scheduled''))"
    by (simp add: item_of_row_def sample_delivery_def)
  from delivery_rows_typed [OF sample_db_ok(1) this] show ?thesis by blast
qed



text \<open>
  Finished deliveries are safe from the workers: in every run of claims and of recorded
  attempts that still hold their claim, however the calls interleave and fail, a delivery that
  has succeeded, was dead-lettered or was canceled keeps that state. Only an operator's retry
  leaves these states.
\<close>

theorem finished_deliveries_stay:
  assumes "worker_run db db'" and "deliveries_ok db" and "abs_deliveries db i = Some s"
    and "s \<in> {Succeeded, DeadLettered, Canceled}"
  shows "abs_deliveries db' i = Some s"
proof -
  from worker_run_refines [OF assms(1,2)] have "refines worker_move (abs_deliveries db) (abs_deliveries db')" by simp
  then have "i \<in> dom (abs_deliveries db')" and "worker_move\<^sup>*\<^sup>* s (the (abs_deliveries db' i))"
    using assms(3) by (auto simp: refines_def dest!: bspec [where x = i])
  with worker_moves_end [OF _ assms(4)] show ?thesis by auto
qed

theorem finished_deliveries_stay_witness:
  "abs_deliveries (fst (claim_due_deliveries open_box no_faults 9 (\<lambda>_. False) ''w'' 5
     (sample_delivery_db [sample_delivery ''d'' ''succeeded''] ''stored''))) ''d'' = Some Succeeded"
proof (rule finished_deliveries_stay)
  show "worker_run (sample_delivery_db [sample_delivery ''d'' ''succeeded''] ''stored'')
     (fst (claim_due_deliveries open_box no_faults 9 (\<lambda>_. False) ''w'' 5 (sample_delivery_db [sample_delivery ''d'' ''succeeded''] ''stored'')))"
    unfolding worker_run_def by (rule r_into_rtranclp) (blast intro: step_claim [OF prod.collapse [symmetric]])
qed (simp_all add: delivery_eval abs_deliveries_def dstate_of_def)


lemma sample_round:
  "case claim_due_deliveries open_box no_faults 9 (\<lambda>_. False) ''w'' 5
     (sample_delivery_db [sample_delivery ''d'' ''scheduled''] ''stored'') of (db1, r) \<Rightarrow>
   (case r of Inl _ \<Rightarrow> False | Inr items \<Rightarrow> holds_lock db1 (hd items) \<and> di_id (hd items) = ''d''
     \<and> snd (record_delivery_attempt rev no_faults 9 9 ''a'' ''l'' (hd items)
         \<lparr> dl_status = 200, dl_body = [], dl_truncated = False, dl_failure_class = ''success'' \<rparr> None db1) = Inr ())"
  by code_simp



abbreviation sample_answer :: "int \<Rightarrow> deliver_result" where
  "sample_answer status \<equiv> \<lparr> dl_status = status, dl_body = [], dl_truncated = False, dl_failure_class = [] \<rparr>"

lemma sample_record:
  "snd (record_delivery_attempt rev no_faults 9 9 ''a'' ''l'' (item_of_row (sample_delivery ''d'' ''scheduled''))
     (sample_answer 404) None (sample_delivery_db [sample_delivery ''d'' st] ''stored'')) = Inr ()"
  by (simp add: record_delivery_attempt_def run_tx_def bind_tx_def then_tx_def read_tx_def retry_policy_for_delivery_def
      Let_def insert_row_def try_tx_def update_rows_def exec_tx_def attempt_failed_def attempt_retries_def classify_status_def
      delivery_eval item_of_row_def)







lemma sample_retry:
  "\<exists>db1 r. retry_delivery rev no_faults 9 ''a'' ''c'' ''t'' ''d'' ''u'' ''r''
     (sample_delivery_db [sample_delivery ''d'' ''succeeded''] ''deleted'') = (db1, Inr r)
   \<and> ''d'' \<in> set (due_ids 9 (\<lambda>_. False) 5 (released 9 db1))"
proof -
  let ?g = "\<lambda>d. (unlock_delivery ''scheduled'' d)\<lparr>dv_next_attempt := Some 9\<rparr>"
  let ?db = "sample_delivery_db [sample_delivery ''d'' ''succeeded''] ''deleted''"
  let ?db' = "deliveries_update (update_where (\<lambda>d. dv_tenant d = ''t'' \<and> dv_id d = ''d'') ?g) ?db"
  have "audit_events ?db' = []" "chain_entries ?db' = []" "chain_heads ?db' = []" by (simp_all add: sample_delivery_db_def)
  from record_audit_event_tx_runs [OF this] obtain db1 e where a: "record_audit_event_tx rev no_faults 9 ''a'' ''c'' (delivery_audit ''t'' ''u'' ''delivery.retry_requested'' ''d'' ''r'') ?db' = Inr (db1, e)"
    by blast
  have u: "update_returning no_faults ''retry_delivery'' deliveries deliveries_update (\<lambda>d. dv_tenant d = ''t'' \<and> dv_id d = ''d'') ?g ?db
      = Inr (?db', ?g (sample_delivery ''d'' ''succeeded''))"
    by (simp add: update_returning_def try_tx_def sample_delivery_db_def sample_delivery_def)
  have r: "\<exists>r. retry_delivery rev no_faults 9 ''a'' ''c'' ''t'' ''d'' ''u'' ''r'' ?db = (db1, Inr r)"
    by (simp add: retry_delivery_def run_tx_def bind_tx_def not_found_tx_def u no_rows_not_found_def read_tx_def then_tx_def a return_tx_def)
  then obtain r where r: "retry_delivery rev no_faults 9 ''a'' ''c'' ''t'' ''d'' ''u'' ''r'' ?db = (db1, Inr r)" by blast
  note c = retry_committed [OF r]
  have "deliveries (released 9 db1) = [?g (sample_delivery ''d'' ''succeeded'')]" "endpoints (released 9 db1) = [sample_endpoint]"
    by (simp_all add: released_def c sample_delivery_db_def sample_delivery_def unlock_delivery_def lock_expired_def)
  then have "''d'' \<in> set (due_ids 9 (\<lambda>_. False) 5 (released 9 db1))"
    by (simp add: due_ids_def claim_ids_def claim_order_def order_by_def delivery_due_def sample_delivery_def unlock_delivery_def
        sample_endpoint_def endpoint_open_def)
  with r show ?thesis by (intro exI conjI)
qed




text \<open>
  C38. A network failure is final. When the client cannot reach the receiver (the round trip fails
  after the egress check has passed), the answer has status 0, which no policy retries: the first
  failed connection dead-letters the delivery and opens the circuit of the endpoint for ten minutes,
  although the failure class is \<open>network_error\<close> and attempts remain.
\<close>

theorem network_error_dead_letters:
  assumes "build_request ul resolver mac c clk (di_url item) (di_body item) = Inr req"
    and "http_client key_pair_ok c = Inr ()" and "send req = SendError"
    and "deliver ul resolver mac key_pair_ok send c clk (di_url item) (di_body item) = (result, err)"
    and "d \<in> set (deliveries db)" and "dv_id d = di_id item" and "dv_tenant d = di_tenant item"
    and "record_delivery_attempt sha f now wall aid did item result err db = (db', Inr u)"
  shows "\<exists>d' l. d' \<in> set (deliveries db') \<and> dv_id d' = dv_id d \<and> dv_state d' = ''dead_lettered''
    \<and> dead_letter_entries db' = dead_letter_entries db @ [l] \<and> dd_reason l = ''network_error''
    \<and> endpoints db' = update_where (\<lambda>e. ep_tenant e = di_tenant item \<and> ep_id e = di_endpoint item) (open_circuit now) (endpoints db)"
proof -
  have res: "result = failed_delivery ''network_error''" "err \<noteq> None"
    using assms(1-4) by (auto simp: deliver_def)
  have cl: "attempt_failed result err" "\<not> attempt_retries policy item result err" for policy
    using res by (simp_all add: attempt_failed_def attempt_retries_def failed_delivery_def classify_status_def)
  from assms(8) obtain policy where
    d': "deliveries db' = update_where (\<lambda>d. dv_tenant d = di_tenant item \<and> dv_id d = di_id item)
       (recorded_row sha wall policy item result err) (deliveries db)"
    and l: "dead_letter_entries db' = dead_letter_entries db @
       (if attempt_failed result err \<and> \<not> attempt_retries policy item result err
        then [\<lparr> dd_id = did, dd_tenant = di_tenant item, dd_delivery = di_id item, dd_event = di_event item,
               dd_reason = attempt_failure_class result err, dd_state = ''open'' \<rparr>] else [])"
    and e: "endpoints db' = update_where (\<lambda>e. ep_tenant e = di_tenant item \<and> ep_id e = di_endpoint item)
       (if \<not> attempt_failed result err then close_circuit
        else if attempt_retries policy item result err then count_failure now else open_circuit now) (endpoints db)"
    by (rule record_committed)
  have "recorded_row sha wall policy item result err d \<in> set (deliveries db')"
    using assms(5-7) by (force simp: d' set_update_where)
  then show ?thesis
    using l e cl res(1) by (intro exI [of _ "recorded_row sha wall policy item result err d"])
      (simp add: recorded_row_keeps attempt_failure_class_def failed_delivery_def)
qed

theorem network_error_dead_letters_witness:
  "\<exists>result err db' d'. deliver sample_url_lib sample_resolver (\<lambda>k p. k @ p) (\<lambda>_ _. True) (\<lambda>_. SendError) sample_client 0 ''x'' ''b''
       = (result, err)
     \<and> record_delivery_attempt rev no_faults 9 9 ''a'' ''l''
         ((item_of_row (sample_delivery ''d'' ''scheduled''))\<lparr>di_url := ''x'', di_body := ''b''\<rparr>) result err
         (sample_delivery_db [sample_delivery ''d'' ''scheduled''] ''stored'') = (db', Inr ())
     \<and> d' \<in> set (deliveries db') \<and> dv_state d' = ''dead_lettered''"
proof -
  let ?i = "(item_of_row (sample_delivery ''d'' ''scheduled''))\<lparr>di_url := ''x'', di_body := ''b''\<rparr>"
  let ?db = "sample_delivery_db [sample_delivery ''d'' ''scheduled''] ''stored''"
  obtain req where req: "build_request sample_url_lib sample_resolver (\<lambda>k p. k @ p) sample_client 0 (di_url ?i) (di_body ?i) = Inr req"
    using sample_validates [unfolded sample_url_def]
    by (simp add: build_request_def Let_def sample_url_lib_def sample_url_def)
  have cl: "http_client (\<lambda>_ _. True) sample_client = Inr ()"
    by (simp add: http_client_def safe_http_client_def sample_client_def)
  have del: "deliver sample_url_lib sample_resolver (\<lambda>k p. k @ p) (\<lambda>_ _. True) (\<lambda>_. SendError) sample_client 0 (di_url ?i) (di_body ?i)
       = (failed_delivery ''network_error'', Some (ErrOther ''delivery network error''))"
    using req cl by (simp add: deliver_def)
  have "snd (record_delivery_attempt rev no_faults 9 9 ''a'' ''l'' ?i (failed_delivery ''network_error'')
      (Some (ErrOther ''delivery network error'')) ?db) = Inr ()"
    by (simp add: record_delivery_attempt_def run_tx_def bind_tx_def then_tx_def read_tx_def retry_policy_for_delivery_def
      Let_def insert_row_def try_tx_def update_rows_def exec_tx_def attempt_failed_def attempt_retries_def classify_status_def
      failed_delivery_def delivery_eval item_of_row_def)
  then obtain db' where r: "record_delivery_attempt rev no_faults 9 9 ''a'' ''l'' ?i (failed_delivery ''network_error'')
      (Some (ErrOther ''delivery network error'')) ?db = (db', Inr ())" by (metis prod.collapse)
  have d: "sample_delivery ''d'' ''scheduled'' \<in> set (deliveries ?db)" "dv_id (sample_delivery ''d'' ''scheduled'') = di_id ?i"
    "dv_tenant (sample_delivery ''d'' ''scheduled'') = di_tenant ?i"
    by (simp_all add: item_of_row_def sample_delivery_def sample_delivery_db_def)
  from network_error_dead_letters [OF req cl refl del d r] obtain d' where
    "d' \<in> set (deliveries db')" "dv_state d' = ''dead_lettered''" by blast
  with r del show ?thesis by (intro exI conjI) simp_all
qed

end
