(* ===== verification/Provider_Verify.thy ===== *)
theory Provider_Verify
  imports Hmac_Verifier
begin

text \<open>
  The provider adapters (internal/provider/provider.go) and the declarative adapters an operator
  defines (declarative.go): how each of them decides whether a request is authentic. Headers are
  an association list whose order is the iteration order of the Go map. HMAC-SHA-256 (\<open>mac\<close>),
  SHA-256 (\<open>sha\<close>), the JSON parser, the RFC 3339 parser and the clock that stands in for a
  zero time are the arguments collected in \<open>provider_lib\<close>.
\<close>

section \<open>Model\<close>

record provider_lib =
  pl_mac :: hmac
  pl_sha :: "string \<Rightarrow> string"
  pl_decode :: "string \<Rightarrow> json option"
  pl_rfc3339 :: "string \<Rightarrow> gotime option"
  pl_clock :: gotime

type_synonym headers = "(string \<times> string list) list"

record verify_input =
  vi_raw_body :: string
  vi_headers :: headers
  vi_secret :: string
  vi_now :: gotime

record verify_result =
  pv_verified :: bool
  pv_reason :: string
  pv_provider :: string
  pv_timestamp :: gotime

record declarative_verification =
  dv_type :: string
  dv_signature_header :: string
  dv_timestamp_header :: string
  dv_signed_payload :: string
  dv_encoding :: string
  dv_replay_window_seconds :: int
  dv_signature_prefix :: string

record declarative_normalization =
  dn_source :: string
  dn_subject :: string
  dn_data :: string

record declarative_definition =
  dd_name :: string
  dd_version :: string
  dd_verification :: declarative_verification
  dd_extractors :: "(string \<times> string) list"
  dd_normalization :: declarative_normalization

datatype provider_adapter =
    StripeAdapter
  | GitHubAdapter
  | ShopifyAdapter
  | SlackAdapter
  | GenericHMACAdapter
  | GenericJWTAdapter
  | CloudEventsAdapter
  | InternalTrustedAdapter
  | UnsafeAdapter
  | DeclarativeAdapter declarative_definition

definition registry_adapter :: "string \<Rightarrow> provider_adapter option" where
  "registry_adapter name = map_of
     [(''stripe'', StripeAdapter), (''github'', GitHubAdapter), (''shopify'', ShopifyAdapter),
      (''slack'', SlackAdapter), (''generic-hmac'', GenericHMACAdapter), (''generic-jwt'', GenericJWTAdapter),
      (''cloudevents'', CloudEventsAdapter), (''internal'', InternalTrustedAdapter),
      (''generic-unsafe'', UnsafeAdapter)] (to_lower name)"

definition result :: "string \<Rightarrow> bool \<Rightarrow> string \<Rightarrow> verify_result" where
  "result provider verified reason =
     \<lparr> pv_verified = verified, pv_reason = reason, pv_provider = provider, pv_timestamp = 0 \<rparr>"

fun first_header :: "headers \<Rightarrow> string \<Rightarrow> string" where
  "first_header [] name = []"
| "first_header ((key, vs) # hs) name =
     (if to_lower key = to_lower name \<and> vs \<noteq> [] then hd vs else first_header hs name)"

definition provider_bearer_token :: "string \<Rightarrow> string" where
  "provider_bearer_token header =
     (case cut_char (CHR '' '') (trim_space header) of
        Some (pre, token) \<Rightarrow> if equal_fold pre ''Bearer'' then trim_space token else []
      | None \<Rightarrow> [])"

definition decode_base64_url :: "string \<Rightarrow> string option" where
  "decode_base64_url v = (case b64_decode True False v of Some r \<Rightarrow> Some r | None \<Rightarrow> b64_decode True True v)"

definition decode_jwt_part :: "provider_lib \<Rightarrow> string \<Rightarrow> json option" where
  "decode_jwt_part lib part = (case decode_base64_url part of Some raw \<Rightarrow> pl_decode lib raw | None \<Rightarrow> None)"

text \<open>The conversion of a float64 to an int64: towards zero; out of range it is the least value.\<close>

definition int64_of_rat :: "rat \<Rightarrow> int" where
  "int64_of_rat q = (let n = (if 0 \<le> q then \<lfloor>q\<rfloor> else \<lceil>q\<rceil>) in if in_int64 n then n else min_int64)"

definition jwt_numeric_claim :: "json_map \<Rightarrow> string \<Rightarrow> int" where
  "jwt_numeric_claim claims key = (case map_of claims key of Some (JNum q) \<Rightarrow> int64_of_rat q | _ \<Rightarrow> 0)"

definition sha256_hex :: "provider_lib \<Rightarrow> string \<Rightarrow> string" where
  "sha256_hex lib body = hex_encode (pl_sha lib body)"

definition stripe_verify :: "provider_lib \<Rightarrow> verify_input \<Rightarrow> verify_result" where
  "stripe_verify lib i =
     (let header = first_header (vi_headers i) ''stripe-signature'' in
      if header = [] then result ''stripe'' False ''missing_signature''
      else
        let res = verify_timestamped_hmac (pl_mac lib) \<lparr> hi_secret = vi_secret i, hi_raw_body = vi_raw_body i,
              hi_header = header, hi_now = vi_now i, hi_tolerance = 5 * ns_minute,
              hi_expected_version = ''v1'', hi_encoding = ''hex'' \<rparr> in
        \<lparr> pv_verified = vr_valid res, pv_reason = vr_reason res, pv_provider = ''stripe'',
          pv_timestamp = vr_timestamp res \<rparr>)"

definition github_verify :: "provider_lib \<Rightarrow> verify_input \<Rightarrow> verify_result" where
  "github_verify lib i =
     (let header = first_header (vi_headers i) ''x-hub-signature-256'' in
      if header = [] then result ''github'' False ''missing_signature''
      else case cut_prefix header ''sha256='' of
        None \<Rightarrow> result ''github'' False ''malformed_header''
      | Some signature \<Rightarrow>
          if \<not> verify_hex (pl_mac lib) (vi_secret i) (vi_raw_body i) signature
          then result ''github'' False ''invalid_signature'' else result ''github'' True ''ok'')"

definition shopify_verify :: "provider_lib \<Rightarrow> verify_input \<Rightarrow> verify_result" where
  "shopify_verify lib i =
     (let header = first_header (vi_headers i) ''x-shopify-hmac-sha256'' in
      if header = [] then result ''shopify'' False ''missing_signature''
      else if \<not> verify_base64 (pl_mac lib) (vi_secret i) (vi_raw_body i) header
      then result ''shopify'' False ''invalid_signature'' else result ''shopify'' True ''ok'')"

definition slack_payload :: "int \<Rightarrow> string \<Rightarrow> string" where
  "slack_payload unix raw = ''v0:'' @ itoa unix @ '':'' @ raw"

definition slack_verify :: "provider_lib \<Rightarrow> verify_input \<Rightarrow> verify_result" where
  "slack_verify lib i =
     (let ts_header = first_header (vi_headers i) ''x-slack-request-timestamp'';
          sig_header = first_header (vi_headers i) ''x-slack-signature'' in
      if ts_header = [] \<or> sig_header = [] then result ''slack'' False ''missing_signature''
      else case parse_int64 ts_header of
        None \<Rightarrow> result ''slack'' False ''malformed_header''
      | Some unix \<Rightarrow>
          let ts = time_unix unix;
              stamped = (\<lambda>ok reason. \<lparr> pv_verified = ok, pv_reason = reason, pv_provider = ''slack'', pv_timestamp = ts \<rparr>) in
          if 5 * ns_minute < abs_duration (time_sub (vi_now i) ts) then stamped False ''expired_timestamp''
          else case cut_prefix sig_header ''v0='' of
            None \<Rightarrow> result ''slack'' False ''malformed_header''
          | Some signature \<Rightarrow>
              if \<not> verify_hex (pl_mac lib) (vi_secret i) (slack_payload unix (vi_raw_body i)) signature
              then stamped False ''invalid_signature'' else stamped True ''ok'')"

definition generic_hmac_verify :: "provider_lib \<Rightarrow> verify_input \<Rightarrow> verify_result" where
  "generic_hmac_verify lib i =
     (let header = first_header (vi_headers i) ''webhook-signature'' in
      if header = [] then result ''generic-hmac'' False ''missing_signature''
      else if \<not> verify_hex (pl_mac lib) (vi_secret i) (vi_raw_body i) (trim_prefix header ''sha256='')
      then result ''generic-hmac'' False ''invalid_signature'' else result ''generic-hmac'' True ''ok'')"

definition jwt_token :: "headers \<Rightarrow> string" where
  "jwt_token hs =
     (let token = provider_bearer_token (first_header hs ''authorization'') in
      if token = [] then trim_space (first_header hs ''webhook-jwt'') else token)"

text \<open>The claims of a token whose signature matched: its times and the hash of the body.\<close>

definition jwt_claims_verify :: "provider_lib \<Rightarrow> json_map \<Rightarrow> verify_input \<Rightarrow> verify_result" where
  "jwt_claims_verify lib claims i =
     (let now = (if vi_now i = 0 then pl_clock lib else vi_now i);
          ep = jwt_numeric_claim claims ''exp''; nbf = jwt_numeric_claim claims ''nbf'';
          iat = jwt_numeric_claim claims ''iat'';
          expired = (\<lambda>t. \<lparr> pv_verified = False, pv_reason = ''expired_timestamp'', pv_provider = ''generic-jwt'',
            pv_timestamp = time_unix t \<rparr>) in
      if ep = 0 then result ''generic-jwt'' False ''malformed_header''
      else if ep \<le> unix_of now then expired ep
      else if nbf \<noteq> 0 \<and> unix_of now < nbf then expired nbf
      else if iat \<noteq> 0 \<and> unix_of (now + 5 * ns_minute) < iat then expired iat
      else if \<not> equal_fold (trim_space (obj_string claims ''body_sha256'')) (sha256_hex lib (vi_raw_body i))
      then result ''generic-jwt'' False ''invalid_signature''
      else result ''generic-jwt'' True ''ok'')"

definition jwt_verify :: "provider_lib \<Rightarrow> verify_input \<Rightarrow> verify_result" where
  "jwt_verify lib i =
     (let token = jwt_token (vi_headers i); failed = result ''generic-jwt'' False in
      if token = [] then failed ''missing_signature''
      else case split_char (CHR ''.'') token of
        [p0, p1, p2] \<Rightarrow>
          if p0 = [] \<or> p1 = [] \<or> p2 = [] then failed ''malformed_header''
          else
            (case Option.bind (decode_jwt_part lib p0) (unmarshal_strings [''alg'', ''typ'', ''kid'']) of
               None \<Rightarrow> failed ''malformed_header''
             | Some header \<Rightarrow>
                 if header_value header ''alg'' \<noteq> ''HS256'' then failed ''unsupported_algorithm''
                 else
                   (case Option.bind (decode_base64_url p1) (unmarshal_map (pl_decode lib)) of
                      None \<Rightarrow> failed ''malformed_header''
                    | Some claims \<Rightarrow>
                        (case decode_base64_url p2 of
                           None \<Rightarrow> failed ''malformed_header''
                         | Some signature \<Rightarrow>
                             if signature \<noteq> pl_mac lib (vi_secret i) (p0 @ ''.'' @ p1) then failed ''invalid_signature''
                             else jwt_claims_verify lib claims i)))
      | _ \<Rightarrow> failed ''malformed_header'')"

definition cloudevents_verify :: "provider_lib \<Rightarrow> verify_input \<Rightarrow> verify_result" where
  "cloudevents_verify lib i =
     (let hs = vi_headers i; failed = result ''cloudevents'' False in
      if first_header hs ''ce-id'' \<noteq> [] \<and> first_header hs ''ce-type'' \<noteq> [] then failed ''unsigned_cloudevents''
      else if has_prefix (to_lower (first_header hs ''content-type'')) ''application/cloudevents+json''
      then
        (case Option.bind (pl_decode lib (vi_raw_body i))
            (unmarshal_strings [''specversion'', ''id'', ''type'', ''source'']) of
           None \<Rightarrow> failed ''malformed_header''
         | Some env \<Rightarrow>
             if list_all (\<lambda>k. header_value env k \<noteq> []) [''specversion'', ''id'', ''type'', ''source'']
             then failed ''unsigned_cloudevents'' else failed ''missing_cloudevents_headers'')
      else failed ''missing_cloudevents_headers'')"

subsection \<open>Declarative adapters\<close>

definition payload_template :: "declarative_definition \<Rightarrow> string" where
  "payload_template d =
     (let p = trim_space (dv_signed_payload (dd_verification d)) in if p = [] then ''{{raw_body}}'' else p)"

definition validate_declarative :: "declarative_definition \<Rightarrow> unit res" where
  "validate_declarative d =
     (let v = dd_verification d; payload = payload_template d in
      if trim_space (dd_name d) = [] then Inl (ErrOther ''name is required'')
      else if to_lower (trim_space (dv_type v)) \<noteq> ''hmac_sha256''
      then Inl (ErrOther ''only hmac_sha256 declarative verification is supported'')
      else if trim_space (dv_signature_header v) = [] then Inl (ErrOther ''signature_header is required'')
      else if to_lower (trim_space (dv_encoding v)) \<notin> {[], ''hex'', ''base64''}
      then Inl (ErrOther ''unsupported signature encoding'')
      else if payload \<notin> {''{{raw_body}}'', ''{{timestamp}}.{{raw_body}}'', ''{{timestamp}}:{{raw_body}}'',
          ''v0:{{timestamp}}:{{raw_body}}''}
      then Inl (ErrOther ''unsupported signed_payload template'')
      else if contains_str payload ''{{timestamp}}'' \<and> trim_space (dv_timestamp_header v) = []
      then Inl (ErrOther ''timestamp_header is required by signed_payload'')
      else if dv_replay_window_seconds v < 0 \<or> 86400 < dv_replay_window_seconds v
      then Inl (ErrOther ''replay_window_seconds must be between 0 and 86400'')
      else Inr ())"

definition parse_declarative ::
    "(string \<Rightarrow> declarative_definition option) \<Rightarrow> string \<Rightarrow> declarative_definition res" where
  "parse_declarative decode_def raw =
     (if raw = [] then Inl (ErrOther ''definition is required'')
      else case decode_def raw of
        None \<Rightarrow> Inl (ErrOther ''json'')
      | Some d \<Rightarrow> bind_res (validate_declarative d) (\<lambda>_. Inr d))"

text \<open>\<open>parseInt64\<close>: digits only, wrapping around.\<close>

fun wrapping_digits :: "int \<Rightarrow> string \<Rightarrow> int option" where
  "wrapping_digits acc [] = Some acc"
| "wrapping_digits acc (c # cs) =
     (if is_digit c then wrapping_digits (wrap64 (acc * 10 + int (digit_val c))) cs else None)"

definition parse_declarative_timestamp :: "provider_lib \<Rightarrow> string \<Rightarrow> gotime option" where
  "parse_declarative_timestamp lib raw0 =
     (let raw = trim_space raw0 in
      case (if raw = [] then None else wrapping_digits 0 raw) of
        Some unix \<Rightarrow> Some (time_unix unix) | None \<Rightarrow> pl_rfc3339 lib raw)"

definition declarative_name :: "declarative_definition \<Rightarrow> string" where
  "declarative_name d = to_lower (dd_name d)"

text \<open>The signature text without its prefix, None for a missing prefix.\<close>

definition declarative_signature :: "declarative_definition \<Rightarrow> string \<Rightarrow> string option" where
  "declarative_signature d header =
     (let signature = trim_space header; pre = trim_space (dv_signature_prefix (dd_verification d)) in
      if pre \<noteq> [] then (if has_prefix signature pre then Some (trim_prefix signature pre) else None)
      else Some (trim_prefix signature ''sha256=''))"

definition declarative_payload :: "declarative_definition \<Rightarrow> string \<Rightarrow> string \<Rightarrow> string" where
  "declarative_payload d ts_header raw =
     (if contains_str (payload_template d) ''{{timestamp}}''
      then replace_all (replace_all (payload_template d) ''{{timestamp}}'' (trim_space ts_header)) ''{{raw_body}}'' raw
      else raw)"

definition declarative_check :: "provider_lib \<Rightarrow> declarative_definition \<Rightarrow> verify_input \<Rightarrow> gotime \<Rightarrow> string \<Rightarrow> string \<Rightarrow> verify_result" where
  "declarative_check lib d i ts payload signature =
     (let enc = to_lower (trim_space (dv_encoding (dd_verification d)));
          stamped = (\<lambda>ok reason. \<lparr> pv_verified = ok, pv_reason = reason, pv_provider = declarative_name d, pv_timestamp = ts \<rparr>) in
      if enc \<notin> {[], ''hex'', ''base64''} then result (declarative_name d) False ''unsupported_algorithm''
      else if (if enc = ''base64'' then verify_base64 (pl_mac lib) (vi_secret i) payload signature
               else verify_hex (pl_mac lib) (vi_secret i) payload signature)
      then stamped True ''ok'' else stamped False ''invalid_signature'')"

definition declarative_verify :: "provider_lib \<Rightarrow> declarative_definition \<Rightarrow> verify_input \<Rightarrow> verify_result" where
  "declarative_verify lib d i =
     (let v = dd_verification d; header = first_header (vi_headers i) (dv_signature_header v);
          failed = result (declarative_name d) False in
      if header = [] then failed ''missing_signature''
      else case declarative_signature d header of
        None \<Rightarrow> failed ''malformed_header''
      | Some signature \<Rightarrow>
          if contains_str (payload_template d) ''{{timestamp}}''
          then
            let ts_header = first_header (vi_headers i) (dv_timestamp_header v) in
            if ts_header = [] then failed ''missing_signature''
            else case parse_declarative_timestamp lib ts_header of
              None \<Rightarrow> failed ''malformed_header''
            | Some ts \<Rightarrow>
                let now = (if vi_now i = 0 then pl_clock lib else vi_now i);
                    window = wrap64 (dv_replay_window_seconds v * ns_second) in
                if 0 < window \<and> window < abs_duration (time_sub now ts)
                then \<lparr> pv_verified = False, pv_reason = ''expired_timestamp'', pv_provider = declarative_name d,
                       pv_timestamp = ts \<rparr>
                else declarative_check lib d i ts (declarative_payload d ts_header (vi_raw_body i)) signature
          else declarative_check lib d i 0 (vi_raw_body i) signature)"

definition adapter_verify :: "provider_lib \<Rightarrow> provider_adapter \<Rightarrow> verify_input \<Rightarrow> verify_result" where
  "adapter_verify lib a i = (case a of
       StripeAdapter \<Rightarrow> stripe_verify lib i
     | GitHubAdapter \<Rightarrow> github_verify lib i
     | ShopifyAdapter \<Rightarrow> shopify_verify lib i
     | SlackAdapter \<Rightarrow> slack_verify lib i
     | GenericHMACAdapter \<Rightarrow> generic_hmac_verify lib i
     | GenericJWTAdapter \<Rightarrow> jwt_verify lib i
     | CloudEventsAdapter \<Rightarrow> cloudevents_verify lib i
     | InternalTrustedAdapter \<Rightarrow> result ''internal'' True ''ok''
     | UnsafeAdapter \<Rightarrow> result ''generic-unsafe'' False ''unsafe_adapter_disabled''
     | DeclarativeAdapter d \<Rightarrow> declarative_verify lib d i)"

section \<open>What a verified request proves\<close>

text \<open>
  The MAC a request presents, read from its headers alone, and the bytes an adapter computes the
  MAC of.
\<close>

definition declarative_mac :: "declarative_definition \<Rightarrow> headers \<Rightarrow> string option" where
  "declarative_mac d hs = Option.bind (declarative_signature d (first_header hs (dv_signature_header (dd_verification d))))
     (if to_lower (trim_space (dv_encoding (dd_verification d))) = ''base64'' then b64_decode False True else hex_decode)"

definition presented_mac :: "provider_adapter \<Rightarrow> headers \<Rightarrow> string option" where
  "presented_mac a hs = (case a of
       StripeAdapter \<Rightarrow> hex_decode (header_value (parse_kv_header (first_header hs ''stripe-signature'')) ''v1'')
     | GitHubAdapter \<Rightarrow> Option.bind (cut_prefix (first_header hs ''x-hub-signature-256'') ''sha256='') hex_decode
     | ShopifyAdapter \<Rightarrow> b64_decode False True (first_header hs ''x-shopify-hmac-sha256'')
     | SlackAdapter \<Rightarrow> Option.bind (cut_prefix (first_header hs ''x-slack-signature'') ''v0='') hex_decode
     | GenericHMACAdapter \<Rightarrow> hex_decode (trim_prefix (first_header hs ''webhook-signature'') ''sha256='')
     | GenericJWTAdapter \<Rightarrow> (case split_char (CHR ''.'') (jwt_token hs) of [p0, p1, p2] \<Rightarrow> decode_base64_url p2 | _ \<Rightarrow> None)
     | DeclarativeAdapter d \<Rightarrow> declarative_mac d hs
     | _ \<Rightarrow> None)"

definition signed_payload :: "provider_adapter \<Rightarrow> headers \<Rightarrow> string \<Rightarrow> string" where
  "signed_payload a hs raw = (case a of
       StripeAdapter \<Rightarrow> timestamped_payload
         (the (parse_int64 (header_value (parse_kv_header (first_header hs ''stripe-signature'')) ''t''))) raw
     | SlackAdapter \<Rightarrow> slack_payload (the (parse_int64 (first_header hs ''x-slack-request-timestamp''))) raw
     | GenericJWTAdapter \<Rightarrow> (case split_char (CHR ''.'') (jwt_token hs) of [p0, p1, p2] \<Rightarrow> p0 @ ''.'' @ p1 | _ \<Rightarrow> [])
     | DeclarativeAdapter d \<Rightarrow> declarative_payload d (first_header hs (dv_timestamp_header (dd_verification d))) raw
     | _ \<Rightarrow> raw)"

lemma result_verified [simp]: "pv_verified (result p ok r) = ok"
  by (simp add: result_def)

lemma stripe_verified:
  assumes "pv_verified (stripe_verify lib i)"
  shows "presented_mac StripeAdapter (vi_headers i)
    = Some (pl_mac lib (vi_secret i) (signed_payload StripeAdapter (vi_headers i) (vi_raw_body i)))"
  using assms
  by (auto simp: stripe_verify_def presented_mac_def signed_payload_def verify_timestamped_hmac_def Let_def
      verify_hex_iff split: if_splits option.splits)

lemma slack_verified:
  assumes "pv_verified (slack_verify lib i)"
  shows "presented_mac SlackAdapter (vi_headers i)
    = Some (pl_mac lib (vi_secret i) (signed_payload SlackAdapter (vi_headers i) (vi_raw_body i)))"
  using assms
  by (auto simp: slack_verify_def presented_mac_def signed_payload_def Let_def verify_hex_iff
      split: if_splits option.splits)

lemma jwt_verified:
  assumes "pv_verified (jwt_verify lib i)"
  shows "\<exists>p0 p1 p2 claims. split_char (CHR ''.'') (jwt_token (vi_headers i)) = [p0, p1, p2]
    \<and> decode_base64_url p2 = Some (pl_mac lib (vi_secret i) (p0 @ ''.'' @ p1))
    \<and> Option.bind (decode_base64_url p1) (unmarshal_map (pl_decode lib)) = Some claims
    \<and> pv_verified (jwt_claims_verify lib claims i)"
  using assms by (auto simp: jwt_verify_def Let_def split: if_splits option.splits list.splits)

lemma declarative_check_verified:
  "pv_verified (declarative_check lib d i ts payload signature) \<longleftrightarrow>
     to_lower (trim_space (dv_encoding (dd_verification d))) \<in> {[], ''hex'', ''base64''}
     \<and> (if to_lower (trim_space (dv_encoding (dd_verification d))) = ''base64'' then b64_decode False True signature
         else hex_decode signature) = Some (pl_mac lib (vi_secret i) payload)"
  by (auto simp: declarative_check_def Let_def verify_hex_iff verify_base64_iff)

lemma declarative_verified:
  assumes "pv_verified (declarative_verify lib d i)"
  obtains "declarative_mac d (vi_headers i) = Some (pl_mac lib (vi_secret i)
      (signed_payload (DeclarativeAdapter d) (vi_headers i) (vi_raw_body i)))"
    "contains_str (payload_template d) ''{{timestamp}}'' \<Longrightarrow> (\<exists>ts. parse_declarative_timestamp lib
       (first_header (vi_headers i) (dv_timestamp_header (dd_verification d))) = Some ts)"
proof -
  obtain sig where sig: "declarative_signature d (first_header (vi_headers i) (dv_signature_header (dd_verification d))) = Some sig"
    using assms by (auto simp: declarative_verify_def Let_def split: if_splits option.splits)
  show thesis
  proof (cases "contains_str (payload_template d) ''{{timestamp}}''")
    case True
    then obtain ts where "parse_declarative_timestamp lib (first_header (vi_headers i) (dv_timestamp_header (dd_verification d))) = Some ts"
      "pv_verified (declarative_check lib d i ts (declarative_payload d
          (first_header (vi_headers i) (dv_timestamp_header (dd_verification d))) (vi_raw_body i)) sig)"
      using assms sig by (auto simp: declarative_verify_def Let_def split: if_splits option.splits)
    then show thesis using sig
      by (intro that) (auto simp: declarative_check_verified declarative_mac_def signed_payload_def)
  next
    case False
    then have "pv_verified (declarative_check lib d i 0 (vi_raw_body i) sig)"
      using assms sig by (auto simp: declarative_verify_def Let_def split: if_splits option.splits)
    then show thesis using sig False
      by (intro that) (auto simp: declarative_check_verified declarative_mac_def signed_payload_def declarative_payload_def)
  qed
qed

lemma verified_mac:
  assumes "pv_verified (adapter_verify lib a i)" and "a \<noteq> InternalTrustedAdapter"
  shows "a \<noteq> CloudEventsAdapter \<and> a \<noteq> UnsafeAdapter
    \<and> presented_mac a (vi_headers i)
      = Some (pl_mac lib (vi_secret i) (signed_payload a (vi_headers i) (vi_raw_body i)))"
proof (cases a)
  case StripeAdapter
  with assms show ?thesis using stripe_verified by (simp add: adapter_verify_def)
next
  case SlackAdapter
  with assms show ?thesis using slack_verified by (simp add: adapter_verify_def)
next
  case GenericJWTAdapter
  with assms show ?thesis using jwt_verified [of lib i]
    by (auto simp: adapter_verify_def presented_mac_def signed_payload_def)
next
  case (DeclarativeAdapter d)
  with assms show ?thesis using declarative_verified [of lib d i]
    by (auto simp: adapter_verify_def presented_mac_def)
next
  case CloudEventsAdapter
  with assms show ?thesis
    by (auto simp: adapter_verify_def cloudevents_verify_def Let_def split: if_splits option.splits)
qed (use assms in \<open>auto simp: adapter_verify_def github_verify_def shopify_verify_def generic_hmac_verify_def
    presented_mac_def signed_payload_def verify_hex_iff verify_base64_iff Let_def split: if_splits option.splits\<close>)

text \<open>
  C25. A verified request was signed: whichever adapter says that a request is authentic, other
  than the one for internal producers, the MAC the headers present is the MAC, under the source's
  secret, of the bytes that adapter signs. The adapter for unsigned CloudEvents and the disabled
  one never verify anything.
\<close>

theorem verified_request_signed:
  assumes "pv_verified (adapter_verify lib a i)" and "a \<noteq> InternalTrustedAdapter"
  shows "a \<noteq> CloudEventsAdapter \<and> a \<noteq> UnsafeAdapter
    \<and> presented_mac a (vi_headers i)
      = Some (pl_mac lib (vi_secret i) (signed_payload a (vi_headers i) (vi_raw_body i)))"
  using verified_mac [OF assms] .

definition sample_lib :: provider_lib where
  "sample_lib = \<lparr> pl_mac = (\<lambda>k p. k @ p), pl_sha = id, pl_decode = (\<lambda>_. None), pl_rfc3339 = (\<lambda>_. None), pl_clock = 1 \<rparr>"

definition sample_input :: "string \<Rightarrow> string \<Rightarrow> verify_input" where
  "sample_input k body = \<lparr> vi_raw_body = body,
     vi_headers = [(''X-Hub-Signature-256'', [''sha256='' @ hex_encode (k @ body)])], vi_secret = k, vi_now = 7 \<rparr>"

lemma sample_github: "pv_verified (adapter_verify sample_lib GitHubAdapter (sample_input k body))"
proof -
  have "to_lower ''X-Hub-Signature-256'' = to_lower ''x-hub-signature-256''" by code_simp
  then show ?thesis
    by (simp add: adapter_verify_def github_verify_def sample_input_def sample_lib_def verify_hex_iff Let_def cut_prefix_def)
qed

theorem verified_request_signed_witness:
  "presented_mac GitHubAdapter (vi_headers (sample_input ''k'' ''b'')) = Some ''kb''"
  using verified_request_signed [OF sample_github, of "''k''" "''b''"]
  by (simp add: sample_lib_def sample_input_def signed_payload_def)

section \<open>Binding to the body\<close>

lemma to_lower_hex: "to_lower (hex_encode s) = hex_encode s"
proof -
  have "lower_char (hex_digit d) = hex_digit d" if "d < 16" for d
    using that by (auto simp: hex_digit_def lower_char_def)
  moreover have "byte_of c div 16 < 16" for c by (rule less_mult_imp_div_less) simp
  ultimately show ?thesis by (induction s rule: hex_encode.induct) (simp_all add: to_lower_def)
qed

text \<open>What is used of the RFC 3339 parser: a text it accepts has no brace.\<close>

definition rfc3339_plain :: "(string \<Rightarrow> gotime option) \<Rightarrow> bool" where
  "rfc3339_plain parse \<longleftrightarrow> (\<forall>s t. parse s = Some t \<longrightarrow> CHR ''{'' \<notin> set s)"

lemma wrapping_digits_plain: "wrapping_digits acc s = Some n \<Longrightarrow> CHR ''{'' \<notin> set s"
  by (induction acc s rule: wrapping_digits.induct) (auto simp: is_digit_def split: if_splits)

lemma declarative_timestamp_plain:
  assumes "rfc3339_plain (pl_rfc3339 lib)" "parse_declarative_timestamp lib h = Some t"
  shows "CHR ''{'' \<notin> set (trim_space h)"
  using assms
  by (auto simp: parse_declarative_timestamp_def rfc3339_plain_def Let_def
      dest!: wrapping_digits_plain split: option.splits if_splits)

lemma replace_all_suffix:
  assumes "c \<notin> set a"
  shows "replace_all (a @ c # p) (c # p) new = a @ new"
  using assms by (induction a) (auto simp: prefix_def)

lemma replace_all_id: "c \<notin> set s \<Longrightarrow> replace_all s (c # p) new = s"
  by (induction s) (auto simp: prefix_def)

lemma replace_all_prefix:
  assumes "c \<notin> set a"
  shows "replace_all (a @ (c # p) @ r) (c # p) new = a @ new @ replace_all r (c # p) new"
  using assms by (induction a) (auto simp: prefix_def)

abbreviation timestamp_mark :: string where "timestamp_mark \<equiv> ''{{timestamp}}''"
abbreviation body_mark :: string where "body_mark \<equiv> ''{{raw_body}}''"

lemma declarative_payload_shape:
  assumes "validate_declarative d = Inr ()" "CHR ''{'' \<notin> set (trim_space ts)"
  shows "\<exists>pre. \<forall>raw. declarative_payload d ts raw = pre @ raw"
proof -
  let ?ts = "trim_space ts"
  have "payload_template d \<in> {body_mark, timestamp_mark @ ''.'' @ body_mark, timestamp_mark @ '':'' @ body_mark,
      ''v0:'' @ timestamp_mark @ '':'' @ body_mark}"
    using assms(1) by (auto simp: validate_declarative_def Let_def split: if_splits)
  then consider "payload_template d = body_mark" | a x where "payload_template d = a @ timestamp_mark @ x # body_mark"
    "CHR ''{'' \<notin> set a" "x \<noteq> CHR ''{''"
    by fastforce
  then show ?thesis
  proof cases
    case 1
    then show ?thesis by (auto simp: declarative_payload_def)
  next
    case 2
    have keep: "replace_all (x # body_mark) timestamp_mark ?ts = x # body_mark" using 2(3) by (simp add: prefix_def)
    have "replace_all (payload_template d) timestamp_mark ?ts = a @ ?ts @ x # body_mark"
      using replace_all_prefix [OF 2(2), of "''{timestamp}}''" "x # body_mark" ?ts] keep unfolding 2(1) by simp
    moreover have "replace_all ((a @ ?ts @ [x]) @ body_mark) body_mark raw = (a @ ?ts @ [x]) @ raw" for raw
      by (rule replace_all_suffix) (use 2(2,3) assms(2) in auto)
    ultimately have "declarative_payload d ts raw = (if contains_str (payload_template d) timestamp_mark
        then (a @ ?ts @ [x]) @ raw else raw)" for raw by (simp add: declarative_payload_def)
    then show ?thesis by (cases "contains_str (payload_template d) timestamp_mark") auto
  qed
qed

lemma signed_payload_binds:
  assumes "signed_payload a hs raw = signed_payload a hs raw'" "a \<noteq> GenericJWTAdapter"
    and "\<And>d. a = DeclarativeAdapter d \<Longrightarrow> \<exists>pre. \<forall>raw. declarative_payload d (first_header hs
        (dv_timestamp_header (dd_verification d))) raw = pre @ raw"
  shows "raw = raw'"
proof (cases a)
  case (DeclarativeAdapter d)
  from assms(3) [OF this] assms(1) DeclarativeAdapter show ?thesis by (auto simp: signed_payload_def)
qed (use assms(1,2) in \<open>auto simp: signed_payload_def timestamped_payload_def slack_payload_def\<close>)

text \<open>
  C26. The signature covers the body: two requests with the same headers that the same adapter
  verifies under the same secret have the same body, unless the MAC collides on the two signed
  texts or, for tokens that carry a hash of the body, SHA-256 collides on the two bodies. The
  definitions of declarative adapters are those the gateway accepts.
\<close>

theorem verified_body_bound:
  assumes "pv_verified (adapter_verify lib a i)" and "pv_verified (adapter_verify lib a i')"
    and "vi_headers i' = vi_headers i" and "vi_secret i' = vi_secret i" and "a \<noteq> InternalTrustedAdapter"
    and "\<forall>d. a = DeclarativeAdapter d \<longrightarrow> validate_declarative d = Inr ()" and "rfc3339_plain (pl_rfc3339 lib)"
    and "inj_on (pl_mac lib (vi_secret i)) {signed_payload a (vi_headers i) (vi_raw_body i),
           signed_payload a (vi_headers i) (vi_raw_body i')}"
    and "inj_on (pl_sha lib) {vi_raw_body i, vi_raw_body i'}"
  shows "vi_raw_body i = vi_raw_body i'"
proof (cases "a = GenericJWTAdapter")
  case True
  have jwt_verified_body: "\<exists>claims. Option.bind (decode_base64_url p1) (unmarshal_map (pl_decode lib)) = Some claims
      \<and> equal_fold (trim_space (obj_string claims ''body_sha256'')) (sha256_hex lib (vi_raw_body j))"
    if "pv_verified (jwt_verify lib j)" "split_char (CHR ''.'') (jwt_token (vi_headers j)) = [p0, p1, p2]" for j p0 p1 p2
    using jwt_verified [OF that(1)] that(2)
    by (auto simp: jwt_claims_verify_def Let_def split: if_splits)
  have v: "pv_verified (jwt_verify lib i)" "pv_verified (jwt_verify lib i')"
    using assms(1,2) True by (simp_all add: adapter_verify_def)
  obtain p0 p1 p2 where p: "split_char (CHR ''.'') (jwt_token (vi_headers i)) = [p0, p1, p2]"
    using jwt_verified [OF v(1)] by blast
  from jwt_verified_body [OF v(1) p] jwt_verified_body [OF v(2), of p0 p1 p2] p assms(3)
  have "to_lower (sha256_hex lib (vi_raw_body i)) = to_lower (sha256_hex lib (vi_raw_body i'))"
    by (auto simp: equal_fold_def)
  then have "pl_sha lib (vi_raw_body i) = pl_sha lib (vi_raw_body i')"
    by (simp add: sha256_hex_def to_lower_hex hex_encode_inj)
  then show ?thesis by (rule inj_onD [OF assms(9)]) simp_all
next
  case False
  have "pl_mac lib (vi_secret i) (signed_payload a (vi_headers i) (vi_raw_body i))
      = pl_mac lib (vi_secret i) (signed_payload a (vi_headers i) (vi_raw_body i'))"
    using verified_mac [OF assms(1,5)] verified_mac [OF assms(2,5)] assms(3,4) by simp
  then have same: "signed_payload a (vi_headers i) (vi_raw_body i) = signed_payload a (vi_headers i) (vi_raw_body i')"
    by (rule inj_onD [OF assms(8)]) simp_all
  have shape: "\<exists>pre. \<forall>raw. declarative_payload d (first_header (vi_headers i) (dv_timestamp_header (dd_verification d))) raw = pre @ raw"
    if d: "a = DeclarativeAdapter d" for d
  proof (cases "contains_str (payload_template d) timestamp_mark")
    case True
    then obtain ts where "parse_declarative_timestamp lib
        (first_header (vi_headers i) (dv_timestamp_header (dd_verification d))) = Some ts"
      using declarative_verified [of lib d i] assms(1) d by (auto simp: adapter_verify_def)
    from declarative_payload_shape [OF _ declarative_timestamp_plain [OF assms(7) this]] assms(6) d show ?thesis by blast
  next
    case False
    then show ?thesis by (auto simp: declarative_payload_def)
  qed
  show ?thesis by (rule signed_payload_binds [OF same False shape])
qed

theorem verified_body_bound_witness:
  "vi_raw_body (sample_input ''k'' ''b'') = ''b'' \<and> rfc3339_plain (pl_rfc3339 sample_lib)"
proof -
  have r: "rfc3339_plain (pl_rfc3339 sample_lib)" by (simp add: rfc3339_plain_def sample_lib_def)
  have "inj_on (pl_mac sample_lib s) A" "inj_on (pl_sha sample_lib) B" for s A B
    by (auto simp: sample_lib_def inj_on_def)
  from verified_body_bound [OF sample_github sample_github _ _ _ _ r this, of "''k''" "''b''" "''k''" "''b''"] r
  show ?thesis by (simp add: sample_input_def)
qed

end
