(* ===== verification/Json_Transform.thy ===== *)
theory Json_Transform
  imports Go_Json
begin

text \<open>
  Payload transformations (internal/transform/transform.go): parsing and validation of the
  operations set, copy, drop and redact, the fields no operation may address, JSON pointers, and
  the application of a list of operations to a document. The text parser of encoding/json
  (\<open>decode\<close>), the decoding of the operation list (\<open>decode_ops\<close>) and the text of a number
  (\<open>num\<close>) are arguments. Documents are values, so that the updates in place of the source
  become functions; a copied value is cloned by the source and never shared.
\<close>

section \<open>Model\<close>

record operation =
  op_op :: string
  op_path :: string
  op_from :: string
  op_value :: string

definition invalid_operation :: "string \<Rightarrow> go_error" where
  "invalid_operation s = ErrOther (''invalid transformation operation: '' @ s)"

definition protected_path :: "string \<Rightarrow> go_error" where
  "protected_path p = ErrOther (''protected transformation path: '' @ p)"

definition pointer_tokens :: "string \<Rightarrow> string list" where
  "pointer_tokens path =
     (if path = [] \<or> path = ''/'' then []
      else map (\<lambda>part. replace_all (replace_all part ''~1'' ''/'') ''~0'' ''~'')
             (split_char (CHR ''/'') (trim_prefix path ''/'')))"

definition protected_token :: "nat \<Rightarrow> string \<Rightarrow> bool" where
  "protected_token index token \<longleftrightarrow>
     token \<in> set [''raw_payload_id'', ''raw_payload_hash'', ''signature_verified'', ''verification'',
       ''verification_reason'', ''deduplication_key'', ''dedupe_status'', ''adapter_version_id'',
       ''normalized_envelope_id'', ''normalized_payload_hash'', ''envelope_hash'', ''data_hash'',
       ''metadata_hash'', ''audit'']
     \<or> (token \<in> set [''id'', ''tenant_id'', ''source_id'', ''provider'', ''provider_event_id''] \<and> index = 0)
     \<or> has_suffix token ''_hash'' \<or> has_suffix token ''_sha256''"

definition is_protected_path :: "string \<Rightarrow> bool" where
  "is_protected_path path = list_ex (\<lambda>(i, t). protected_token i t) (enumerate 0 (pointer_tokens path))"

definition validate_pointer :: "string \<Rightarrow> unit res" where
  "validate_pointer path = guard_res (path \<noteq> [] \<and> has_prefix path ''/'')
     (invalid_operation ''path must be a JSON Pointer'')"

definition unsupported_op :: "string \<Rightarrow> go_error" where
  "unsupported_op s = invalid_operation (''unsupported op '' @ json_quote s)"

definition validate_operation :: "operation \<Rightarrow> unit res" where
  "validate_operation op =
     bind_res (guard_res (op_op op \<in> set [''set'', ''copy'', ''drop'', ''redact'']) (unsupported_op (op_op op))) (\<lambda>_.
     bind_res (validate_pointer (op_path op)) (\<lambda>_.
     bind_res (guard_res (\<not> is_protected_path (op_path op)) (protected_path (op_path op))) (\<lambda>_.
     if op_op op = ''copy''
     then bind_res (validate_pointer (op_from op)) (\<lambda>_.
          guard_res (\<not> is_protected_path (op_from op)) (protected_path (op_from op)))
     else Inr ())))"

definition trim_operation :: "operation \<Rightarrow> operation" where
  "trim_operation op = op\<lparr>op_op := trim_space (to_lower (op_op op)), op_path := trim_space (op_path op),
     op_from := trim_space (op_from op)\<rparr>"

fun validate_operations :: "operation list \<Rightarrow> operation list res" where
  "validate_operations [] = Inr []"
| "validate_operations (op # ops) =
     bind_res (validate_operation (trim_operation op)) (\<lambda>_.
     bind_res (validate_operations ops) (\<lambda>rest. Inr (trim_operation op # rest)))"

definition parse_operations :: "(string \<Rightarrow> operation list option) \<Rightarrow> string \<Rightarrow> operation list res" where
  "parse_operations decode_ops raw =
     (case decode_ops raw of
        None \<Rightarrow> Inl (invalid_operation ''operations must be JSON array'')
      | Some ops \<Rightarrow>
          if ops = [] then Inl (invalid_operation ''at least one operation is required'')
          else if 100 < length ops then Inl (invalid_operation ''at most 100 operations are supported'')
          else validate_operations ops)"

text \<open>An array index: \<open>strconv.Atoi\<close> and the range check.\<close>

definition array_index :: "string \<Rightarrow> 'x list \<Rightarrow> nat option" where
  "array_index token xs = (case parse_int64 token of
     Some i \<Rightarrow> if 0 \<le> i \<and> i < int (length xs) then Some (nat i) else None | None \<Rightarrow> None)"

fun get_at :: "string list \<Rightarrow> json \<Rightarrow> json res" where
  "get_at [] v = Inr v"
| "get_at (t # ts) (JObj ps) = (case map_of ps t of
     Some v \<Rightarrow> get_at ts v | None \<Rightarrow> Inl (invalid_operation ''source path not found''))"
| "get_at (t # ts) (JArr xs) = (case array_index t xs of
     Some i \<Rightarrow> get_at ts (xs ! i) | None \<Rightarrow> Inl (invalid_operation ''array source path not found''))"
| "get_at (t # ts) _ = Inl (invalid_operation ''source parent is not addressable'')"

definition get_value :: "json \<Rightarrow> string \<Rightarrow> json res" where
  "get_value doc path = get_at (pointer_tokens path) doc"

text \<open>
  \<open>parentForSet\<close> followed by the assignment: missing members on the way become objects, and the
  last token must address a member or an existing element.
\<close>

fun set_at :: "string list \<Rightarrow> json \<Rightarrow> json \<Rightarrow> json res" where
  "set_at [] v doc = Inr v"
| "set_at (t # ts) v (JObj ps) =
     (if ts = [] then Inr (JObj (obj_put t v ps))
      else bind_res (set_at ts v (case map_of ps t of Some w \<Rightarrow> w | None \<Rightarrow> JObj []))
             (\<lambda>w. Inr (JObj (obj_put t w ps))))"
| "set_at (t # ts) v (JArr xs) =
     (case array_index t xs of
        None \<Rightarrow> Inl (invalid_operation ''array path not found'')
      | Some i \<Rightarrow> if ts = [] then Inr (JArr (xs[i := v]))
                  else bind_res (set_at ts v (xs ! i)) (\<lambda>w. Inr (JArr (xs[i := w]))))"
| "set_at (t # ts) v _ = Inl (invalid_operation ''parent is not addressable'')"

definition set_value :: "json \<Rightarrow> string \<Rightarrow> json \<Rightarrow> json res" where
  "set_value doc path v =
     (if pointer_tokens path = [] then Inr v
      else set_at (pointer_tokens path) v (if doc = JNull then JObj [] else doc))"

fun drop_at :: "string list \<Rightarrow> json \<Rightarrow> json res" where
  "drop_at [] doc = Inl (invalid_operation ''cannot drop document root'')"
| "drop_at (t # ts) (JObj ps) =
     (if ts = [] then Inr (JObj (obj_del t ps))
      else case map_of ps t of
        None \<Rightarrow> Inl (invalid_operation ''path not found'')
      | Some w \<Rightarrow> bind_res (drop_at ts w) (\<lambda>w'. Inr (JObj (obj_put t w' ps))))"
| "drop_at (t # ts) (JArr xs) =
     (case array_index t xs of
        None \<Rightarrow> Inl (invalid_operation ''array path not found'')
      | Some i \<Rightarrow> if ts = [] then Inr (JArr (take i xs @ drop (i + 1) xs))
                  else bind_res (drop_at ts (xs ! i)) (\<lambda>w'. Inr (JArr (xs[i := w']))))"
| "drop_at (t # ts) _ = Inl (invalid_operation ''parent is not addressable'')"

definition drop_value :: "json \<Rightarrow> string \<Rightarrow> json res" where
  "drop_value doc path = drop_at (pointer_tokens path) doc"

definition clone_json :: "(string \<Rightarrow> json option) \<Rightarrow> (rat \<Rightarrow> string) \<Rightarrow> json \<Rightarrow> json res" where
  "clone_json decode num v = (case unmarshal_any decode (json_text num v) of
     Some w \<Rightarrow> Inr w | None \<Rightarrow> Inl (ErrOther ''json''))"

definition apply_op :: "(string \<Rightarrow> json option) \<Rightarrow> (rat \<Rightarrow> string) \<Rightarrow> operation \<Rightarrow> json \<Rightarrow> json res" where
  "apply_op decode num op doc =
     bind_res (validate_operation op) (\<lambda>_.
     if op_op op = ''set'' then
       (if op_value op = [] then Inl (invalid_operation ''set value is required'')
        else case unmarshal_any decode (op_value op) of
          None \<Rightarrow> Inl (invalid_operation ''set value must be JSON'')
        | Some v \<Rightarrow> set_value doc (op_path op) v)
     else if op_op op = ''copy'' then
       bind_res (get_value doc (op_from op)) (\<lambda>v.
       bind_res (clone_json decode num v) (\<lambda>c. set_value doc (op_path op) c))
     else if op_op op = ''drop'' then drop_value doc (op_path op)
     else if op_op op = ''redact'' then set_value doc (op_path op) (JStr ''[REDACTED]'')
     else Inl (unsupported_op (op_op op)))"

fun apply_ops :: "(string \<Rightarrow> json option) \<Rightarrow> (rat \<Rightarrow> string) \<Rightarrow> operation list \<Rightarrow> json \<Rightarrow> json res" where
  "apply_ops decode num [] doc = Inr doc"
| "apply_ops decode num (op # ops) doc =
     bind_res (apply_op decode num op doc) (apply_ops decode num ops)"

definition apply_transform ::
    "(string \<Rightarrow> json option) \<Rightarrow> (rat \<Rightarrow> string) \<Rightarrow> string \<Rightarrow> operation list \<Rightarrow> string res" where
  "apply_transform decode num input ops =
     (case unmarshal_any decode input of
        None \<Rightarrow> Inl (invalid_operation ''input must be JSON'')
      | Some doc \<Rightarrow> bind_res (apply_ops decode num ops doc) (\<lambda>d. Inr (json_text num d)))"

section \<open>Pointers\<close>

lemma array_index_Some: "array_index t xs = Some i \<Longrightarrow> i < length xs"
  by (auto simp: array_index_def split: option.splits if_splits)

lemma array_index_update [simp]: "array_index t (xs[i := w]) = array_index t xs"
  by (simp add: array_index_def split: option.splits)

lemma set_at_obj:
  "set_at (t # ts) v (JObj ps) = Inr doc' \<longleftrightarrow>
     (\<exists>w. doc' = JObj (obj_put t w ps) \<and> (if ts = [] then w = v
        else set_at ts v (case map_of ps t of Some w \<Rightarrow> w | None \<Rightarrow> JObj []) = Inr w))"
  by auto

lemma set_at_arr:
  "set_at (t # ts) v (JArr xs) = Inr doc' \<longleftrightarrow>
     (\<exists>i w. array_index t xs = Some i \<and> i < length xs \<and> doc' = JArr (xs[i := w]) \<and> set_at ts v (xs ! i) = Inr w)"
  by (cases ts) (auto dest: array_index_Some split: option.splits)

lemma set_at_scalar:
  "(\<And>ps. doc \<noteq> JObj ps) \<Longrightarrow> (\<And>xs. doc \<noteq> JArr xs) \<Longrightarrow> set_at (t # ts) v doc \<noteq> Inr doc'"
  by (cases doc) auto

lemma get_set_at: "set_at ts v doc = Inr doc' \<Longrightarrow> get_at ts doc' = Inr v"
proof (induction ts arbitrary: doc doc')
  case (Cons t ts)
  then consider (obj) ps where "doc = JObj ps" | (arr) xs where "doc = JArr xs"
    by (metis set_at_scalar)
  then show ?case
  proof cases
    case obj
    with Cons.prems obtain w where w: "doc' = JObj (obj_put t w ps)" "if ts = [] then w = v
        else set_at ts v (case map_of ps t of Some w \<Rightarrow> w | None \<Rightarrow> JObj []) = Inr w"
      by (auto simp only: set_at_obj)
    then have "get_at ts w = Inr v" using Cons.IH by (auto split: if_splits)
    then show ?thesis using w(1) by simp
  next
    case arr
    with Cons.prems obtain i w where "array_index t xs = Some i" "i < length xs" "doc' = JArr (xs[i := w])"
      "set_at ts v (xs ! i) = Inr w"
      by (auto simp only: set_at_arr)
    then show ?thesis using Cons.IH by simp
  qed
qed simp

text \<open>
  Two pointers are independent when neither is a prefix of the other, and they part at tokens
  that address different places of every array (a token such as \<open>01\<close> also addresses element 1).
\<close>

fun independent :: "string list \<Rightarrow> string list \<Rightarrow> bool" where
  "independent (s # ss) (t # ts) =
     (if s = t then independent ss ts
      else parse_int64 s = None \<or> parse_int64 t = None \<or> parse_int64 s \<noteq> parse_int64 t)"
| "independent _ _ = False"

lemma array_index_differ:
  assumes "array_index s xs = Some i" "array_index t xs = Some j" "parse_int64 s \<noteq> parse_int64 t"
  shows "i \<noteq> j"
  using assms by (auto simp: array_index_def nat_eq_iff split: option.splits if_splits)

lemma set_at_frame:
  assumes "set_at ts v doc = Inr doc'" and "independent ss ts" and "get_at ss doc = Inr w"
  shows "get_at ss doc' = Inr w"
  using assms
proof (induction ss ts arbitrary: doc doc' rule: independent.induct)
  case (1 s ss t ts)
  show ?case
  proof (cases doc)
    case (JObj ps)
    then obtain u where u: "map_of ps s = Some u" "get_at ss u = Inr w"
      using "1.prems"(3) by (auto split: option.splits)
    obtain y where y: "doc' = JObj (obj_put t y ps)"
      "if ts = [] then y = v else set_at ts v (case map_of ps t of Some w \<Rightarrow> w | None \<Rightarrow> JObj []) = Inr y"
      using "1.prems"(1) JObj by (auto simp only: set_at_obj)
    show ?thesis
    proof (cases "s = t")
      case True
      then have ind: "independent ss ts" using "1.prems"(2) by simp
      then have "ts \<noteq> []" by (cases ss) auto
      then have "set_at ts v u = Inr y" using y(2) u(1) True by simp
      then have "get_at ss y = Inr w" using "1.IH" [OF True _ ind u(2)] by blast
      then show ?thesis using y(1) True by simp
    next
      case False
      then show ?thesis using u y(1) by simp
    qed
  next
    case (JArr xs)
    then obtain j where j: "array_index s xs = Some j" "j < length xs" "get_at ss (xs ! j) = Inr w"
      using "1.prems"(3) by (auto dest: array_index_Some split: option.splits)
    obtain i y where i: "array_index t xs = Some i" "i < length xs"
      and y: "doc' = JArr (xs[i := y])" "set_at ts v (xs ! i) = Inr y"
      using "1.prems"(1) JArr by (auto simp only: set_at_arr)
    show ?thesis
    proof (cases "s = t")
      case True
      then have ind: "independent ss ts" and "j = i" using "1.prems"(2) i j by simp_all
      then have "get_at ss y = Inr w" using "1.IH" [OF True y(2) ind] j(3) by blast
      then show ?thesis using y(1) True i by simp
    next
      case False
      then have "parse_int64 s \<noteq> parse_int64 t"
        using "1.prems"(2) i j by (auto simp: array_index_def split: if_splits option.splits)
      then have "i \<noteq> j" using array_index_differ [of t xs i s j] i j by auto
      then show ?thesis using y j by simp
    qed
  qed (use "1.prems" in auto)
qed auto


lemma get_at_wf: "get_at ts doc = Inr v \<Longrightarrow> wf_json doc \<Longrightarrow> wf_json v"
proof (induction ts doc rule: get_at.induct)
  case (2 t ts ps)
  then show ?case by (fastforce split: option.splits dest: map_of_SomeD)
next
  case (3 t ts xs)
  then show ?case by (auto split: option.splits dest: array_index_Some)
qed auto

section \<open>Members of the root\<close>

definition root_field :: "string \<Rightarrow> json \<Rightarrow> json option" where
  "root_field k doc = (case doc of JObj ps \<Rightarrow> map_of ps k | _ \<Rightarrow> None)"

lemma set_at_root: "set_at (t # ts) v doc = Inr doc' \<Longrightarrow> k \<noteq> t \<Longrightarrow> root_field k doc' = root_field k doc"
  by (cases doc) (auto simp: root_field_def set_at_obj set_at_arr simp del: set_at.simps(2,3))

lemma drop_at_root: "drop_at (t # ts) doc = Inr doc' \<Longrightarrow> k \<noteq> t \<Longrightarrow> root_field k doc' = root_field k doc"
  by (cases doc) (auto simp: root_field_def split: if_splits option.splits)

lemma set_value_root:
  assumes "set_value doc path v = Inr doc'" "pointer_tokens path = t # ts" "k \<noteq> t"
  shows "root_field k doc' = root_field k doc"
proof (cases "doc = JNull")
  case True
  with assms have "set_at (t # ts) v (JObj []) = Inr doc'" by (simp add: set_value_def)
  from set_at_root [OF this assms(3)] True show ?thesis by (simp add: root_field_def)
next
  case False
  with assms have "set_at (t # ts) v doc = Inr doc'" by (simp add: set_value_def)
  from set_at_root [OF this assms(3)] show ?thesis .
qed

lemma protected_first:
  assumes "\<not> is_protected_path path" "pointer_tokens path = t # ts"
  shows "\<not> protected_token 0 t"
  using assms by (simp add: is_protected_path_def)

lemma apply_op_root:
  assumes run: "apply_op decode num op doc = Inr doc'" and "pointer_tokens (op_path op) \<noteq> []"
    and k: "protected_token 0 k"
  shows "root_field k doc' = root_field k doc"
proof -
  obtain t ts where ts: "pointer_tokens (op_path op) = t # ts" using assms(2) by (cases "pointer_tokens (op_path op)") auto
  have valid: "validate_operation op = Inr ()" using run by (cases "validate_operation op") (auto simp: apply_op_def)
  then have "\<not> is_protected_path (op_path op)" by (auto simp: validate_operation_def)
  then have neq: "k \<noteq> t" using protected_first [OF _ ts] k by auto
  have drop: "root_field k doc' = root_field k doc" if "drop_value doc (op_path op) = Inr doc'"
    using that drop_at_root [OF _ neq] ts by (simp add: drop_value_def)
  have set: "root_field k doc' = root_field k doc" if "set_value doc (op_path op) v = Inr doc'" for v
    using set_value_root [OF that ts neq] .
  show ?thesis using run valid drop set
    by (auto simp: apply_op_def split: if_splits option.splits)
qed

section \<open>Properties\<close>

text \<open>
  C28. Transformations cannot touch the evidence fields of the envelope: when a list of operations
  is applied without an error and none of them addresses the whole document, every protected
  member of the root (identity, tenant, source, provider, verification result, hashes, audit)
  has the value it had before, present or absent.
\<close>

theorem transform_keeps_protected:
  assumes "apply_ops decode num ops doc = Inr doc'"
    and "\<forall>op \<in> set ops. pointer_tokens (op_path op) \<noteq> []"
    and "protected_token 0 k"
  shows "root_field k doc' = root_field k doc"
  using assms(1,2)
proof (induction ops arbitrary: doc)
  case (Cons op ops)
  from Cons.prems(1) obtain d where d: "apply_op decode num op doc = Inr d" "apply_ops decode num ops d = Inr doc'"
    by auto
  have "root_field k d = root_field k doc" using apply_op_root [OF d(1) _ assms(3)] Cons.prems(2) by simp
  then show ?case using Cons.IH [OF d(2)] Cons.prems(2) by simp
qed simp

definition sample_decode :: "string \<Rightarrow> json option" where
  "sample_decode s = (if s = json_quote ''a'' then Some (JStr ''a'')
     else if s = json_quote ''b'' then Some (JStr ''b'') else None)"

definition sample_op :: "string \<Rightarrow> string \<Rightarrow> string \<Rightarrow> string \<Rightarrow> operation" where
  "sample_op op path from val = \<lparr> op_op = op, op_path = path, op_from = from, op_value = val \<rparr>"

lemma sample_tokens: "pointer_tokens ''/x'' = [''x'']" "pointer_tokens ''/y'' = [''y'']"
  "\<not> is_protected_path ''/x''" "\<not> is_protected_path ''/y''" "pointer_tokens ''/id'' = [''id'']"
  by code_simp+

lemma sample_ops_apply:
  "apply_ops sample_decode (\<lambda>_. []) [sample_op ''copy'' ''/y'' ''/x'' [], sample_op ''drop'' ''/x'' [] []]
     (JObj [(''id'', JStr ''e''), (''x'', JStr ''a'')]) = Inr (JObj [(''id'', JStr ''e''), (''y'', JStr ''a'')])"
  by (simp add: apply_op_def sample_op_def validate_operation_def validate_pointer_def sample_tokens
      get_value_def clone_json_def unmarshal_any_def sample_decode_def set_value_def drop_value_def obj_del_def)

theorem transform_keeps_protected_witness:
  "root_field ''id'' (JObj [(''id'', JStr ''e''), (''y'', JStr ''a'')]) = Some (JStr ''e'')"
proof -
  have "protected_token 0 ''id''" by code_simp
  with transform_keeps_protected [OF sample_ops_apply _ this] show ?thesis
    by (simp add: sample_op_def sample_tokens root_field_def)
qed

text \<open>
  C29. What one operation does. After a set, and after a redaction, the path holds the new value;
  after a copy it holds the value of the source path, when the encoder's text of that value
  decodes to it; and set, copy and redact leave every value at an independent path alone.
\<close>

theorem transform_operation_effect:
  assumes "apply_op decode num op doc = Inr doc'"
  shows "(op_op op = ''set'' \<longrightarrow> (\<exists>v. unmarshal_any decode (op_value op) = Some v \<and> get_value doc' (op_path op) = Inr v))
    \<and> (op_op op = ''redact'' \<longrightarrow> get_value doc' (op_path op) = Inr (JStr ''[REDACTED]''))
    \<and> (op_op op = ''copy'' \<longrightarrow> (\<exists>v. get_value doc (op_from op) = Inr v
         \<and> (wf_json doc \<and> decode (json_text num v) = Some v \<longrightarrow> get_value doc' (op_path op) = Inr v)))
    \<and> (op_op op \<noteq> ''drop'' \<longrightarrow> (\<forall>q w. independent (pointer_tokens q) (pointer_tokens (op_path op))
         \<and> get_value doc q = Inr w \<longrightarrow> get_value doc' q = Inr w))"
proof -
  have valid: "validate_operation op = Inr ()" using assms by (cases "validate_operation op") (auto simp: apply_op_def)
  have got: "get_value doc' (op_path op) = Inr v" if "set_value doc (op_path op) v = Inr doc'" for v
    using that by (auto simp: set_value_def get_value_def get_set_at split: if_splits)
  have frame: "get_value doc' q = Inr w" if "set_value doc (op_path op) v = Inr doc'"
    "independent (pointer_tokens q) (pointer_tokens (op_path op))" "get_value doc q = Inr w" for q w v
  proof -
    have ne: "pointer_tokens (op_path op) \<noteq> []" "doc \<noteq> JNull" using that(2,3)
      by (auto simp: get_value_def elim: independent.elims)
    then have "set_at (pointer_tokens (op_path op)) v doc = Inr doc'" using that(1) by (simp add: set_value_def)
    from set_at_frame [OF this that(2)] that(3) show ?thesis by (simp add: get_value_def)
  qed
  show ?thesis
  proof (intro conjI impI)
    assume "op_op op = ''set''"
    then show "\<exists>v. unmarshal_any decode (op_value op) = Some v \<and> get_value doc' (op_path op) = Inr v"
      using assms valid got by (auto simp: apply_op_def split: if_splits option.splits)
  next
    assume "op_op op = ''redact''"
    then show "get_value doc' (op_path op) = Inr (JStr ''[REDACTED]'')"
      using assms valid got by (auto simp: apply_op_def)
  next
    assume c: "op_op op = ''copy''"
    then obtain v u where v: "get_value doc (op_from op) = Inr v" "clone_json decode num v = Inr u"
      "set_value doc (op_path op) u = Inr doc'"
      using assms valid by (auto simp: apply_op_def)
    have "u = v" if "wf_json doc" "decode (json_text num v) = Some v"
      using v(1,2) that get_at_wf [of "pointer_tokens (op_from op)" doc v]
      by (simp add: clone_json_def unmarshal_any_def get_value_def to_any_wf)
    then show "\<exists>v. get_value doc (op_from op) = Inr v
         \<and> (wf_json doc \<and> decode (json_text num v) = Some v \<longrightarrow> get_value doc' (op_path op) = Inr v)"
      using v got by auto
  next
    assume "op_op op \<noteq> ''drop''"
    then obtain v where "set_value doc (op_path op) v = Inr doc'"
      using assms valid by (auto simp: apply_op_def split: if_splits option.splits)
    then show "\<forall>q w. independent (pointer_tokens q) (pointer_tokens (op_path op))
         \<and> get_value doc q = Inr w \<longrightarrow> get_value doc' q = Inr w" using frame by blast
  qed
qed

theorem transform_operation_effect_witness:
  "\<exists>doc'. apply_op sample_decode (\<lambda>_. []) (sample_op ''redact'' ''/x'' [] []) (JObj [(''x'', JStr ''a'')]) = Inr doc'
     \<and> get_value doc' ''/x'' = Inr (JStr ''[REDACTED]'')"
proof -
  have a: "apply_op sample_decode (\<lambda>_. []) (sample_op ''redact'' ''/x'' [] []) (JObj [(''x'', JStr ''a'')])
      = Inr (JObj [(''x'', JStr ''[REDACTED]'')])"
    by (simp add: apply_op_def sample_op_def validate_operation_def validate_pointer_def sample_tokens set_value_def)
  from transform_operation_effect [OF a] a show ?thesis by (simp add: sample_op_def)
qed

text \<open>
  C32. The whole document can be replaced: the pointer \<open>/\<close> passes the validation of operations,
  and setting it discards the document, protected members included.
\<close>

theorem transform_root_replaced:
  assumes "decode_ops raw = Some [\<lparr> op_op = ''set'', op_path = ''/'', op_from = [], op_value = val \<rparr>]"
    and "val \<noteq> []" and "unmarshal_any decode val = Some new"
  shows "\<exists>ops. parse_operations decode_ops raw = Inr ops \<and> apply_ops decode num ops doc = Inr new"
proof -
  let ?op = "\<lparr> op_op = ''set'', op_path = ''/'', op_from = [], op_value = val \<rparr>"
  have trim: "trim_operation ?op = ?op"
    by (simp add: trim_operation_def trim_space_def trim_left_def trim_right_def is_space_def to_lower_def lower_char_def)
  have valid: "validate_operation ?op = Inr ()"
    by (simp add: validate_operation_def validate_pointer_def is_protected_path_def pointer_tokens_def)
  have "parse_operations decode_ops raw = Inr [?op]"
    using assms(1) trim valid by (simp add: parse_operations_def)
  moreover have "apply_ops decode num [?op] doc = Inr new"
    using valid assms(2,3) by (simp add: apply_op_def set_value_def pointer_tokens_def)
  ultimately show ?thesis by blast
qed

theorem transform_root_replaced_witness:
  "\<exists>ops. parse_operations (\<lambda>_. Some [\<lparr> op_op = ''set'', op_path = ''/'', op_from = [], op_value = json_quote ''b'' \<rparr>]) ''x'' = Inr ops
     \<and> apply_ops sample_decode (\<lambda>_. []) ops (JObj [(''id'', JStr ''e'')]) = Inr (JStr ''b'')"
proof -
  have q: "json_quote ''b'' \<noteq> []" "json_quote ''b'' \<noteq> json_quote ''a''" by code_simp+
  then have d: "unmarshal_any sample_decode (json_quote ''b'') = Some (JStr ''b'')"
    by (simp add: unmarshal_any_def sample_decode_def)
  show ?thesis by (rule transform_root_replaced [OF _ q(1) d]) simp
qed

end
