(* ===== verification/Provider_Normalize.thy ===== *)
theory Provider_Normalize
  imports Provider_Verify Json_Transform
begin

text \<open>
  Normalisation of captured payloads (internal/provider/normalize.go, declarative.go): the
  identity, type, source, subject, data and metadata of an event, read from the body and the
  headers by the rules of a built-in adapter or of a declarative definition, and the envelope
  that is stored and delivered. Rendering a template of a declarative definition may not end: a
  normalisation is an option, None when it does not return. The text of numbers, the JSON parser,
  the decoding of a definition, the printing of compound values by package fmt, and SHA-256 are
  the arguments collected in \<open>normalize_lib\<close>.
\<close>

section \<open>Model\<close>

record normalize_lib =
  nl_num :: "rat \<Rightarrow> string"
  nl_sprint :: "json \<Rightarrow> string"
  nl_decode :: "string \<Rightarrow> json option"
  nl_decode_def :: "string \<Rightarrow> declarative_definition option"
  nl_sha :: "string \<Rightarrow> string"

record normalize_input =
  ni_adapter :: string
  ni_provider :: string
  ni_tenant_id :: string
  ni_source_id :: string
  ni_raw_body :: string
  ni_headers :: headers
  ni_verified :: bool
  ni_verify_reason :: string
  ni_raw_hash :: string
  ni_adapter_definition :: string

record normalized_envelope =
  ne_id :: string
  ne_source :: string
  ne_type :: string
  ne_subject :: string
  ne_provider :: string
  ne_provider_event_id :: string
  ne_envelope :: string
  ne_data :: string
  ne_metadata :: string
  ne_envelope_hash :: string
  ne_data_hash :: string
  ne_metadata_hash :: string

definition hash_sha256 :: "normalize_lib \<Rightarrow> string \<Rightarrow> string" where
  "hash_sha256 lib s = ''sha256:'' @ hex_encode (nl_sha lib s)"

fun nested_any :: "json \<Rightarrow> string list \<Rightarrow> json option" where
  "nested_any v [] = Some v"
| "nested_any (JObj ps) (k # ks) = nested_any (case map_of ps k of Some w \<Rightarrow> w | None \<Rightarrow> JNull) ks"
| "nested_any _ (k # ks) = None"

definition nested_string :: "json_map \<Rightarrow> string list \<Rightarrow> string" where
  "nested_string raw path = (case nested_any (JObj raw) path of Some (JStr s) \<Rightarrow> s | _ \<Rightarrow> [])"

fun first_non_blank :: "string list \<Rightarrow> string" where
  "first_non_blank [] = []"
| "first_non_blank (v # vs) = (if trim_space v \<noteq> [] then v else first_non_blank vs)"

definition provider_metadata :: "string \<Rightarrow> json_map \<Rightarrow> headers \<Rightarrow> string \<times> string" where
  "provider_metadata adapter raw hs =
     (if adapter = ''github'' then (first_header hs ''x-github-delivery'', first_header hs ''x-github-event'')
      else if adapter = ''shopify'' then (first_header hs ''x-shopify-webhook-id'', first_header hs ''x-shopify-topic'')
      else if adapter = ''slack'' then
        (let t = (case map_of raw ''event'' of Some (JObj ev) \<Rightarrow> obj_string ev ''type'' | _ \<Rightarrow> []) in
         (obj_string raw ''event_id'', if t = [] then obj_string raw ''type'' else t))
      else if adapter = ''cloudevents'' then
        (let i = first_header hs ''ce-id''; t = first_header hs ''ce-type'' in
         (if i = [] then obj_string raw ''id'' else i, if t = [] then obj_string raw ''type'' else t))
      else (obj_string raw ''id'', first_non_blank [obj_string raw ''type'', nested_string raw [''event'', ''type'']]))"

definition normalized_source :: "string \<Rightarrow> string \<Rightarrow> json_map \<Rightarrow> headers \<Rightarrow> string" where
  "normalized_source adapter source_id raw hs =
     (let dflt = adapter @ '':'' @ source_id;
          pick = (\<lambda>pre v. if v \<noteq> [] then pre @ v else dflt) in
      if adapter = ''stripe'' then pick ''stripe:'' (obj_string raw ''account'')
      else if adapter = ''github'' then pick ''github:'' (nested_string raw [''repository'', ''full_name''])
      else if adapter = ''shopify'' then pick ''shopify:'' (first_header hs ''x-shopify-shop-domain'')
      else if adapter = ''slack'' then pick ''slack:'' (obj_string raw ''team_id'')
      else if adapter = ''cloudevents'' then
        (if first_header hs ''ce-source'' \<noteq> [] then first_header hs ''ce-source''
         else pick [] (obj_string raw ''source''))
      else dflt)"

definition normalized_subject :: "string \<Rightarrow> json_map \<Rightarrow> headers \<Rightarrow> string" where
  "normalized_subject adapter raw hs =
     (if adapter = ''stripe'' then nested_string raw [''data'', ''object'', ''id'']
      else if adapter = ''github'' then nested_string raw [''repository'', ''full_name'']
      else if adapter = ''shopify'' then first_header hs ''x-shopify-shop-domain''
      else if adapter = ''slack'' then
        first_non_blank [nested_string raw [''event'', ''channel''], nested_string raw [''event'', ''user'']]
      else if adapter = ''cloudevents'' then
        (if first_header hs ''ce-subject'' \<noteq> [] then first_header hs ''ce-subject'' else obj_string raw ''subject'')
      else [])"

definition normalized_data :: "string \<Rightarrow> json_map \<Rightarrow> string \<Rightarrow> json" where
  "normalized_data adapter raw raw_body =
     (if adapter = ''cloudevents'' \<and> map_of raw ''data'' \<noteq> None then the (map_of raw ''data'')
      else if raw \<noteq> [] then JObj raw else JStr raw_body)"

definition member_or_null :: "json_map \<Rightarrow> string \<Rightarrow> json" where
  "member_or_null raw k = (case map_of raw k of Some v \<Rightarrow> v | None \<Rightarrow> JNull)"

definition normalized_metadata :: "normalize_input \<Rightarrow> json_map \<Rightarrow> json_map" where
  "normalized_metadata i raw =
     (let hs = ni_headers i; adapter = to_lower (ni_adapter i); str = (\<lambda>k. JStr (obj_string raw k));
          hdr = (\<lambda>k. JStr (first_header hs k)) in
      obj_of ([(''adapter'', JStr (ni_adapter i)), (''provider'', JStr (ni_provider i)),
         (''raw_payload_hash'', JStr (ni_raw_hash i)), (''verification_reason'', JStr (ni_verify_reason i))]
        @ (if adapter = ''stripe'' then [(''api_version'', str ''api_version''), (''livemode'', member_or_null raw ''livemode'')]
           else if adapter = ''github'' then [(''delivery'', hdr ''x-github-delivery''), (''event'', hdr ''x-github-event'')]
           else if adapter = ''shopify'' then [(''topic'', hdr ''x-shopify-topic''),
             (''shop_domain'', hdr ''x-shopify-shop-domain''), (''webhook_id'', hdr ''x-shopify-webhook-id'')]
           else if adapter = ''slack'' then [(''team_id'', str ''team_id''), (''api_app_id'', str ''api_app_id''),
             (''event_time'', member_or_null raw ''event_time'')]
           else if adapter = ''cloudevents'' then
             [(''specversion'', JStr (first_non_blank [first_header hs ''ce-specversion'', obj_string raw ''specversion''])),
              (''datacontenttype'', JStr (first_non_blank [first_header hs ''ce-datacontenttype'', obj_string raw ''datacontenttype'']))]
           else [])))"

text \<open>The envelope both normalisations build, and the record with its texts and hashes.\<close>

definition envelope_json :: "normalize_input \<Rightarrow> string \<Rightarrow> string \<Rightarrow> string \<Rightarrow> string \<Rightarrow> json \<Rightarrow> json_map \<Rightarrow> json" where
  "envelope_json i ident type source subject data metadata = JObj (obj_of
     [(''specversion'', JStr ''1.0''), (''id'', JStr ident), (''type'', JStr type), (''source'', JStr source),
      (''subject'', JStr subject), (''tenant_id'', JStr (ni_tenant_id i)), (''source_id'', JStr (ni_source_id i)),
      (''provider'', JStr (ni_provider i)), (''provider_event_id'', JStr ident),
      (''raw_payload_hash'', JStr (ni_raw_hash i)), (''signature_verified'', JBool (ni_verified i)),
      (''verification_reason'', JStr (ni_verify_reason i)), (''data'', data), (''metadata'', JObj metadata)])"

definition make_envelope ::
    "normalize_lib \<Rightarrow> normalize_input \<Rightarrow> string \<Rightarrow> string \<Rightarrow> string \<Rightarrow> string \<Rightarrow> json \<Rightarrow> json_map \<Rightarrow> normalized_envelope" where
  "make_envelope lib i ident type source subject data metadata =
     (let dt = json_text (nl_num lib) data; mt = json_text (nl_num lib) (JObj metadata);
          et = json_text (nl_num lib) (envelope_json i ident type source subject data metadata) in
      \<lparr> ne_id = ident, ne_source = source, ne_type = type, ne_subject = subject, ne_provider = ni_provider i,
        ne_provider_event_id = ident, ne_envelope = et, ne_data = dt, ne_metadata = mt,
        ne_envelope_hash = hash_sha256 lib et, ne_data_hash = hash_sha256 lib dt, ne_metadata_hash = hash_sha256 lib mt \<rparr>)"

subsection \<open>Declarative definitions\<close>

definition round_half_even :: "rat \<Rightarrow> nat" where
  "round_half_even q = (let n = nat \<lfloor>q\<rfloor>; d = q - of_nat n in
     if d < 1 / 2 then n else if 1 / 2 < d then n + 1 else if even n then n else n + 1)"

definition format_0f :: "rat \<Rightarrow> string" where
  "format_0f q = (if q < 0 then CHR ''-'' # nat_str (round_half_even (- q)) else nat_str (round_half_even q))"

definition declarative_any :: "string \<Rightarrow> json_map \<Rightarrow> headers \<Rightarrow> json" where
  "declarative_any path0 raw hs =
     (let path = trim_space path0 in
      if path = [] then JNull
      else if path = ''$'' then JObj raw
      else if has_prefix path ''$.'' then
        (case nested_any (JObj raw) (split_char (CHR ''.'') (trim_prefix path ''$.'')) of Some v \<Rightarrow> v | None \<Rightarrow> JNull)
      else if has_prefix (to_lower path) ''header:'' then JStr (first_header hs (trim_space (drop 7 path)))
      else JStr path)"

definition declarative_value :: "normalize_lib \<Rightarrow> string \<Rightarrow> json_map \<Rightarrow> headers \<Rightarrow> string" where
  "declarative_value lib path raw hs =
     (case declarative_any path raw hs of
        JStr s \<Rightarrow> s | JNum q \<Rightarrow> format_0f q | JNull \<Rightarrow> [] | v \<Rightarrow> nl_sprint lib v)"

fun str_index :: "string \<Rightarrow> string \<Rightarrow> nat option" where
  "str_index [] p = (if p = [] then Some 0 else None)"
| "str_index (x # xs) p = (if has_prefix (x # xs) p then Some 0 else map_option Suc (str_index xs p))"

text \<open>The loop over the remaining tokens of a template; \<open>val\<close> is the value at a path.\<close>

partial_function (option) render_loop :: "(string \<Rightarrow> string) \<Rightarrow> string \<Rightarrow> string option" where
  "render_loop val out =
     (case str_index out ''{{$.'' of
        None \<Rightarrow> Some out
      | Some start \<Rightarrow>
          (case str_index (drop start out) ''}}'' of
             None \<Rightarrow> Some out
           | Some en \<Rightarrow>
               render_loop val (replace_all out (take (en + 2) (drop start out))
                 (val (trim_suffix (trim_prefix (take (en + 2) (drop start out)) ''{{'') ''}}'')))))"

definition render_template :: "normalize_lib \<Rightarrow> string \<Rightarrow> json_map \<Rightarrow> headers \<Rightarrow> string \<Rightarrow> string option" where
  "render_template lib template raw hs account_id =
     (let out = trim_space template in
      if out = [] then Some []
      else render_loop (\<lambda>path. declarative_value lib path raw hs) (replace_all out ''{{account_id}}'' account_id))"

definition extractor :: "declarative_definition \<Rightarrow> string \<Rightarrow> string" where
  "extractor d k = header_value (dd_extractors d) k"

definition declarative_metadata ::
    "normalize_lib \<Rightarrow> string \<Rightarrow> string \<Rightarrow> headers \<Rightarrow> string \<times> string" where
  "declarative_metadata lib raw_definition raw_body hs =
     (case parse_declarative (nl_decode_def lib) raw_definition of
        Inl _ \<Rightarrow> ([], [])
      | Inr d \<Rightarrow>
          let raw = map_or_nil (unmarshal_map (nl_decode lib) raw_body) in
          (declarative_value lib (extractor d ''provider_event_id'') raw hs,
           declarative_value lib (extractor d ''type'') raw hs))"

definition normalize_declarative :: "normalize_lib \<Rightarrow> normalize_input \<Rightarrow> string \<Rightarrow> normalized_envelope res option" where
  "normalize_declarative lib i raw_definition =
     (case parse_declarative (nl_decode_def lib) raw_definition of
        Inl e \<Rightarrow> Some (Inl e)
      | Inr d \<Rightarrow>
          let raw = map_or_nil (unmarshal_map (nl_decode lib) (ni_raw_body i)); hs = ni_headers i;
              pid = declarative_value lib (extractor d ''provider_event_id'') raw hs;
              ty = declarative_value lib (extractor d ''type'') raw hs;
              account = declarative_value lib (extractor d ''account_id'') raw hs;
              provider_id = (if pid = [] then ni_raw_hash i else pid);
              event_type = (if ty = [] then ''unknown'' else ty) in
          (case render_template lib (dn_source (dd_normalization d)) raw hs account of
             None \<Rightarrow> None
           | Some src \<Rightarrow>
               let source = (if src = [] then ni_adapter i @ '':'' @ ni_source_id i else src);
                   subject = declarative_value lib (dn_subject (dd_normalization d)) raw hs;
                   data = (case declarative_any (dn_data (dd_normalization d)) raw hs of
                       JNull \<Rightarrow> normalized_data (ni_adapter i) raw (ni_raw_body i) | v \<Rightarrow> v);
                   metadata = obj_put ''account_id'' (JStr account) (obj_put ''declarative_version'' (JStr (dd_version d))
                     (obj_put ''declarative_adapter'' (JStr (dd_name d)) (normalized_metadata i raw))) in
               Some (Inr (make_envelope lib i provider_id event_type source subject data metadata))))"

definition err_unverified_normalization :: go_error where
  "err_unverified_normalization = ErrOther ''cannot normalize unverified provider payload''"

definition adapter_name :: "normalize_input \<Rightarrow> string" where
  "adapter_name i = (let a = to_lower (trim_space (ni_adapter i)) in
     if a = [] then to_lower (trim_space (ni_provider i)) else a)"

definition normalize :: "normalize_lib \<Rightarrow> normalize_input \<Rightarrow> normalized_envelope res option" where
  "normalize lib i =
     (let adapter = adapter_name i in
      if \<not> ni_verified i \<and> ni_verify_reason i \<noteq> ''provider_api_reconciliation'' \<and> adapter \<noteq> ''generic-unsafe''
      then Some (Inl err_unverified_normalization)
      else if ni_adapter_definition i \<noteq> [] then normalize_declarative lib i (ni_adapter_definition i)
      else
        let raw = map_or_nil (unmarshal_map (nl_decode lib) (ni_raw_body i)); hs = ni_headers i;
            (pid, ty) = provider_metadata adapter raw hs;
            ident = (if pid = [] then ni_raw_hash i else pid);
            event_type = (if ty = [] then ''unknown'' else ty) in
        Some (Inr (make_envelope lib i ident event_type (normalized_source adapter (ni_source_id i) raw hs)
          (normalized_subject adapter raw hs) (normalized_data adapter raw (ni_raw_body i)) (normalized_metadata i raw))))"

section \<open>Rendering\<close>

lemma str_index_Some: "str_index s p = Some n \<Longrightarrow> prefix p (drop n s)"
  by (induction s p arbitrary: n rule: str_index.induct) (auto split: if_splits)

abbreviation braces :: "string \<Rightarrow> nat" where
  "braces s \<equiv> count_list s (CHR ''{'')"

lemma braces_none: "CHR ''{'' \<notin> set s \<Longrightarrow> braces s = 0"
  by (simp add: count_list_0_iff)

lemma braces_split: "prefix old s \<Longrightarrow> braces s = braces old + braces (drop (length old) s)"
  by (auto simp: prefix_def)

lemma braces_replace_le: "CHR ''{'' \<notin> set new \<Longrightarrow> braces (replace_all s old new) \<le> braces s"
proof (induction s old new rule: replace_all.induct)
  case (2 x xs old new)
  then show ?case using braces_split [of old "x # xs"] by (auto simp: braces_none simp del: drop_Cons' split: if_splits)
qed simp

lemma braces_replace_less:
  assumes "CHR ''{'' \<notin> set new" and "CHR ''{'' \<in> set old" and "prefix old (drop n s)"
  shows "braces (replace_all s old new) < braces s"
  using assms
proof (induction s old new arbitrary: n rule: replace_all.induct)
  case (1 old new)
  then show ?case by (auto simp: prefix_def)
next
  case (2 x xs old new)
  have old: "old \<noteq> []" "0 < braces old" using "2.prems"(2) by (auto simp: count_list_0_iff neq0_conv [symmetric])
  show ?case
  proof (cases "prefix old (x # xs)")
    case True
    then have "braces (replace_all (x # xs) old new) = braces (replace_all (drop (length old) (x # xs)) old new)"
      using old(1) "2.prems"(1) by (simp add: braces_none del: drop_Cons')
    also have "\<dots> \<le> braces (drop (length old) (x # xs))" by (rule braces_replace_le [OF "2.prems"(1)])
    finally show ?thesis using braces_split [OF True] old(2) by simp
  next
    case False
    then have "0 < n" using "2.prems"(3) by (cases n) auto
    then have "prefix old (drop (n - 1) xs)" using "2.prems"(3) by (cases n) auto
    then show ?thesis using "2.IH"(2) [OF _ "2.prems"(1,2)] False by auto
  qed
qed

lemma render_loop_returns:
  assumes "\<And>path. CHR ''{'' \<notin> set (val path)"
  shows "\<exists>r. render_loop val out = Some r"
proof (induction "braces out" arbitrary: out rule: less_induct)
  case less
  show ?case
  proof (cases "str_index out ''{{$.''")
    case None
    then show ?thesis by (subst render_loop.simps) simp
  next
    case (Some start)
    show ?thesis
    proof (cases "str_index (drop start out) ''}}''")
      case None
      then show ?thesis using Some by (subst render_loop.simps) simp
    next
      case en: (Some en)
      let ?tok = "take (en + 2) (drop start out)"
      let ?out = "replace_all out ?tok (val (trim_suffix (trim_prefix ?tok ''{{'') ''}}''))"
      have "prefix ?tok (drop start out)" by (rule take_is_prefix)
      moreover have "CHR ''{'' \<in> set ?tok" using str_index_Some [OF Some] by (auto simp: prefix_def)
      ultimately have "braces ?out < braces out" using assms by (intro braces_replace_less [of _ _ start]) auto
      from less [OF this] show ?thesis using Some en by (subst render_loop.simps) simp
    qed
  qed
qed

lemma render_loop_stuck:
  assumes "str_index out ''{{$.'' = Some start" and "str_index (drop start out) ''}}'' = Some en"
    and "replace_all out (take (en + 2) (drop start out))
      (val (trim_suffix (trim_prefix (take (en + 2) (drop start out)) ''{{'') ''}}'')) = out"
  shows "render_loop val out = None"
proof (rule ccontr)
  assume "render_loop val out \<noteq> None"
  then obtain y where ret: "render_loop val out = Some y" by blast
  have "\<not> (val = val \<and> out = out)"
  proof (rule render_loop.raw_induct [where P = "\<lambda>v x _. \<not> (v = val \<and> x = out)", OF _ ret])
    fix f v x y
    assume IH: "\<And>v x y. f v x = Some y \<Longrightarrow> \<not> (v = val \<and> x = out)"
      and eq: "(case str_index x ''{{$.'' of None \<Rightarrow> Some x
        | Some start \<Rightarrow> (case str_index (drop start x) ''}}'' of None \<Rightarrow> Some x
          | Some en \<Rightarrow> f v (replace_all x (take (en + 2) (drop start x))
              (v (trim_suffix (trim_prefix (take (en + 2) (drop start x)) ''{{'') ''}}''))))) = Some y"
    show "\<not> (v = val \<and> x = out)"
    proof
      assume "v = val \<and> x = out"
      with eq assms have "f val out = Some y" by simp
      then show False using IH by blast
    qed
  qed
  then show False by simp
qed

section \<open>Properties\<close>

lemma render_template_returns:
  assumes "\<And>path. CHR ''{'' \<notin> set (declarative_value lib path raw hs)"
  shows "\<exists>r. render_template lib template raw hs account = Some r"
  using render_loop_returns [of "\<lambda>path. declarative_value lib path raw hs"] assms
  by (auto simp: render_template_def Let_def)


definition sample_definition :: declarative_definition where
  "sample_definition = \<lparr> dd_name = ''acme'', dd_version = ''1'',
     dd_verification = \<lparr> dv_type = ''hmac_sha256'', dv_signature_header = ''X-Sig'', dv_timestamp_header = [],
       dv_signed_payload = [], dv_encoding = [], dv_replay_window_seconds = 0, dv_signature_prefix = [] \<rparr>,
     dd_extractors = [], dd_normalization = \<lparr> dn_source = ''{{$.a}}'', dn_subject = [], dn_data = [] \<rparr> \<rparr>"

definition sample_norm_lib :: "string \<Rightarrow> normalize_lib" where
  "sample_norm_lib a = \<lparr> nl_num = (\<lambda>_. ''0''), nl_sprint = (\<lambda>_. []), nl_decode = (\<lambda>_. Some (JObj [(''a'', JStr a)])),
     nl_decode_def = (\<lambda>_. Some sample_definition), nl_sha = id \<rparr>"

definition sample_norm_input :: "string \<Rightarrow> normalize_input" where
  "sample_norm_input d = \<lparr> ni_adapter = ''stripe'', ni_provider = ''stripe'', ni_tenant_id = ''t'', ni_source_id = ''s'',
     ni_raw_body = ''x'', ni_headers = [], ni_verified = True, ni_verify_reason = ''ok'', ni_raw_hash = ''h'',
     ni_adapter_definition = d \<rparr>"


text \<open>
  C32. Normalisation can hang on an authentic payload: when a declarative definition takes the
  source from a member of the body, and a sender puts the template's own token into that member,
  the replacement loop produces the text it started from and never ends.
\<close>

theorem normalize_hangs:
  assumes "ni_verified i" and "ni_adapter_definition i \<noteq> []"
    and "parse_declarative (nl_decode_def lib) (ni_adapter_definition i) = Inr d"
    and "dn_source (dd_normalization d) = ''{{$.a}}''"
    and "map_of (map_or_nil (unmarshal_map (nl_decode lib) (ni_raw_body i))) ''a'' = Some (JStr ''{{$.a}}'')"
  shows "normalize lib i = None"
proof -
  let ?raw = "map_or_nil (unmarshal_map (nl_decode lib) (ni_raw_body i))"
  let ?val = "\<lambda>path. declarative_value lib path ?raw (ni_headers i)"
  have path: "trim_suffix (trim_prefix ''{{$.a}}'' ''{{'') ''}}'' = ''$.a''" by code_simp
  have any: "trim_space ''$.a'' = ''$.a''" "split_char (CHR ''.'') (trim_prefix ''$.a'' ''$.'') = [''a'']" by code_simp+
  have val: "?val ''$.a'' = ''{{$.a}}''"
    using assms(5) any by (simp add: declarative_value_def declarative_any_def Let_def)
  have idx: "str_index ''{{$.a}}'' ''{{$.'' = Some 0" "str_index (drop 0 ''{{$.a}}'') ''}}'' = Some 5" by code_simp+
  have tok: "take (5 + 2) (drop 0 ''{{$.a}}'') = ''{{$.a}}''" by simp
  have "render_loop ?val ''{{$.a}}'' = None"
    by (rule render_loop_stuck [OF idx]) (simp only: tok path val, simp)
  moreover have "trim_space ''{{$.a}}'' = ''{{$.a}}''" by code_simp
  moreover have "replace_all ''{{$.a}}'' ''{{account_id}}'' x = ''{{$.a}}''" for x by (simp add: prefix_def)
  ultimately have "render_template lib ''{{$.a}}'' ?raw (ni_headers i) account = None" for account
    by (simp add: render_template_def)
  then show ?thesis using assms(1-4) by (simp add: normalize_def normalize_declarative_def Let_def)
qed

theorem normalize_hangs_witness: "normalize (sample_norm_lib ''{{$.a}}'') (sample_norm_input ''d'') = None"
proof -
  have "validate_declarative sample_definition = Inr ()" by code_simp
  then have d: "parse_declarative (nl_decode_def (sample_norm_lib ''{{$.a}}'')) ''d'' = Inr sample_definition"
    by (simp add: parse_declarative_def sample_norm_lib_def)
  have "map_of (map_or_nil (unmarshal_map (nl_decode (sample_norm_lib ''{{$.a}}'')) ''x'')) ''a'' = Some (JStr ''{{$.a}}'')"
    by (simp add: sample_norm_lib_def unmarshal_map_def unmarshal_any_def map_or_nil_def obj_of_def)
  with d show ?thesis by (intro normalize_hangs [where d = sample_definition])
      (simp_all add: sample_norm_input_def, simp add: sample_definition_def)
qed

lemma make_envelope_fields:
  "ne_envelope (make_envelope lib i ident ty source subject data metadata)
     = json_text (nl_num lib) (envelope_json i ident ty source subject data metadata)"
  "ne_id (make_envelope lib i ident ty source subject data metadata) = ident"
  "ne_type (make_envelope lib i ident ty source subject data metadata) = ty"
  "ne_envelope_hash (make_envelope lib i ident ty source subject data metadata)
     = hash_sha256 lib (ne_envelope (make_envelope lib i ident ty source subject data metadata))"
  by (simp_all add: make_envelope_def Let_def)

lemma envelope_root:
  "root_field k (envelope_json i ident ty source subject data metadata) = map_of
     [(''specversion'', JStr ''1.0''), (''id'', JStr ident), (''type'', JStr ty), (''source'', JStr source),
      (''subject'', JStr subject), (''tenant_id'', JStr (ni_tenant_id i)), (''source_id'', JStr (ni_source_id i)),
      (''provider'', JStr (ni_provider i)), (''provider_event_id'', JStr ident),
      (''raw_payload_hash'', JStr (ni_raw_hash i)), (''signature_verified'', JBool (ni_verified i)),
      (''verification_reason'', JStr (ni_verify_reason i)), (''data'', data), (''metadata'', JObj metadata)] k"
  by (simp add: envelope_json_def root_field_def map_of_obj_of)

lemma normalize_Inr:
  assumes "normalize lib i = Some (Inr env)"
  shows "(ni_verified i \<or> ni_verify_reason i = ''provider_api_reconciliation'' \<or> adapter_name i = ''generic-unsafe'')
    \<and> (\<exists>ident ty source subject data metadata. env = make_envelope lib i ident ty source subject data metadata
         \<and> (ni_raw_hash i \<noteq> [] \<longrightarrow> ident \<noteq> []) \<and> ty \<noteq> [])"
proof (cases "ni_adapter_definition i = []")
  case True
  with assms show ?thesis by (auto simp: normalize_def Let_def split: if_splits prod.splits) blast+
next
  case False
  with assms have n: "normalize_declarative lib i (ni_adapter_definition i) = Some (Inr env)"
    and v: "ni_verified i \<or> ni_verify_reason i = ''provider_api_reconciliation'' \<or> adapter_name i = ''generic-unsafe''"
    by (auto simp: normalize_def Let_def split: if_splits)
  obtain d where d: "parse_declarative (nl_decode_def lib) (ni_adapter_definition i) = Inr d"
    using n by (cases "parse_declarative (nl_decode_def lib) (ni_adapter_definition i)") (auto simp: normalize_declarative_def)
  let ?raw = "map_or_nil (unmarshal_map (nl_decode lib) (ni_raw_body i))"
  let ?render = "render_template lib (dn_source (dd_normalization d)) ?raw (ni_headers i)
      (declarative_value lib (extractor d ''account_id'') ?raw (ni_headers i))"
  obtain src where src: "?render = Some src"
    using n d by (cases ?render) (auto simp: normalize_declarative_def Let_def)
  have shape: "\<exists>ident ty source subject data metadata. env = make_envelope lib i ident ty source subject data metadata
         \<and> (ni_raw_hash i \<noteq> [] \<longrightarrow> ident \<noteq> []) \<and> ty \<noteq> []"
    if "Some (Inr (make_envelope lib i ident ty source subject data metadata)) = Some (Inr env)"
      "ni_raw_hash i \<noteq> [] \<longrightarrow> ident \<noteq> []" "ty \<noteq> []" for ident ty source subject data metadata
    using that by blast
  have "\<exists>ident ty source subject data metadata. env = make_envelope lib i ident ty source subject data metadata
         \<and> (ni_raw_hash i \<noteq> [] \<longrightarrow> ident \<noteq> []) \<and> ty \<noteq> []"
    by (rule shape [OF n [unfolded normalize_declarative_def Let_def d src sum.case option.case]]) auto
  with v show ?thesis by blast
qed


text \<open>
  C30. The envelope says the truth whatever the payload says: an event is only normalised when it
  was verified, came from a reconciliation with the provider's API, or belongs to the adapter that
  skips verification; and then the tenant, source, provider, payload hash and verification result
  in the stored envelope are those of the capture, its identity and type are not empty, and the
  stored hash is the hash of the envelope's text.
\<close>

theorem normalize_authentic:
  assumes "normalize lib i = Some (Inr env)"
  shows "(ni_verified i \<or> ni_verify_reason i = ''provider_api_reconciliation'' \<or> adapter_name i = ''generic-unsafe'')
    \<and> (\<exists>e. ne_envelope env = json_text (nl_num lib) e
      \<and> root_field ''tenant_id'' e = Some (JStr (ni_tenant_id i)) \<and> root_field ''source_id'' e = Some (JStr (ni_source_id i))
      \<and> root_field ''provider'' e = Some (JStr (ni_provider i))
      \<and> root_field ''raw_payload_hash'' e = Some (JStr (ni_raw_hash i))
      \<and> root_field ''signature_verified'' e = Some (JBool (ni_verified i))
      \<and> root_field ''verification_reason'' e = Some (JStr (ni_verify_reason i))
      \<and> root_field ''provider_event_id'' e = Some (JStr (ne_id env)))
    \<and> (ni_raw_hash i \<noteq> [] \<longrightarrow> ne_id env \<noteq> []) \<and> ne_type env \<noteq> []
    \<and> ne_envelope_hash env = hash_sha256 lib (ne_envelope env)"
proof -
  from normalize_Inr [OF assms] obtain ident ty source subject data metadata
    where env: "env = make_envelope lib i ident ty source subject data metadata"
      and ids: "ni_raw_hash i \<noteq> [] \<longrightarrow> ident \<noteq> []" "ty \<noteq> []" by blast
  let ?e = "envelope_json i ident ty source subject data metadata"
  have "ne_envelope env = json_text (nl_num lib) ?e" by (simp add: env make_envelope_fields)
  then show ?thesis using normalize_Inr [OF assms] ids
    by (auto simp: env make_envelope_fields envelope_root intro!: exI [of _ ?e])
qed

lemma normalize_builtin:
  "ni_verified i \<Longrightarrow> ni_adapter_definition i = [] \<Longrightarrow> \<exists>env. normalize lib i = Some (Inr env)"
  by (auto simp: normalize_def Let_def split: prod.splits)

theorem normalize_authentic_witness:
  "\<exists>env. normalize (sample_norm_lib ''v'') (sample_norm_input []) = Some (Inr env) \<and> ne_id env \<noteq> []"
proof -
  obtain env where n: "normalize (sample_norm_lib ''v'') (sample_norm_input []) = Some (Inr env)"
    using normalize_builtin [of "sample_norm_input []"] by (auto simp: sample_norm_input_def)
  from normalize_authentic [OF n] n show ?thesis by (simp add: sample_norm_input_def)
qed

end
