(* ===== verification/Inbound_Capture.thy ===== *)
theory Inbound_Capture
  imports Gateway_Tables Provider_Normalize Problem_Details Audit_Verify Authz_Policy
begin

text \<open>
  The ingest path: the handlers of internal/adapters/httpapi/server_event_ingest_handlers.go, the
  service of internal/app/service.go (choice of the adapter, verification, normalisation, dedupe
  key) and \<open>CaptureInbound\<close> of internal/adapters/postgres/store_ingest.go. Arguments are the
  provider and normalisation libraries, the secret box, the generated identifiers, the clocks and
  \<open>jsonb\<close>, the text PostgreSQL gives back for a JSON column. The outcome is optional because the
  normalisation of a declarative adapter may not return.
\<close>

section \<open>Model: sources\<close>

record source =
  src_id :: string
  src_tenant :: string
  src_provider :: string
  src_adapter :: string
  src_state :: string
  src_secret :: string
  src_secrets :: "string list"

fun decrypt_all :: "secret_box \<Rightarrow> string \<Rightarrow> string list \<Rightarrow> string list res" where
  "decrypt_all dec tenant [] = Inr []"
| "decrypt_all dec tenant (c # cs) =
     bind_res (dec tenant ''source_verification_secret'' c) (\<lambda>p.
     bind_res (decrypt_all dec tenant cs) (\<lambda>ps. Inr (p # ps)))"

definition source_verification_secrets ::
    "secret_box \<Rightarrow> faults \<Rightarrow> gotime \<Rightarrow> 'a ingest_db_scheme \<Rightarrow> string \<Rightarrow> string \<Rightarrow> string \<Rightarrow> string list res" where
  "source_verification_secrets dec f now db tenant source_id fallback =
     bind_res (query_rows f ''source_secrets'' (order_by (\<lambda>s. (if ss_state s = ''active'' then 0 else 1 :: int, - ss_version s))
        (filter (\<lambda>s. ss_tenant s = tenant \<and> ss_source s = source_id \<and> (ss_state s = ''active''
            \<or> (ss_state s = ''previous'' \<and> (case ss_expires_at s of None \<Rightarrow> True | Some t \<Rightarrow> now < t))))
          (source_secret_versions db)))) (\<lambda>rows.
     bind_res (decrypt_all dec tenant (map ss_secret rows)) (\<lambda>secrets.
     if secrets = [] \<and> fallback \<noteq> [] then decrypt_all dec tenant [fallback] else Inr secrets))"

definition find_source_where ::
    "secret_box \<Rightarrow> faults \<Rightarrow> gotime \<Rightarrow> 'a ingest_db_scheme \<Rightarrow> (source_row \<Rightarrow> bool) \<Rightarrow> source res" where
  "find_source_where dec f now db p =
     bind_res (no_rows_not_found (query_row f ''find_source'' (filter p (sources db)))) (\<lambda>r.
     bind_res (source_verification_secrets dec f now db (so_tenant r) (so_id r) (so_secret r)) (\<lambda>secrets.
     Inr \<lparr> src_id = so_id r, src_tenant = so_tenant r, src_provider = so_provider r, src_adapter = so_adapter r,
           src_state = so_state r, src_secret = (case secrets of [] \<Rightarrow> [] | s # _ \<Rightarrow> s), src_secrets = secrets \<rparr>))"

definition find_source ::
    "secret_box \<Rightarrow> faults \<Rightarrow> gotime \<Rightarrow> 'a ingest_db_scheme \<Rightarrow> string \<Rightarrow> string \<Rightarrow> source res" where
  "find_source dec f now db tenant source_id =
     find_source_where dec f now db (\<lambda>r. so_tenant r = tenant \<and> so_id r = source_id)"

definition find_source_by_provider_path ::
    "secret_box \<Rightarrow> faults \<Rightarrow> gotime \<Rightarrow> 'a ingest_db_scheme \<Rightarrow> string \<Rightarrow> string \<Rightarrow> source res" where
  "find_source_by_provider_path dec f now db provider source_id =
     find_source_where dec f now db (\<lambda>r. so_provider r = provider \<and> so_id r = source_id)"

definition active_declarative_adapter_version ::
    "faults \<Rightarrow> 'a ingest_db_scheme \<Rightarrow> string \<Rightarrow> string \<Rightarrow> adapter_version_row res" where
  "active_declarative_adapter_version f db tenant name =
     no_rows_not_found (query_row f ''active_adapter'' (order_by (\<lambda>v. (case av_activated_at v of
          None \<Rightarrow> (1 :: int, 0) | Some t \<Rightarrow> (0, - t), - av_created_at v))
        (filter (\<lambda>v. av_tenant v = Some tenant \<and> av_name v = to_lower (trim_space name) \<and> av_kind v = ''declarative''
            \<and> av_state v = ''active'') (adapter_versions db))))"

section \<open>Model: event metadata\<close>

fun add_header :: "string \<Rightarrow> string \<Rightarrow> headers \<Rightarrow> headers" where
  "add_header n v [] = [(n, [v])]"
| "add_header n v ((k, vs) # hs) = (if k = n then (k, vs @ [v]) # hs else (k, vs) # add_header n v hs)"

definition canonical_headers :: "(string \<times> string) list \<Rightarrow> headers" where
  "canonical_headers raw = fold (\<lambda>(n, v) hs. add_header (to_lower n) v hs) raw []"

definition header_at :: "headers \<Rightarrow> string \<Rightarrow> string" where
  "header_at hs name = (case map_of hs (to_lower name) of Some (v # _) \<Rightarrow> v | _ \<Rightarrow> [])"

definition extract_event_metadata :: "(string \<Rightarrow> json option) \<Rightarrow> string \<Rightarrow> string \<times> string" where
  "extract_event_metadata decode raw =
     (case unmarshal_map decode raw of None \<Rightarrow> ([], [])
      | Some payload \<Rightarrow>
          let ident = obj_string payload ''id''; typ = obj_string payload ''type'';
              typ' = (if typ = [] then (case map_of payload ''event'' of Some (JObj ps) \<Rightarrow> obj_string ps ''type'' | _ \<Rightarrow> []) else typ);
              ident' = (if ident = [] then obj_string payload ''event_id'' else ident)
          in (ident', typ'))"

definition extract_event_metadata_for_provider ::
    "(string \<Rightarrow> json option) \<Rightarrow> string \<Rightarrow> string \<Rightarrow> headers \<Rightarrow> string \<times> string" where
  "extract_event_metadata_for_provider decode adapter raw hs =
     (let ce = (header_at hs ''ce-id'', header_at hs ''ce-type'') in
      if equal_fold adapter ''cloudevents'' \<and> (fst ce \<noteq> [] \<or> snd ce \<noteq> []) then ce
      else let (ident, typ) = extract_event_metadata decode raw;
               typ' = (if typ = [] then header_at hs ''x-github-event'' else typ);
               ident1 = (if ident = [] \<and> equal_fold adapter ''github'' then header_at hs ''x-github-delivery'' else ident);
               ident2 = (if ident1 = [] \<and> equal_fold adapter ''shopify'' then header_at hs ''x-shopify-webhook-id'' else ident1)
           in (ident2, typ'))"

definition dedupe_key :: "source \<Rightarrow> string \<Rightarrow> string \<Rightarrow> string" where
  "dedupe_key src provider_id raw_hash =
     join_with '':'' [src_provider src, src_tenant src, src_id src, if provider_id \<noteq> [] then provider_id else raw_hash]"

section \<open>Model: the durable capture\<close>

record ingest_request =
  iq_tenant :: string
  iq_source :: string
  iq_provider :: string
  iq_body :: string
  iq_headers :: "(string \<times> string) list"
  iq_content_type :: string
  iq_remote_ip :: string

record capture_input =
  ci_source :: source
  ci_body :: string
  ci_sha256 :: string
  ci_content_type :: string
  ci_headers :: "(string \<times> string) list"
  ci_remote_ip :: string
  ci_now :: gotime
  ci_type :: string
  ci_provider_event :: string
  ci_dedupe_key :: string
  ci_normalized :: "normalized_envelope option"
  ci_verified :: bool
  ci_reason :: string

record capture_ids =
  cg_event :: string
  cg_raw :: string
  cg_receipt :: string
  cg_outbox :: string
  cg_normalized :: string
  cg_quarantine :: string

record capture_result =
  cr_event :: string
  cr_receipt :: string
  cr_raw :: string
  cr_dedupe :: string

record raw_storage =
  rs_backend :: string
  rs_bucket :: string
  rs_key :: string

text \<open>\<open>bucket\<close> is None when raw payloads are stored in PostgreSQL.\<close>

definition prepare_raw_payload_storage ::
    "faults \<Rightarrow> string option \<Rightarrow> string \<Rightarrow> string \<Rightarrow> string \<Rightarrow> string \<Rightarrow> objects \<Rightarrow> objects \<times> (raw_storage \<times> string) res" where
  "prepare_raw_payload_storage f bucket tenant raw_id sha256 body objs =
     (case bucket of
        None \<Rightarrow> (objs, Inr (\<lparr> rs_backend = ''postgres'', rs_bucket = [], rs_key = [] \<rparr>, body))
      | Some b \<Rightarrow>
          (let key = raw_payload_key tenant raw_id sha256 in
           case f ''put'' of Some e \<Rightarrow> (objs, Inl (ErrOther ''raw payload object write failed''))
           | None \<Rightarrow> (put_object b key body objs, Inr (\<lparr> rs_backend = ''s3'', rs_bucket = b, rs_key = key \<rparr>, []))))"

definition lookup_adapter_version_id :: "faults \<Rightarrow> 'a ingest_db_scheme \<Rightarrow> string \<Rightarrow> string res" where
  "lookup_adapter_version_id f db adapter0 =
     (let adapter = to_lower (trim_space adapter0) in
      if adapter = [] then Inr []
      else case query_row f ''adapter_version'' (order_by (\<lambda>v. - av_created_at v)
             (filter (\<lambda>v. av_name v = adapter \<and> av_state v = ''active'') (adapter_versions db))) of
          Inl ErrNoRows \<Rightarrow> Inr [] | Inl e \<Rightarrow> Inl e | Inr v \<Rightarrow> Inr (av_id v))"

text \<open>
  \<open>INSERT ... ON CONFLICT (tenant_id, dedupe_key) DO NOTHING RETURNING id\<close>: the empty string when
  no row comes back, which is what \<open>insertedEventID\<close> then is.
\<close>

definition insert_event :: "faults \<Rightarrow> event_row \<Rightarrow> ('a ingest_db_scheme, string) tx" where
  "insert_event f e = (\<lambda>db. case f ''insert_event'' of
       Some err \<Rightarrow> if err = ErrNoRows then Inr (db, []) else Inl err
     | None \<Rightarrow> if list_ex (\<lambda>x. ev_tenant x = ev_tenant e \<and> ev_dedupe_key x = ev_dedupe_key e) (events db) then Inr (db, [])
         else if ev_id e \<in> ev_id ` set (events db) then Inl (ErrOther ''events_pkey'')
         else Inr (events_update (\<lambda>rows. rows @ [e]) db, ev_id e))"

definition capture_tenant :: "faults \<Rightarrow> string \<Rightarrow> ('a ingest_db_scheme, unit) tx" where
  "capture_tenant f tenant = exec_tx f ''insert_tenant''
     (\<lambda>db. if tenant \<in> set (tenants db) then db else tenants_update (\<lambda>ts. ts @ [tenant]) db)"

definition capture_raw ::
    "faults \<Rightarrow> capture_ids \<Rightarrow> raw_storage \<Rightarrow> string \<Rightarrow> capture_input \<Rightarrow> ('a ingest_db_scheme, unit) tx" where
  "capture_raw f ids st body_for_db i = insert_row f ''insert_raw'' rw_id raw_payloads raw_payloads_update
     \<lparr> rw_id = cg_raw ids, rw_tenant = src_tenant (ci_source i), rw_event = None, rw_sha256 = ci_sha256 i,
       rw_content_type = ci_content_type i, rw_size = int (length (ci_body i)), rw_body = body_for_db,
       rw_backend = rs_backend st, rw_bucket = rs_bucket st, rw_key = rs_key st, rw_status = ''stored'',
       rw_created_at = ci_now i \<rparr>"

definition capture_normalized ::
    "(string \<Rightarrow> string) \<Rightarrow> faults \<Rightarrow> capture_ids \<Rightarrow> capture_input \<Rightarrow> string \<Rightarrow> ('a ingest_db_scheme, unit) tx" where
  "capture_normalized jsonb f ids i event_id = (case ci_normalized i of
       None \<Rightarrow> return_tx ()
     | Some n \<Rightarrow> if ne_envelope n = [] then return_tx () else
         bind_tx (read_tx (\<lambda>db. lookup_adapter_version_id f db
             (first_non_blank [src_adapter (ci_source i), src_provider (ci_source i)]))) (\<lambda>version.
         insert_row f ''insert_normalized'' (\<lambda>r. (nz_tenant r, nz_event r)) normalized_envelopes normalized_envelopes_update
           \<lparr> nz_id = cg_normalized ids, nz_tenant = src_tenant (ci_source i), nz_event = event_id,
             nz_adapter_version = version, nz_provider = src_provider (ci_source i),
             nz_provider_event = ne_provider_event_id n, nz_type = ne_type n, nz_source = ne_source n,
             nz_subject = ne_subject n, nz_envelope = jsonb (ne_envelope n), nz_data = jsonb (ne_data n),
             nz_metadata = jsonb (ne_metadata n), nz_envelope_sha256 = ne_envelope_hash n,
             nz_data_sha256 = ne_data_hash n, nz_metadata_sha256 = ne_metadata_hash n, nz_status = ''stored'',
             nz_created_at = ci_now i \<rparr>))"

definition capture_event_row :: "capture_ids \<Rightarrow> capture_input \<Rightarrow> event_row" where
  "capture_event_row ids i = \<lparr> ev_id = cg_event ids, ev_tenant = src_tenant (ci_source i), ev_source = src_id (ci_source i),
     ev_provider = src_provider (ci_source i), ev_type = (if ci_type i = [] then ''unknown'' else ci_type i),
     ev_provider_event = ci_provider_event i, ev_raw_payload = cg_raw ids, ev_raw_hash = ci_sha256 i,
     ev_verified = ci_verified i, ev_reason = ci_reason i, ev_dedupe_key = ci_dedupe_key i, ev_dedupe_status = ''unique'',
     ev_received_at = ci_now i, ev_trace = [] \<rparr>"

text \<open>The identifier of the event the request belongs to, and whether it is new.\<close>

definition capture_event ::
    "(string \<Rightarrow> string) \<Rightarrow> faults \<Rightarrow> gotime \<Rightarrow> capture_ids \<Rightarrow> capture_input \<Rightarrow> ('a ingest_db_scheme, string \<times> string) tx" where
  "capture_event jsonb f now ids i =
     bind_tx (insert_event f (capture_event_row ids i)) (\<lambda>inserted.
     if inserted = []
     then bind_tx (read_tx (\<lambda>db. query_row f ''select_event'' (filter (\<lambda>e. ev_tenant e = src_tenant (ci_source i)
              \<and> ev_dedupe_key e = ci_dedupe_key i) (events db)))) (\<lambda>e.
          return_tx (ev_id e, ''duplicate_suppressed''))
     else then_tx (capture_normalized jsonb f ids i inserted)
          (then_tx (insert_row f ''insert_outbox'' ob_id outbox outbox_update
              (route_event_row now (cg_outbox ids) (src_tenant (ci_source i)) ''route_event'' inserted))
            (return_tx (inserted, ''unique''))))"

definition capture_dedupe ::
    "faults \<Rightarrow> gotime \<Rightarrow> capture_ids \<Rightarrow> capture_input \<Rightarrow> string \<Rightarrow> string \<Rightarrow> ('a ingest_db_scheme, unit) tx" where
  "capture_dedupe f now ids i event_id status =
     (let tenant = src_tenant (ci_source i); key = ci_dedupe_key i in
      if key = [] then return_tx ()
      else then_tx (exec_tx f ''insert_idempotency'' (\<lambda>db.
             if list_ex (\<lambda>r. id_tenant r = tenant \<and> id_key r = key) (idempotency_records db) then db
             else idempotency_records_update (\<lambda>rows. rows @ [\<lparr> id_tenant = tenant, id_key = key, id_resource_type = ''event'',
                    id_resource = event_id, id_status_code = 202 \<rparr>]) db))
           (exec_tx f ''upsert_dedupe'' (\<lambda>db.
             if list_ex (\<lambda>r. dr_tenant r = tenant \<and> dr_key r = key) (dedupe_records db)
             then dedupe_records_update (update_where (\<lambda>r. dr_tenant r = tenant \<and> dr_key r = key)
                    (\<lambda>r. r\<lparr>dr_last_receipt := cg_receipt ids, dr_status := status, dr_last_seen := now\<rparr>)) db
             else dedupe_records_update (\<lambda>rows. rows @ [\<lparr> dr_tenant = tenant, dr_source = src_id (ci_source i), dr_key = key,
                    dr_first_event = event_id, dr_last_receipt = cg_receipt ids, dr_status = status, dr_last_seen = now \<rparr>]) db)))"

definition capture_rest ::
    "(string \<Rightarrow> string) \<Rightarrow> faults \<Rightarrow> gotime \<Rightarrow> capture_ids \<Rightarrow> capture_input \<Rightarrow> ('a ingest_db_scheme, capture_result) tx" where
  "capture_rest jsonb f now ids i =
     bind_tx (capture_event jsonb f now ids i) (\<lambda>(event_id, status).
     then_tx (update_rows f ''link_raw'' raw_payloads_update (\<lambda>r. rw_id r = cg_raw ids) (\<lambda>r. r\<lparr>rw_event := Some event_id\<rparr>))
     (then_tx (insert_row f ''insert_receipt'' rc_id receipts receipts_update
        \<lparr> rc_id = cg_receipt ids, rc_tenant = src_tenant (ci_source i), rc_source = src_id (ci_source i), rc_event = event_id,
          rc_raw_payload = cg_raw ids, rc_headers = ci_headers i, rc_remote_ip = ci_remote_ip i,
          rc_verified = ci_verified i, rc_reason = ci_reason i, rc_received_at = ci_now i \<rparr>)
     (then_tx (capture_dedupe f now ids i event_id status)
     (then_tx (if ci_verified i then return_tx ()
        else insert_row f ''insert_quarantine'' qu_id quarantine_entries quarantine_entries_update
          \<lparr> qu_id = cg_quarantine ids, qu_tenant = src_tenant (ci_source i), qu_event = event_id, qu_reason = ci_reason i,
            qu_state = ''open'' \<rparr>)
     (return_tx \<lparr> cr_event = event_id, cr_receipt = cg_receipt ids, cr_raw = cg_raw ids, cr_dedupe = status \<rparr>)))))"

text \<open>
  The object that was written is deleted again when the transaction cannot begin, the raw payload
  cannot be inserted or the commit fails, and left behind on the other errors.
\<close>

definition capture_inbound ::
    "(string \<Rightarrow> string) \<Rightarrow> faults \<Rightarrow> gotime \<Rightarrow> string option \<Rightarrow> capture_ids \<Rightarrow> capture_input \<Rightarrow>
     'a ingest_db_scheme \<times> objects \<Rightarrow> ('a ingest_db_scheme \<times> objects) \<times> capture_result res" where
  "capture_inbound jsonb f now bucket ids i = (\<lambda>(db, objs).
     case prepare_raw_payload_storage f bucket (src_tenant (ci_source i)) (cg_raw ids) (ci_sha256 i) (ci_body i) objs of
       (objs1, Inl e) \<Rightarrow> ((db, objs1), Inl e)
     | (objs1, Inr (st, body_for_db)) \<Rightarrow>
         let cleanup = (if rs_backend st = ''s3'' then delete_object f (rs_bucket st) (rs_key st) objs1 else objs1) in
         (case f ''begin'' of Some e \<Rightarrow> ((db, cleanup), Inl e)
          | None \<Rightarrow>
             (case capture_tenant f (src_tenant (ci_source i)) db of Inl e \<Rightarrow> ((db, objs1), Inl e)
              | Inr (db1, _) \<Rightarrow>
                 (case capture_raw f ids st body_for_db i db1 of Inl e \<Rightarrow> ((db, cleanup), Inl e)
                  | Inr (db2, _) \<Rightarrow>
                     (case capture_rest jsonb f now ids i db2 of Inl e \<Rightarrow> ((db, objs1), Inl e)
                      | Inr (db3, r) \<Rightarrow>
                         (case f ''commit'' of Some e \<Rightarrow> ((db, cleanup), Inl e) | None \<Rightarrow> ((db3, objs1), Inr r)))))))"

section \<open>Model: the service\<close>

record ingest_result =
  ir_accepted :: bool
  ir_event :: string
  ir_receipt :: string
  ir_raw :: string
  ir_trace :: string
  ir_reason :: string
  ir_dedupe :: string

record ingest_env =
  ie_provider :: provider_lib
  ie_norm :: normalize_lib
  ie_dec :: secret_box
  ie_jsonb :: "string \<Rightarrow> string"
  ie_bucket :: "string option"

text \<open>The adapter of a source with the definition of a declarative one.\<close>

definition choose_adapter :: "ingest_env \<Rightarrow> faults \<Rightarrow> 'a ingest_db_scheme \<Rightarrow> source \<Rightarrow> provider_adapter \<times> string" where
  "choose_adapter env f db src =
     (case registry_adapter (src_adapter src) of Some a \<Rightarrow> (a, [])
      | None \<Rightarrow> (case registry_adapter (src_provider src) of Some a \<Rightarrow> (a, [])
        | None \<Rightarrow> (case active_declarative_adapter_version f db (src_tenant src) (src_adapter src) of
            Inl _ \<Rightarrow> (UnsafeAdapter, [])
          | Inr v \<Rightarrow> if av_kind v = ''declarative'' \<and> av_state v = ''active''
              then (case parse_declarative (nl_decode_def (ie_norm env)) (av_definition v) of
                  Inl _ \<Rightarrow> (UnsafeAdapter, []) | Inr d \<Rightarrow> (DeclarativeAdapter d, av_definition v))
              else (UnsafeAdapter, []))))"

fun verify_secrets :: "provider_lib \<Rightarrow> provider_adapter \<Rightarrow> string \<Rightarrow> headers \<Rightarrow> gotime \<Rightarrow> string list \<Rightarrow> verify_result \<Rightarrow> verify_result" where
  "verify_secrets lib a raw hs now [] prev = prev"
| "verify_secrets lib a raw hs now (s # ss) prev =
     (let v = adapter_verify lib a \<lparr> vi_raw_body = raw, vi_headers = hs, vi_secret = s, vi_now = now \<rparr> in
      if pv_verified v then v else verify_secrets lib a raw hs now ss v)"

definition source_secrets :: "source \<Rightarrow> string list" where
  "source_secrets src =
     (let secrets = (if src_secrets src = [] \<and> src_secret src \<noteq> [] then [src_secret src] else src_secrets src)
      in if secrets = [] then [[]] else secrets)"

definition capture_metadata ::
    "ingest_env \<Rightarrow> source \<Rightarrow> string \<Rightarrow> string \<Rightarrow> headers \<Rightarrow> string \<times> string" where
  "capture_metadata env src definition raw hs =
     (let (ident, typ) = extract_event_metadata_for_provider (nl_decode (ie_norm env)) (src_adapter src) raw hs in
      if definition = [] then (ident, typ)
      else let (ident', typ') = declarative_metadata (ie_norm env) definition raw hs in
        if ident' \<noteq> [] \<or> typ' \<noteq> [] then (first_non_empty [ident', ident], first_non_empty [typ', typ]) else (ident, typ))"

definition capture_request ::
    "ingest_env \<Rightarrow> source \<Rightarrow> ingest_request \<Rightarrow> provider_adapter \<times> string \<Rightarrow> gotime \<Rightarrow> capture_input option" where
  "capture_request env src req = (\<lambda>(adapter, definition) now.
     let hs = canonical_headers (iq_headers req); raw = iq_body req;
         verify = verify_secrets (ie_provider env) adapter raw hs now (source_secrets src)
           \<lparr> pv_verified = False, pv_reason = ''missing_signature'', pv_provider = [], pv_timestamp = 0 \<rparr>;
         raw_hash = hash_sha256 (ie_norm env) raw;
         (ident, typ) = capture_metadata env src definition raw hs;
         key = dedupe_key src ident raw_hash;
         input = (\<lambda>ident typ n. \<lparr> ci_source = src, ci_body = raw, ci_sha256 = raw_hash, ci_content_type = iq_content_type req,
           ci_headers = iq_headers req, ci_remote_ip = iq_remote_ip req, ci_now = now, ci_type = typ,
           ci_provider_event = ident, ci_dedupe_key = key, ci_normalized = n, ci_verified = pv_verified verify,
           ci_reason = pv_reason verify \<rparr>)
     in if \<not> pv_verified verify then Some (input ident typ None)
        else case normalize (ie_norm env) \<lparr> ni_adapter = src_adapter src, ni_provider = src_provider src,
               ni_tenant_id = src_tenant src, ni_source_id = src_id src, ni_raw_body = raw, ni_headers = hs,
               ni_verified = pv_verified verify, ni_verify_reason = pv_reason verify, ni_raw_hash = raw_hash,
               ni_adapter_definition = definition \<rparr> of
            None \<Rightarrow> None
          | Some (Inl _) \<Rightarrow> Some (input ident typ None)
          | Some (Inr n) \<Rightarrow> Some (input (if ident = [] then ne_provider_event_id n else ident)
                (if typ = [] then ne_type n else typ) (Some n)))"

definition service_capture ::
    "ingest_env \<Rightarrow> faults \<Rightarrow> gotime \<Rightarrow> gotime \<Rightarrow> capture_ids \<Rightarrow> 'a ingest_db_scheme \<times> objects \<Rightarrow> source \<Rightarrow> ingest_request \<Rightarrow>
     (('a ingest_db_scheme \<times> objects) \<times> ingest_result res) option" where
  "service_capture env f now wall ids s src req =
     (if src_state src \<noteq> [] \<and> src_state src \<noteq> ''active''
      then Some (s, Inl (ErrInvalidInput ''source is not active''))
      else map_option (\<lambda>i. case capture_inbound (ie_jsonb env) f now (ie_bucket env) ids i s of
             (s', Inl e) \<Rightarrow> (s', Inl e)
           | (s', Inr r) \<Rightarrow> (s', Inr \<lparr> ir_accepted = (ci_verified i \<or> src_adapter src = ''cloudevents''), ir_event = cr_event r,
               ir_receipt = cr_receipt r, ir_raw = cr_raw r, ir_trace = [], ir_reason = ci_reason i, ir_dedupe = cr_dedupe r \<rparr>))
         (capture_request env src req (choose_adapter env f (fst s) src) wall))"

definition ingest ::
    "ingest_env \<Rightarrow> faults \<Rightarrow> gotime \<Rightarrow> gotime \<Rightarrow> capture_ids \<Rightarrow> 'a ingest_db_scheme \<times> objects \<Rightarrow> ingest_request \<Rightarrow>
     (('a ingest_db_scheme \<times> objects) \<times> ingest_result res) option" where
  "ingest env f now wall ids s req =
     (case find_source (ie_dec env) f now (fst s) (iq_tenant req) (iq_source req) of
        Inl e \<Rightarrow> Some (s, Inl e) | Inr src \<Rightarrow> service_capture env f now wall ids s src req)"

definition ingest_provider_path ::
    "ingest_env \<Rightarrow> faults \<Rightarrow> gotime \<Rightarrow> gotime \<Rightarrow> capture_ids \<Rightarrow> 'a ingest_db_scheme \<times> objects \<Rightarrow> string \<Rightarrow> string \<Rightarrow> ingest_request \<Rightarrow>
     (('a ingest_db_scheme \<times> objects) \<times> ingest_result res) option" where
  "ingest_provider_path env f now wall ids s provider source_id req =
     (case find_source_by_provider_path (ie_dec env) f now (fst s) provider source_id of
        Inl e \<Rightarrow> Some (s, Inl e)
      | Inr src \<Rightarrow> service_capture env f now wall ids s src
          (req\<lparr>iq_tenant := src_tenant src, iq_source := src_id src, iq_provider := provider\<rparr>))"

section \<open>Model: the handlers\<close>

text \<open>
  What a handler reads of a request: the outcome of reading at most one byte above the limit
  (None for a read error), the headers, the remote address, the path parameters and the request id.
\<close>

record http_in =
  hx_body :: "string option"
  hx_headers :: "(string \<times> string) list"
  hx_content_type :: string
  hx_remote :: string
  hx_tenant_param :: string
  hx_source_param :: string
  hx_request_id :: string

datatype reply = ReplyProblem problem | ReplyReceived string bool | ReplyChallenge string | ReplyIngested ingest_result

definition max_ingress_body :: nat where
  "max_ingress_body = 2097152"

definition read_limited_body :: "http_in \<Rightarrow> problem + string" where
  "read_limited_body r =
     (case hx_body r of
        None \<Rightarrow> Inl (problem_bad_request (hx_request_id r) ''validation_error'' ''Could not read request body.'')
      | Some body \<Rightarrow> if max_ingress_body < length (take (Suc max_ingress_body) body)
          then Inl (new_problem 413 ''payload_too_large'' ''Payload too large''
                  ''The webhook payload exceeds the configured limit.'' (hx_request_id r) False)
          else Inr (take (Suc max_ingress_body) body))"

definition write_ingest_result :: "string \<Rightarrow> ingest_result res \<Rightarrow> reply" where
  "write_ingest_result rid r =
     (case r of Inl e \<Rightarrow> ReplyProblem (problem_of_error rid e)
      | Inr x \<Rightarrow> if \<not> ir_accepted x
          then ReplyProblem (new_problem 401 ''invalid_signature'' ''Invalid webhook signature''
                 ''Webhook evidence was captured, but the signature did not verify.'' rid False)
          else ReplyReceived (ir_event x) (ir_dedupe x \<noteq> ''unique''))"

definition ingest_request_of :: "http_in \<Rightarrow> string \<Rightarrow> string \<Rightarrow> string \<Rightarrow> string \<Rightarrow> ingest_request" where
  "ingest_request_of r tenant source_id provider body = \<lparr> iq_tenant = tenant, iq_source = source_id, iq_provider = provider,
     iq_body = body, iq_headers = hx_headers r, iq_content_type = hx_content_type r, iq_remote_ip = hx_remote r \<rparr>"

definition string_field :: "(string \<Rightarrow> json option) \<Rightarrow> string list \<Rightarrow> string \<Rightarrow> string \<Rightarrow> string" where
  "string_field decode ks raw k = (case Option.bind (decode raw) (unmarshal_strings ks) of
     None \<Rightarrow> [] | Some vs \<Rightarrow> (case map_of vs k of Some v \<Rightarrow> v | None \<Rightarrow> []))"

definition product_source_id :: "(string \<Rightarrow> json option) \<Rightarrow> string \<Rightarrow> string" where
  "product_source_id decode raw = trim_space (string_field decode [''source_id''] raw ''source_id'')"

definition slack_challenge :: "(string \<Rightarrow> json option) \<Rightarrow> string \<Rightarrow> string" where
  "slack_challenge decode raw =
     (if string_field decode [''type'', ''challenge''] raw ''type'' \<noteq> ''url_verification'' then []
      else trim_space (string_field decode [''type'', ''challenge''] raw ''challenge''))"

definition documented_provider_path :: "string \<Rightarrow> bool" where
  "documented_provider_path name \<longleftrightarrow>
     to_lower name \<in> {''stripe'', ''github'', ''shopify'', ''slack'', ''cloudevents'', ''generic-jwt''}"

definition ingest_product_event ::
    "ingest_env \<Rightarrow> faults \<Rightarrow> gotime \<Rightarrow> gotime \<Rightarrow> capture_ids \<Rightarrow> 'a ingest_db_scheme \<times> objects \<Rightarrow> actor \<Rightarrow> http_in \<Rightarrow>
     (('a ingest_db_scheme \<times> objects) \<times> reply) option" where
  "ingest_product_event env f now wall ids s act r =
     (case read_limited_body r of Inl p \<Rightarrow> Some (s, ReplyProblem p)
      | Inr body \<Rightarrow>
          let source_id = product_source_id (nl_decode (ie_norm env)) body in
          if source_id = [] then Some (s, ReplyProblem (problem_bad_request (hx_request_id r) ''validation_error''
                ''Product event body must include source_id.''))
          else if actor_source act \<noteq> [] \<and> actor_source act \<noteq> source_id
          then Some (s, ReplyProblem (problem_forbidden (hx_request_id r)))
          else map_option (\<lambda>(s', x). (s', case x of Inl e \<Rightarrow> ReplyProblem (problem_of_error (hx_request_id r) e)
                  | Inr v \<Rightarrow> ReplyIngested v))
            (ingest env f now wall ids s (ingest_request_of r (actor_tenant act) source_id ''internal'' body)))"

definition ingest_generic ::
    "ingest_env \<Rightarrow> faults \<Rightarrow> gotime \<Rightarrow> gotime \<Rightarrow> capture_ids \<Rightarrow> 'a ingest_db_scheme \<times> objects \<Rightarrow> http_in \<Rightarrow>
     (('a ingest_db_scheme \<times> objects) \<times> reply) option" where
  "ingest_generic env f now wall ids s r =
     (case read_limited_body r of Inl p \<Rightarrow> Some (s, ReplyProblem p)
      | Inr body \<Rightarrow> map_option (\<lambda>(s', x). (s', write_ingest_result (hx_request_id r) x))
          (ingest env f now wall ids s (ingest_request_of r (hx_tenant_param r) (hx_source_param r) ''generic-hmac'' body)))"

definition ingest_provider_name ::
    "ingest_env \<Rightarrow> faults \<Rightarrow> gotime \<Rightarrow> gotime \<Rightarrow> capture_ids \<Rightarrow> 'a ingest_db_scheme \<times> objects \<Rightarrow> http_in \<Rightarrow> string \<Rightarrow>
     (('a ingest_db_scheme \<times> objects) \<times> reply) option" where
  "ingest_provider_name env f now wall ids s r provider =
     (case read_limited_body r of Inl p \<Rightarrow> Some (s, ReplyProblem p)
      | Inr body \<Rightarrow> map_option (\<lambda>(s', x). (s',
            let challenge = slack_challenge (nl_decode (ie_norm env)) body in
            case x of Inl e \<Rightarrow> write_ingest_result (hx_request_id r) x
            | Inr v \<Rightarrow> if ir_accepted v \<and> equal_fold provider ''slack'' \<and> challenge \<noteq> [] then ReplyChallenge challenge
                else write_ingest_result (hx_request_id r) x))
          (ingest_provider_path env f now wall ids s provider (hx_source_param r)
             (ingest_request_of r [] [] provider body)))"

definition ingest_generic_or_provider ::
    "ingest_env \<Rightarrow> faults \<Rightarrow> gotime \<Rightarrow> gotime \<Rightarrow> capture_ids \<Rightarrow> 'a ingest_db_scheme \<times> objects \<Rightarrow> http_in \<Rightarrow>
     (('a ingest_db_scheme \<times> objects) \<times> reply) option" where
  "ingest_generic_or_provider env f now wall ids s r =
     (if documented_provider_path (hx_tenant_param r) then ingest_provider_name env f now wall ids s r (hx_tenant_param r)
      else ingest_generic env f now wall ids s r)"

section \<open>What a capture does\<close>

lemma insert_event_Inr:
  assumes "insert_event f e db = Inr (db', x)" and "ev_id e \<noteq> []"
  shows "x = ev_id e \<and> db' = events_update (\<lambda>rows. rows @ [e]) db
      \<and> \<not> (\<exists>y \<in> set (events db). ev_tenant y = ev_tenant e \<and> ev_dedupe_key y = ev_dedupe_key e)
    \<or> x = [] \<and> db' = db"
  using assms by (auto simp: insert_event_def list_ex_iff split: option.splits if_splits)

lemma capture_normalized_keeps:
  assumes "capture_normalized jsonb f ids i eid db = Inr (db', u)"
  shows "events db' = events db" "outbox db' = outbox db" "raw_payloads db' = raw_payloads db" "receipts db' = receipts db"
    "quarantine_entries db' = quarantine_entries db"
  using assms by (auto simp: capture_normalized_def split: option.splits if_splits)

lemma capture_event_Inr:
  assumes "capture_event jsonb f now ids i db = Inr (db', eid, status)" and "cg_event ids \<noteq> []"
  shows "raw_payloads db' = raw_payloads db \<and> receipts db' = receipts db \<and> quarantine_entries db' = quarantine_entries db
    \<and> (status = ''unique'' \<and> eid = cg_event ids
         \<and> \<not> (\<exists>y \<in> set (events db). ev_tenant y = src_tenant (ci_source i) \<and> ev_dedupe_key y = ci_dedupe_key i)
         \<and> events db' = events db @ [capture_event_row ids i]
         \<and> outbox db' = outbox db @ [route_event_row now (cg_outbox ids) (src_tenant (ci_source i)) ''route_event'' eid]
       \<or> status = ''duplicate_suppressed'' \<and> events db' = events db \<and> outbox db' = outbox db
         \<and> (\<exists>e \<in> set (events db). ev_tenant e = src_tenant (ci_source i) \<and> ev_dedupe_key e = ci_dedupe_key i \<and> ev_id e = eid))"
proof -
  from assms(1) obtain db1 x where x: "insert_event f (capture_event_row ids i) db = Inr (db1, x)"
    and r: "(if x = []
     then bind_tx (read_tx (\<lambda>db. query_row f ''select_event'' (filter (\<lambda>e. ev_tenant e = src_tenant (ci_source i)
              \<and> ev_dedupe_key e = ci_dedupe_key i) (events db)))) (\<lambda>e. return_tx (ev_id e, ''duplicate_suppressed''))
     else then_tx (capture_normalized jsonb f ids i x)
          (then_tx (insert_row f ''insert_outbox'' ob_id outbox outbox_update
              (route_event_row now (cg_outbox ids) (src_tenant (ci_source i)) ''route_event'' x))
            (return_tx (x, ''unique'')))) db1 = Inr (db', eid, status)"
    unfolding capture_event_def by (simp only: bind_tx_Inr) blast
  have "ev_id (capture_event_row ids i) \<noteq> []" using assms(2) by (simp add: capture_event_row_def)
  from insert_event_Inr [OF x this] show ?thesis
  proof (elim disjE conjE)
    assume n: "x = ev_id (capture_event_row ids i)" "db1 = events_update (\<lambda>rows. rows @ [capture_event_row ids i]) db"
      and "\<not> (\<exists>y \<in> set (events db). ev_tenant y = ev_tenant (capture_event_row ids i) \<and> ev_dedupe_key y = ev_dedupe_key (capture_event_row ids i))"
    moreover from n(1) have "x = cg_event ids" "x \<noteq> []" using assms(2) by (simp_all add: capture_event_row_def)
    moreover from this r obtain db2 where c: "capture_normalized jsonb f ids i x db1 = Inr (db2, ())"
      and "db' = outbox_update (\<lambda>rows. rows @ [route_event_row now (cg_outbox ids) (src_tenant (ci_source i)) ''route_event'' x]) db2"
      and "eid = x" "status = ''unique''" by auto
    moreover note capture_normalized_keeps [OF c]
    ultimately show ?thesis by (simp add: capture_event_row_def)
  next
    assume "x = []" "db1 = db"
    with r show ?thesis by (auto dest!: query_row_in)
  qed
qed

lemma capture_dedupe_keeps:
  assumes "capture_dedupe f now ids i eid status db = Inr (db', u)"
  shows "events db' = events db" "outbox db' = outbox db" "raw_payloads db' = raw_payloads db" "receipts db' = receipts db"
    "quarantine_entries db' = quarantine_entries db"
  using assms by (auto simp: capture_dedupe_def Let_def split: if_splits)

definition receipt_of :: "capture_ids \<Rightarrow> capture_input \<Rightarrow> string \<Rightarrow> receipt_row" where
  "receipt_of ids i eid = \<lparr> rc_id = cg_receipt ids, rc_tenant = src_tenant (ci_source i), rc_source = src_id (ci_source i),
     rc_event = eid, rc_raw_payload = cg_raw ids, rc_headers = ci_headers i, rc_remote_ip = ci_remote_ip i,
     rc_verified = ci_verified i, rc_reason = ci_reason i, rc_received_at = ci_now i \<rparr>"

lemma capture_rest_Inr:
  assumes "capture_rest jsonb f now ids i db = Inr (db', r)"
  obtains db1 where "capture_event jsonb f now ids i db = Inr (db1, cr_event r, cr_dedupe r)"
    and "events db' = events db1" and "outbox db' = outbox db1" and "receipts db' = receipts db1 @ [receipt_of ids i (cr_event r)]"
    and "raw_payloads db' = update_where (\<lambda>x. rw_id x = cg_raw ids) (\<lambda>x. x\<lparr>rw_event := Some (cr_event r)\<rparr>) (raw_payloads db1)"
    and "quarantine_entries db' = quarantine_entries db1 @ (if ci_verified i then [] else
       [\<lparr> qu_id = cg_quarantine ids, qu_tenant = src_tenant (ci_source i), qu_event = cr_event r, qu_reason = ci_reason i, qu_state = ''open'' \<rparr>])"
    and "cr_receipt r = cg_receipt ids" and "cr_raw r = cg_raw ids"
proof -
  from assms obtain db1 eid st db4 db5 where e: "capture_event jsonb f now ids i db = Inr (db1, eid, st)"
    and d: "capture_dedupe f now ids i eid st (receipts_update (\<lambda>rows. rows @ [receipt_of ids i eid])
       (raw_payloads_update (update_where (\<lambda>x. rw_id x = cg_raw ids) (\<lambda>x. x\<lparr>rw_event := Some eid\<rparr>)) db1)) = Inr (db4, ())"
    and q: "(if ci_verified i then return_tx ()
        else insert_row f ''insert_quarantine'' qu_id quarantine_entries quarantine_entries_update
          \<lparr> qu_id = cg_quarantine ids, qu_tenant = src_tenant (ci_source i), qu_event = eid, qu_reason = ci_reason i,
            qu_state = ''open'' \<rparr>) db4 = Inr (db5, ())"
    and r: "db' = db5" "r = \<lparr> cr_event = eid, cr_receipt = cg_receipt ids, cr_raw = cg_raw ids, cr_dedupe = st \<rparr>"
    unfolding capture_rest_def
    by (simp only: bind_tx_Inr then_tx_Inr split: prod.splits) (auto simp: receipt_of_def)
  note k = capture_dedupe_keeps [OF d]
  show ?thesis
    using e k q r by (intro that [of db1]) (auto split: if_splits)
qed

lemma capture_inbound_committed:
  assumes "capture_inbound jsonb f now bucket ids i (db, objs) = ((db', objs'), Inr r)"
  obtains st body db1 db2 where
    "prepare_raw_payload_storage f bucket (src_tenant (ci_source i)) (cg_raw ids) (ci_sha256 i) (ci_body i) objs = (objs', Inr (st, body))"
    and "capture_tenant f (src_tenant (ci_source i)) db = Inr (db1, ())"
    and "capture_raw f ids st body i db1 = Inr (db2, ())" and "capture_rest jsonb f now ids i db2 = Inr (db', r)"
  using assms unfolding capture_inbound_def Let_def
  by (auto split: prod.splits sum.splits option.splits)

lemma capture_inbound_failed:
  assumes "capture_inbound jsonb f now bucket ids i (db, objs) = ((db', objs'), Inl e)"
  shows "db' = db"
  using assms unfolding capture_inbound_def Let_def
  by (auto split: prod.splits sum.splits option.splits)

section \<open>Evidence\<close>

text \<open>The bytes behind a row of \<open>raw_payloads\<close>, in the table or in the object store.\<close>

definition stored_body :: "objects \<Rightarrow> raw_payload_row \<Rightarrow> string option" where
  "stored_body objs r = (if rw_backend r = ''s3'' then map_of objs (rw_bucket r, rw_key r) else Some (rw_body r))"

definition evidence_kept ::
    "'a ingest_db_scheme \<times> objects \<Rightarrow> capture_ids \<Rightarrow> string \<Rightarrow> string \<Rightarrow> string \<Rightarrow> string \<Rightarrow> bool" where
  "evidence_kept s ids tenant hash body eid \<longleftrightarrow>
     (\<exists>r \<in> set (raw_payloads (fst s)). rw_id r = cg_raw ids \<and> rw_tenant r = tenant \<and> rw_sha256 r = hash
        \<and> rw_event r = Some eid \<and> rw_status r = ''stored'' \<and> stored_body (snd s) r = Some body)
     \<and> (\<exists>c \<in> set (receipts (fst s)). rc_id c = cg_receipt ids \<and> rc_tenant c = tenant \<and> rc_event c = eid \<and> rc_raw_payload c = cg_raw ids)
     \<and> (\<exists>e \<in> set (events (fst s)). ev_id e = eid \<and> ev_tenant e = tenant)"

lemma prepare_storage_body:
  assumes "prepare_raw_payload_storage f bucket t rid hash body objs = (objs', Inr (st, body_for_db))"
  shows "stored_body objs' \<lparr> rw_id = a, rw_tenant = b, rw_event = c, rw_sha256 = d, rw_content_type = e, rw_size = n,
     rw_body = body_for_db, rw_backend = rs_backend st, rw_bucket = rs_bucket st, rw_key = rs_key st, rw_status = g, rw_created_at = h \<rparr> = Some body"
  using assms by (auto simp: prepare_raw_payload_storage_def stored_body_def put_object_def Let_def split: option.splits)

lemma capture_keeps_evidence:
  assumes "capture_inbound jsonb f now bucket ids i (db, objs) = ((db', objs'), Inr r)" and "cg_event ids \<noteq> []"
  shows "evidence_kept (db', objs') ids (src_tenant (ci_source i)) (ci_sha256 i) (ci_body i) (cr_event r)"
    and "cr_dedupe r = ''unique'' \<and> cr_event r = cg_event ids
         \<and> \<not> (\<exists>y \<in> set (events db). ev_tenant y = src_tenant (ci_source i) \<and> ev_dedupe_key y = ci_dedupe_key i)
         \<and> events db' = events db @ [capture_event_row ids i]
         \<and> outbox db' = outbox db @ [route_event_row now (cg_outbox ids) (src_tenant (ci_source i)) ''route_event'' (cr_event r)]
       \<or> cr_dedupe r = ''duplicate_suppressed'' \<and> events db' = events db \<and> outbox db' = outbox db
         \<and> (\<exists>e \<in> set (events db). ev_tenant e = src_tenant (ci_source i) \<and> ev_dedupe_key e = ci_dedupe_key i \<and> ev_id e = cr_event r)"
    and "receipts db' = receipts db @ [receipt_of ids i (cr_event r)]"
    and "quarantine_entries db' = quarantine_entries db @ (if ci_verified i then [] else
       [\<lparr> qu_id = cg_quarantine ids, qu_tenant = src_tenant (ci_source i), qu_event = cr_event r, qu_reason = ci_reason i, qu_state = ''open'' \<rparr>])"
proof -
  from assms(1) obtain st body db1 db2 where
    p: "prepare_raw_payload_storage f bucket (src_tenant (ci_source i)) (cg_raw ids) (ci_sha256 i) (ci_body i) objs = (objs', Inr (st, body))"
    and t: "capture_tenant f (src_tenant (ci_source i)) db = Inr (db1, ())"
    and w: "capture_raw f ids st body i db1 = Inr (db2, ())" and c: "capture_rest jsonb f now ids i db2 = Inr (db', r)"
    by (rule capture_inbound_committed)
  have k1: "events db1 = events db" "outbox db1 = outbox db" "receipts db1 = receipts db" "quarantine_entries db1 = quarantine_entries db"
    using t by (auto simp: capture_tenant_def)
  let ?raw = "\<lparr> rw_id = cg_raw ids, rw_tenant = src_tenant (ci_source i), rw_event = None, rw_sha256 = ci_sha256 i,
       rw_content_type = ci_content_type i, rw_size = int (length (ci_body i)), rw_body = body,
       rw_backend = rs_backend st, rw_bucket = rs_bucket st, rw_key = rs_key st, rw_status = ''stored'', rw_created_at = ci_now i \<rparr>"
  have k2: "events db2 = events db" "outbox db2 = outbox db" "receipts db2 = receipts db" "quarantine_entries db2 = quarantine_entries db"
    "raw_payloads db2 = raw_payloads db1 @ [?raw]"
    using w k1 by (auto simp: capture_raw_def)
  from c obtain db3 where e: "capture_event jsonb f now ids i db2 = Inr (db3, cr_event r, cr_dedupe r)"
    and k3: "events db' = events db3" "outbox db' = outbox db3" "receipts db' = receipts db3 @ [receipt_of ids i (cr_event r)]"
    "raw_payloads db' = update_where (\<lambda>x. rw_id x = cg_raw ids) (\<lambda>x. x\<lparr>rw_event := Some (cr_event r)\<rparr>) (raw_payloads db3)"
    "quarantine_entries db' = quarantine_entries db3 @ (if ci_verified i then [] else
       [\<lparr> qu_id = cg_quarantine ids, qu_tenant = src_tenant (ci_source i), qu_event = cr_event r, qu_reason = ci_reason i, qu_state = ''open'' \<rparr>])"
    by (rule capture_rest_Inr)
  note ev = capture_event_Inr [OF e assms(2)]
  show E: "cr_dedupe r = ''unique'' \<and> cr_event r = cg_event ids
         \<and> \<not> (\<exists>y \<in> set (events db). ev_tenant y = src_tenant (ci_source i) \<and> ev_dedupe_key y = ci_dedupe_key i)
         \<and> events db' = events db @ [capture_event_row ids i]
         \<and> outbox db' = outbox db @ [route_event_row now (cg_outbox ids) (src_tenant (ci_source i)) ''route_event'' (cr_event r)]
       \<or> cr_dedupe r = ''duplicate_suppressed'' \<and> events db' = events db \<and> outbox db' = outbox db
         \<and> (\<exists>e \<in> set (events db). ev_tenant e = src_tenant (ci_source i) \<and> ev_dedupe_key e = ci_dedupe_key i \<and> ev_id e = cr_event r)"
    using ev k2 k3 by simp
  show R: "receipts db' = receipts db @ [receipt_of ids i (cr_event r)]" using ev k2 k3 by simp
  show "quarantine_entries db' = quarantine_entries db @ (if ci_verified i then [] else
       [\<lparr> qu_id = cg_quarantine ids, qu_tenant = src_tenant (ci_source i), qu_event = cr_event r, qu_reason = ci_reason i, qu_state = ''open'' \<rparr>])"
    using ev k2 k3 by simp
  have "?raw\<lparr>rw_event := Some (cr_event r)\<rparr> \<in> set (raw_payloads db')"
    using ev k2(5) k3(4) by (simp add: update_where_def)
  moreover have "stored_body objs' (?raw\<lparr>rw_event := Some (cr_event r)\<rparr>) = Some (ci_body i)"
    using prepare_storage_body [OF p] by simp
  ultimately have "\<exists>x \<in> set (raw_payloads db'). rw_id x = cg_raw ids \<and> rw_tenant x = src_tenant (ci_source i) \<and> rw_sha256 x = ci_sha256 i
        \<and> rw_event x = Some (cr_event r) \<and> rw_status x = ''stored'' \<and> stored_body objs' x = Some (ci_body i)"
    by (intro bexI [of _ "?raw\<lparr>rw_event := Some (cr_event r)\<rparr>"]) simp_all
  moreover have "\<exists>e \<in> set (events db'). ev_id e = cr_event r \<and> ev_tenant e = src_tenant (ci_source i)"
    using E by (auto simp: capture_event_row_def)
  moreover have "\<exists>c \<in> set (receipts db'). rc_id c = cg_receipt ids \<and> rc_tenant c = src_tenant (ci_source i) \<and> rc_event c = cr_event r \<and> rc_raw_payload c = cg_raw ids"
    unfolding R by (simp add: receipt_of_def)
  ultimately show "evidence_kept (db', objs') ids (src_tenant (ci_source i)) (ci_sha256 i) (ci_body i) (cr_event r)"
    by (simp add: evidence_kept_def)
qed

lemma capture_request_fields:
  assumes "capture_request env src req (a, d) now = Some i"
  shows "ci_source i = src" "ci_body i = iq_body req" "ci_sha256 i = hash_sha256 (ie_norm env) (iq_body req)"
    "ci_verified i = pv_verified (verify_secrets (ie_provider env) a (iq_body req) (canonical_headers (iq_headers req)) now
       (source_secrets src) \<lparr> pv_verified = False, pv_reason = ''missing_signature'', pv_provider = [], pv_timestamp = 0 \<rparr>)"
    "ci_dedupe_key i = dedupe_key src (fst (capture_metadata env src d (iq_body req) (canonical_headers (iq_headers req))))
       (hash_sha256 (ie_norm env) (iq_body req))"
  using assms
  by (auto simp: capture_request_def Let_def split: prod.splits if_splits option.splits sum.splits)

lemma verify_secrets_sound:
  assumes "pv_verified (verify_secrets lib a raw hs now ss prev)" and "\<not> pv_verified prev"
  shows "\<exists>s \<in> set ss. pv_verified (adapter_verify lib a \<lparr> vi_raw_body = raw, vi_headers = hs, vi_secret = s, vi_now = now \<rparr>)"
  using assms by (induction ss arbitrary: prev) (auto simp: Let_def split: if_splits)

section \<open>From the request to the capture\<close>

lemma service_capture_cases:
  assumes "service_capture env f now wall ids (db, objs) src req = Some ((db', objs'), x)"
  obtains (refused) e where "x = Inl e" and "db' = db"
  | (captured) i r where "capture_request env src req (choose_adapter env f db src) wall = Some i"
      and "capture_inbound (ie_jsonb env) f now (ie_bucket env) ids i (db, objs) = ((db', objs'), Inr r)"
      and "x = Inr \<lparr> ir_accepted = (ci_verified i \<or> src_adapter src = ''cloudevents''), ir_event = cr_event r,
               ir_receipt = cr_receipt r, ir_raw = cr_raw r, ir_trace = [], ir_reason = ci_reason i, ir_dedupe = cr_dedupe r \<rparr>"
proof (cases "src_state src \<noteq> [] \<and> src_state src \<noteq> ''active''")
  case True
  then show ?thesis using assms by (intro refused) (auto simp: service_capture_def)
next
  case False
  with assms obtain i where i: "capture_request env src req (choose_adapter env f db src) wall = Some i"
    and c: "(case capture_inbound (ie_jsonb env) f now (ie_bucket env) ids i (db, objs) of
             (s', Inl e) \<Rightarrow> (s', Inl e)
           | (s', Inr r) \<Rightarrow> (s', Inr \<lparr> ir_accepted = (ci_verified i \<or> src_adapter src = ''cloudevents''), ir_event = cr_event r,
               ir_receipt = cr_receipt r, ir_raw = cr_raw r, ir_trace = [], ir_reason = ci_reason i, ir_dedupe = cr_dedupe r \<rparr>))
         = ((db', objs'), x)"
    by (auto simp: service_capture_def)
  show ?thesis
  proof (cases "capture_inbound (ie_jsonb env) f now (ie_bucket env) ids i (db, objs)")
    case (Pair s' y)
    obtain d o' where s': "s' = (d, o')" by (cases s')
    show ?thesis
    proof (cases y)
      case (Inl e)
      then show ?thesis using c Pair s' capture_inbound_failed by (intro refused) auto
    next
      case (Inr r)
      then show ?thesis using c Pair i by (intro captured [of i r]) auto
    qed
  qed
qed

lemma read_limited_Inr: "read_limited_body r = Inr b \<Longrightarrow> hx_body r = Some b \<and> length b \<le> max_ingress_body"
  by (auto simp: read_limited_body_def split: option.splits if_splits)

text \<open>Every ingest path ends in the service, with the body that was read.\<close>

lemma ingest_path_cases:
  assumes "ingest_generic_or_provider env f now wall ids (db, objs) r = Some ((db', objs'), rep)"
  obtains (unread) p where "rep = ReplyProblem p" and "db' = db" and "pb_status p \<noteq> 401"
  | (served) p src req x where "find_source_where (ie_dec env) f now db p = Inr src"
      and "\<And>row. p row \<Longrightarrow> so_id row = hx_source_param r"
      and "service_capture env f now wall ids (db, objs) src req = Some ((db', objs'), x)"
      and "hx_body r = Some (iq_body req)" and "iq_headers req = hx_headers r" and "length (iq_body req) \<le> max_ingress_body"
      and "rep = write_ingest_result (hx_request_id r) x \<or> (\<exists>v c. x = Inr v \<and> ir_accepted v \<and> rep = ReplyChallenge c)"
  | (no_source) e where "rep = write_ingest_result (hx_request_id r) (Inl e)" and "db' = db"
proof (cases "read_limited_body r")
  case (Inl p)
  moreover have "pb_status p \<noteq> 401" using Inl by (auto simp: read_limited_body_def split: option.splits if_splits)
  ultimately show ?thesis
    using assms by (intro unread [of p])
      (auto simp: ingest_generic_or_provider_def ingest_generic_def ingest_provider_name_def split: if_splits)
next
  case (Inr body)
  note b = read_limited_Inr [OF Inr]
  show ?thesis
  proof (cases "documented_provider_path (hx_tenant_param r)")
    case True
    let ?p = "hx_tenant_param r"
    from assms True Inr obtain x where
      p: "ingest_provider_path env f now wall ids (db, objs) ?p (hx_source_param r) (ingest_request_of r [] [] ?p body) = Some ((db', objs'), x)"
      and rep: "rep = (let challenge = slack_challenge (nl_decode (ie_norm env)) body in
            case x of Inl e \<Rightarrow> write_ingest_result (hx_request_id r) x
            | Inr v \<Rightarrow> if ir_accepted v \<and> equal_fold ?p ''slack'' \<and> challenge \<noteq> [] then ReplyChallenge challenge
                else write_ingest_result (hx_request_id r) x)"
      by (auto simp: ingest_generic_or_provider_def ingest_provider_name_def)
    show ?thesis
    proof (cases "find_source_by_provider_path (ie_dec env) f now db ?p (hx_source_param r)")
      case (Inl e)
      then show ?thesis using p rep by (intro no_source [of e]) (auto simp: ingest_provider_path_def)
    next
      case (Inr src)
      let ?req = "(ingest_request_of r [] [] ?p body)\<lparr>iq_tenant := src_tenant src, iq_source := src_id src, iq_provider := ?p\<rparr>"
      have "service_capture env f now wall ids (db, objs) src ?req = Some ((db', objs'), x)"
        using p Inr by (simp add: ingest_provider_path_def)
      then show ?thesis
        using b rep
        by (intro served [OF Inr [unfolded find_source_by_provider_path_def], of ?req x]) (auto simp: ingest_request_of_def Let_def split: sum.splits if_splits)
    qed
  next
    case False
    let ?req = "ingest_request_of r (hx_tenant_param r) (hx_source_param r) ''generic-hmac'' body"
    from assms False Inr obtain x where p: "ingest env f now wall ids (db, objs) ?req = Some ((db', objs'), x)"
      and rep: "rep = write_ingest_result (hx_request_id r) x"
      by (auto simp: ingest_generic_or_provider_def ingest_generic_def)
    show ?thesis
    proof (cases "find_source (ie_dec env) f now db (hx_tenant_param r) (hx_source_param r)")
      case (Inl e)
      then show ?thesis using p rep by (intro no_source [of e]) (auto simp: ingest_def ingest_request_of_def)
    next
      case (Inr src)
      then have "service_capture env f now wall ids (db, objs) src ?req = Some ((db', objs'), x)"
        using p by (simp add: ingest_def ingest_request_of_def)
      then show ?thesis
        using b rep by (intro served [OF Inr [unfolded find_source_def], of ?req x]) (auto simp: ingest_request_of_def)
    qed
  qed
qed

lemma find_source_where_Inr:
  assumes "find_source_where dec f now db p = Inr src"
  obtains row where "row \<in> set (sources db)" and "p row" and "src_id src = so_id row" and "src_tenant src = so_tenant row"
    and "src_adapter src = so_adapter row" and "src_state src = so_state row"
    and "source_verification_secrets dec f now db (so_tenant row) (so_id row) (so_secret row) = Inr (src_secrets src)"
  using assms unfolding find_source_where_def by (auto dest!: query_row_in)

lemma write_ingest_received:
  "write_ingest_result rid x = ReplyReceived eid dup \<longleftrightarrow>
   (\<exists>v. x = Inr v \<and> ir_accepted v \<and> ir_event v = eid \<and> dup = (ir_dedupe v \<noteq> ''unique''))"
  "write_ingest_result rid x \<noteq> ReplyChallenge c" "write_ingest_result rid x \<noteq> ReplyIngested w"
  by (auto simp: write_ingest_result_def split: sum.splits if_splits)

section \<open>Properties\<close>


definition sample_ingest_db :: ingest_db where
  "sample_ingest_db = \<lparr> audit_events = [], chain_entries = [], chain_heads = [], chain_anchors = [],
     worker_leases = [], retention_run_items = [], tenants = [''t''], raw_payloads = [], events = [], receipts = [],
     normalized_envelopes = [], outbox = [], dedupe_records = [], idempotency_records = [], quarantine_entries = [],
     adapter_versions = [], sources = [\<lparr> so_id = ''s'', so_tenant = ''t'', so_name = ''n'', so_provider = ''github'',
       so_adapter = ''github'', so_state = ''active'', so_secret = ''k'' \<rparr>], source_secret_versions = [] \<rparr>"

definition sample_ingest_env :: ingest_env where
  "sample_ingest_env = \<lparr> ie_provider = sample_lib,
     ie_norm = \<lparr> nl_num = (\<lambda>_. ''0''), nl_sprint = (\<lambda>_. []), nl_decode = (\<lambda>_. None), nl_decode_def = (\<lambda>_. None), nl_sha = id \<rparr>,
     ie_dec = (\<lambda>_ _ c. Inr c), ie_jsonb = id, ie_bucket = None \<rparr>"

definition sample_capture_ids :: capture_ids where
  "sample_capture_ids = \<lparr> cg_event = ''e1'', cg_raw = ''r1'', cg_receipt = ''c1'', cg_outbox = ''o1'', cg_normalized = ''n1'', cg_quarantine = ''q1'' \<rparr>"

definition sample_http :: "(string \<times> string) list \<Rightarrow> http_in" where
  "sample_http hs = \<lparr> hx_body = Some ''b'', hx_headers = hs, hx_content_type = [], hx_remote = [], hx_tenant_param = ''github'',
     hx_source_param = ''s'', hx_request_id = ''rq'' \<rparr>"

definition sample_source :: source where
  "sample_source = \<lparr> src_id = ''s'', src_tenant = ''t'', src_provider = ''github'', src_adapter = ''github'', src_state = ''active'',
     src_secret = ''k'', src_secrets = [''k''] \<rparr>"

lemma sample_source_found:
  "find_source_by_provider_path (ie_dec sample_ingest_env) no_faults 9 sample_ingest_db ''github'' ''s'' = Inr sample_source"
  by (simp add: find_source_by_provider_path_def find_source_where_def sample_ingest_db_def source_verification_secrets_def
      sample_ingest_env_def query_rows_def order_by_def sample_source_def)

lemma sample_adapter: "choose_adapter env f db sample_source = (GitHubAdapter, [])"
  by (simp add: choose_adapter_def registry_adapter_def to_lower_def lower_char_def sample_source_def)

text \<open>A capture of an event that was not normalised, into empty tables.\<close>

lemma capture_inbound_runs:
  assumes "events db = []" "raw_payloads db = []" "receipts db = []" "outbox db = []" "quarantine_entries db = []"
    and "normalized_envelopes db = []" "adapter_versions db = []" and "cg_event ids \<noteq> []"
  shows "\<exists>db' r. capture_inbound jsonb no_faults now None ids i (db, objs) = ((db', objs), Inr r)"
  using assms
  by (cases "ci_normalized i")
    (auto simp: capture_inbound_def prepare_raw_payload_storage_def Let_def capture_tenant_def exec_tx_def capture_raw_def
      insert_row_def try_tx_def capture_rest_def bind_tx_def then_tx_def capture_event_def insert_event_def capture_normalized_def
      return_tx_def read_tx_def lookup_adapter_version_id_def query_row_def order_by_def update_rows_def capture_dedupe_def capture_event_row_def)

lemma sample_http_read: "read_limited_body (sample_http hs) = Inr ''b''"
  by (simp add: read_limited_body_def sample_http_def max_ingress_body_def)

lemma sample_runs:
  assumes "capture_request sample_ingest_env sample_source (ingest_request_of (sample_http hs) ''t'' ''s'' ''github'' ''b'') (GitHubAdapter, []) 9 = Some i"
  shows "\<exists>s' rep. ingest_generic_or_provider sample_ingest_env no_faults 9 9 sample_capture_ids (sample_ingest_db, []) (sample_http hs) = Some (s', rep)
     \<and> (if ci_verified i then (\<exists>e d. rep = ReplyReceived e d) else (\<exists>p. rep = ReplyProblem p \<and> pb_status p = 401))
     \<and> (\<exists>r. capture_inbound id no_faults 9 None sample_capture_ids i (sample_ingest_db, []) = (s', Inr r))"
proof -
  obtain db' c where c: "capture_inbound id no_faults 9 None sample_capture_ids i (sample_ingest_db, []) = ((db', []), Inr c)"
    using capture_inbound_runs [of sample_ingest_db sample_capture_ids id 9 i "[]"]
    by (auto simp: sample_ingest_db_def sample_capture_ids_def)
  have p: "documented_provider_path ''github''" by (simp add: documented_provider_path_def to_lower_def lower_char_def)
  have sl: "\<not> equal_fold ''github'' ''slack''" by (simp add: equal_fold_def to_lower_def lower_char_def)
  have env: "ie_jsonb sample_ingest_env = id" "ie_bucket sample_ingest_env = None" by (simp_all add: sample_ingest_env_def)
  have path: "hx_tenant_param (sample_http hs) = ''github''" "hx_source_param (sample_http hs) = ''s''" by (simp_all add: sample_http_def)
  have req: "(ingest_request_of (sample_http hs) [] [] ''github'' ''b'')\<lparr>iq_tenant := src_tenant sample_source, iq_source := src_id sample_source, iq_provider := ''github''\<rparr>
      = ingest_request_of (sample_http hs) ''t'' ''s'' ''github'' ''b''"
    by (simp add: ingest_request_of_def sample_source_def)
  have a: "src_adapter sample_source = ''github''" "src_state sample_source = ''active''" by (simp_all add: sample_source_def)
  show ?thesis
    by (simp add: ingest_generic_or_provider_def path p ingest_provider_name_def sample_http_read ingest_provider_path_def
        sample_source_found req service_capture_def a sample_adapter assms env c write_ingest_result_def sl Let_def)
qed

lemma sample_unsigned:
  "\<exists>i. capture_request sample_ingest_env sample_source (ingest_request_of (sample_http []) ''t'' ''s'' ''github'' ''b'') (GitHubAdapter, []) 9 = Some i
     \<and> \<not> ci_verified i"
  by (simp add: capture_request_def Let_def sample_http_def ingest_request_of_def canonical_headers_def source_secrets_def sample_source_def
      adapter_verify_def github_verify_def result_def sample_ingest_env_def split: prod.splits)



lemma capture_request_verified:
  assumes "pv_verified (verify_secrets (ie_provider env) a (iq_body req) (canonical_headers (iq_headers req)) now (source_secrets src)
     \<lparr> pv_verified = False, pv_reason = ''missing_signature'', pv_provider = [], pv_timestamp = 0 \<rparr>)"
  shows "\<exists>i. capture_request env src req (a, []) now = Some i \<and> ci_verified i"
proof -
  obtain x y where m: "capture_metadata env src [] (iq_body req) (canonical_headers (iq_headers req)) = (x, y)" by fastforce
  let ?v = "verify_secrets (ie_provider env) a (iq_body req) (canonical_headers (iq_headers req)) now (source_secrets src)
     \<lparr> pv_verified = False, pv_reason = ''missing_signature'', pv_provider = [], pv_timestamp = 0 \<rparr>"
  let ?n = "\<lparr> ni_adapter = src_adapter src, ni_provider = src_provider src,
               ni_tenant_id = src_tenant src, ni_source_id = src_id src, ni_raw_body = iq_body req, ni_headers = canonical_headers (iq_headers req),
               ni_verified = pv_verified ?v, ni_verify_reason = pv_reason ?v, ni_raw_hash = hash_sha256 (ie_norm env) (iq_body req),
               ni_adapter_definition = [] \<rparr>"
  obtain n where "normalize (ie_norm env) ?n = Some (Inr n)" using normalize_builtin [of ?n "ie_norm env"] assms by auto
  then show ?thesis using assms by (simp add: capture_request_def Let_def m)
qed

lemma sample_signed:
  "\<exists>i. capture_request sample_ingest_env sample_source (ingest_request_of (sample_http [(''X-Hub-Signature-256'', ''sha256='' @ hex_encode ''kb'')]) ''t'' ''s'' ''github'' ''b'')
     (GitHubAdapter, []) 9 = Some i \<and> ci_verified i"
proof (rule capture_request_verified)
  have h: "to_lower ''X-Hub-Signature-256'' = ''x-hub-signature-256''" "to_lower ''x-hub-signature-256'' = ''x-hub-signature-256''"
    by code_simp+
  show "pv_verified (verify_secrets (ie_provider sample_ingest_env) GitHubAdapter
     (iq_body (ingest_request_of (sample_http [(''X-Hub-Signature-256'', ''sha256='' @ hex_encode ''kb'')]) ''t'' ''s'' ''github'' ''b''))
     (canonical_headers (iq_headers (ingest_request_of (sample_http [(''X-Hub-Signature-256'', ''sha256='' @ hex_encode ''kb'')]) ''t'' ''s'' ''github'' ''b'')))
     9 (source_secrets sample_source) \<lparr> pv_verified = False, pv_reason = ''missing_signature'', pv_provider = [], pv_timestamp = 0 \<rparr>)"
    by (simp add: sample_ingest_env_def ingest_request_of_def sample_http_def canonical_headers_def source_secrets_def sample_source_def
        adapter_verify_def github_verify_def h sample_lib_def cut_prefix_def verify_hex_iff result_def del: hex_encode.simps)
qed


end
