(* ===== verification/Sql_Session.thy ===== *)
theory Sql_Session
  imports Sql_Tables
begin

text \<open>
  Sequences of calls that are not one transaction. An action takes the database to the database
  and a result; unlike a transaction body it keeps what it has written when it fails later on, so
  the steps that were committed before an error stay. \<open>auto_tx\<close> is a single statement in
  autocommit mode, \<open>run_tx\<close> a whole transaction; \<open>bind_act\<close> is \<open>if err != nil { return err }\<close>
  between two calls.
\<close>

type_synonym ('s, 'a) act = "'s \<Rightarrow> 's \<times> 'a res"

definition return_act :: "'a \<Rightarrow> ('s, 'a) act" where
  "return_act a = (\<lambda>s. (s, Inr a))"

definition fail_act :: "go_error \<Rightarrow> ('s, 'a) act" where
  "fail_act e = (\<lambda>s. (s, Inl e))"

definition read_act :: "('s \<Rightarrow> 'a res) \<Rightarrow> ('s, 'a) act" where
  "read_act q = (\<lambda>s. (s, q s))"

definition bind_act :: "('s, 'a) act \<Rightarrow> ('a \<Rightarrow> ('s, 'b) act) \<Rightarrow> ('s, 'b) act" where
  "bind_act m k = (\<lambda>s. case m s of (s', Inl e) \<Rightarrow> (s', Inl e) | (s', Inr a) \<Rightarrow> k a s')"

definition then_act :: "('s, 'a) act \<Rightarrow> ('s, 'b) act \<Rightarrow> ('s, 'b) act" where
  "then_act m k = bind_act m (\<lambda>_. k)"

definition auto_tx :: "('s, 'a) tx \<Rightarrow> ('s, 'a) act" where
  "auto_tx m = (\<lambda>s. case m s of Inl e \<Rightarrow> (s, Inl e) | Inr (s', a) \<Rightarrow> (s', Inr a))"

lemma return_act_eq [simp]: "return_act a s = (s', r) \<longleftrightarrow> s' = s \<and> r = Inr a"
  by (auto simp: return_act_def)

lemma fail_act_eq [simp]: "fail_act e s = (s', r) \<longleftrightarrow> s' = s \<and> r = Inl e"
  by (auto simp: fail_act_def)

lemma read_act_eq [simp]: "read_act q s = (s', r) \<longleftrightarrow> s' = s \<and> r = q s"
  by (auto simp: read_act_def)

lemma bind_act_Inr [simp]:
  "bind_act m k s = (s', Inr b) \<longleftrightarrow> (\<exists>s1 a. m s = (s1, Inr a) \<and> k a s1 = (s', Inr b))"
  by (auto simp: bind_act_def split: prod.splits sum.splits)

lemma bind_act_Inl:
  "bind_act m k s = (s', Inl e) \<longleftrightarrow> m s = (s', Inl e) \<or> (\<exists>s1 a. m s = (s1, Inr a) \<and> k a s1 = (s', Inl e))"
  by (auto simp: bind_act_def split: prod.splits sum.splits)

lemma then_act_Inr [simp]:
  "then_act m k s = (s', Inr b) \<longleftrightarrow> (\<exists>s1 a. m s = (s1, Inr a) \<and> k s1 = (s', Inr b))"
  by (simp add: then_act_def)

lemma auto_tx_Inr [simp]: "auto_tx m s = (s', Inr a) \<longleftrightarrow> m s = Inr (s', a)"
  by (auto simp: auto_tx_def split: sum.splits)

lemma auto_tx_Inl [simp]: "auto_tx m s = (s', Inl e) \<longleftrightarrow> m s = Inl e \<and> s' = s"
  by (auto simp: auto_tx_def split: sum.splits)

lemma bind_act_cong_read: "bind_act (read_act q) k s = (case q s of Inl e \<Rightarrow> (s, Inl e) | Inr a \<Rightarrow> k a s)"
  by (simp add: bind_act_def read_act_def)

section \<open>Invariants of actions\<close>

text \<open>An action keeps a predicate when every run does, with or without an error.\<close>

definition act_keeps :: "('s \<Rightarrow> bool) \<Rightarrow> ('s, 'a) act \<Rightarrow> bool" where
  "act_keeps I m \<longleftrightarrow> (\<forall>s. I s \<longrightarrow> I (fst (m s)))"

named_theorems act_intros \<open>preservation rules of actions\<close>

lemma act_keepsD: "act_keeps I m \<Longrightarrow> I s \<Longrightarrow> I (fst (m s))"
  by (simp add: act_keeps_def)

lemma act_keeps_step: "act_keeps I m \<Longrightarrow> I s \<Longrightarrow> m s = (s', r) \<Longrightarrow> I s'"
  by (auto simp: act_keeps_def)

lemma act_keeps_return [act_intros]: "act_keeps I (return_act a)"
  by (simp add: act_keeps_def return_act_def)

lemma act_keeps_fail [act_intros]: "act_keeps I (fail_act e)"
  by (simp add: act_keeps_def fail_act_def)

lemma act_keeps_read [act_intros]: "act_keeps I (read_act q)"
  by (simp add: act_keeps_def read_act_def)

lemma act_keeps_auto [act_intros]: "tx_preserves I m \<Longrightarrow> act_keeps I (auto_tx m)"
  by (auto simp: act_keeps_def auto_tx_def split: sum.splits dest: tx_preservesD)

lemma act_keeps_run [act_intros]: "tx_preserves I m \<Longrightarrow> act_keeps I (run_tx f m)"
  by (simp add: act_keeps_def run_tx_preserves)

lemma act_keeps_bind [act_intros]:
  assumes "act_keeps I m" and "\<And>a. act_keeps I (k a)"
  shows "act_keeps I (bind_act m k)"
  using assms by (auto simp: act_keeps_def bind_act_def split: prod.splits sum.splits)

lemma act_keeps_read_bind:
  assumes "\<And>s a. I s \<Longrightarrow> q s = Inr a \<Longrightarrow> I (fst (k a s))"
  shows "act_keeps I (bind_act (read_act q) k)"
  using assms by (auto simp: act_keeps_def bind_act_cong_read split: sum.splits)

lemma act_keeps_then [act_intros]: "act_keeps I m \<Longrightarrow> act_keeps I k \<Longrightarrow> act_keeps I (then_act m k)"
  unfolding then_act_def by (rule act_keeps_bind)

lemma act_keeps_if [act_intros]:
  "(b \<Longrightarrow> act_keeps I m) \<Longrightarrow> (\<not> b \<Longrightarrow> act_keeps I k) \<Longrightarrow> act_keeps I (if b then m else k)"
  by simp

lemma act_keeps_case_prod [act_intros]:
  "(\<And>a b. act_keeps I (k a b)) \<Longrightarrow> act_keeps I (case p of (a, b) \<Rightarrow> k a b)"
  by (cases p) simp

lemma act_keeps_case_option [act_intros]:
  "act_keeps I m \<Longrightarrow> (\<And>a. act_keeps I (k a)) \<Longrightarrow> act_keeps I (case p of None \<Rightarrow> m | Some a \<Rightarrow> k a)"
  by (cases p) simp_all

end
