(* ===== verification/Delivery_Fanout.thy ===== *)
theory Delivery_Fanout
  imports Delivery_Attempts Json_Transform Sql_Session
begin

text \<open>
  From an event to its deliveries: the outbox of internal/adapters/postgres/store.go
  (\<open>ClaimOutbox\<close>, \<open>CompleteOutbox\<close>, \<open>enqueueRouteEvent\<close>), the targets of an event, and
  \<open>CreateDeliverySnapshot\<close> with the payload it materialises or clones, together with the fan-out
  of internal/app/delivery_fanout.go. Every delivery is created in a transaction of its own, so a
  fan-out that fails keeps the deliveries it has made. Each of these transactions has its own
  choice of failing statements, generated identifiers and clock, the functions of \<open>fanout_run\<close>;
  the JSON parser, the text of numbers and SHA-256 are the arguments of \<open>fanout_env\<close>.
\<close>

section \<open>Model: the outbox\<close>

record outbox_item =
  oi_id :: string
  oi_tenant :: string
  oi_kind :: string
  oi_resource :: string

definition outbox_item_of :: "outbox_row \<Rightarrow> outbox_item" where
  "outbox_item_of o1 = \<lparr> oi_id = ob_id o1, oi_tenant = ob_tenant o1, oi_kind = ob_kind o1, oi_resource = ob_resource o1 \<rparr>"

definition outbox_priority :: "outbox_row \<Rightarrow> int" where
  "outbox_priority o1 = (if ob_kind o1 = ''route_event'' \<or> ob_kind o1 = ''route_recovered_event'' then 0
     else if ob_kind o1 = ''replay_job'' then 1 else 2)"

definition outbox_due :: "gotime \<Rightarrow> outbox_row \<Rightarrow> bool" where
  "outbox_due now o1 \<longleftrightarrow> ob_state o1 = ''pending'' \<and> ob_available_at o1 \<le> now"

definition outbox_lock_expired :: "gotime \<Rightarrow> outbox_row \<Rightarrow> bool" where
  "outbox_lock_expired now o1 \<longleftrightarrow> ob_state o1 = ''in_progress''
     \<and> (case ob_lock_expires o1 of None \<Rightarrow> False | Some t \<Rightarrow> t \<le> now)"

definition outbox_unlock :: "string \<Rightarrow> outbox_row \<Rightarrow> outbox_row" where
  "outbox_unlock state o1 = o1\<lparr>ob_state := state, ob_locked_by := None, ob_lock_expires := None\<rparr>"

definition outbox_lock :: "gotime \<Rightarrow> string \<Rightarrow> outbox_row \<Rightarrow> outbox_row" where
  "outbox_lock now worker_id o1 = o1\<lparr>ob_state := ''in_progress'', ob_locked_by := Some worker_id,
     ob_lock_expires := Some (now + ns_minute)\<rparr>"

definition outbox_claim_ids :: "gotime \<Rightarrow> (string \<Rightarrow> bool) \<Rightarrow> nat \<Rightarrow> 'a ingest_db_scheme \<Rightarrow> string list" where
  "outbox_claim_ids now locked lmt db =
     claim_ids outbox_priority ob_tenant ob_available_at ob_id locked lmt (filter (outbox_due now) (outbox db))"

definition claim_outbox ::
    "faults \<Rightarrow> gotime \<Rightarrow> (string \<Rightarrow> bool) \<Rightarrow> string \<Rightarrow> nat \<Rightarrow> ('a ingest_db_scheme, outbox_item list) act" where
  "claim_outbox f now locked worker_id lmt = run_tx f
     (then_tx (upsert_worker_lease f now worker_id)
     (then_tx (update_rows f ''release_outbox'' outbox_update (outbox_lock_expired now) (outbox_unlock ''pending''))
     (try_tx f ''claim_outbox'' (\<lambda>db.
        let chosen = (\<lambda>o1. ob_id o1 \<in> set (outbox_claim_ids now locked lmt db)) in
        Inr (outbox_update (update_where chosen (outbox_lock now worker_id)) db,
             map outbox_item_of (filter chosen (outbox db)))))))"

definition complete_outbox :: "faults \<Rightarrow> string \<Rightarrow> ('a ingest_db_scheme, unit) act" where
  "complete_outbox f outbox_id = auto_tx (update_rows f ''complete_outbox'' outbox_update
     (\<lambda>o1. ob_id o1 = outbox_id) (outbox_unlock ''completed''))"

definition enqueue_route_event ::
    "faults \<Rightarrow> gotime \<Rightarrow> string \<Rightarrow> string \<Rightarrow> string \<Rightarrow> bool \<Rightarrow> ('a ingest_db_scheme, unit) act" where
  "enqueue_route_event f now oid tenant event_id allow_recovered =
     auto_tx (insert_row f ''enqueue_route'' ob_id outbox outbox_update
       (route_event_row now oid tenant (if allow_recovered then ''route_recovered_event'' else ''route_event'') event_id))"

section \<open>Model: targets\<close>

definition get_event :: "faults \<Rightarrow> 'a ingest_db_scheme \<Rightarrow> string \<Rightarrow> string \<Rightarrow> event_row res" where
  "get_event f db tenant event_id = no_rows_not_found (query_row f ''get_event''
     (filter (\<lambda>e. ev_tenant e = tenant \<and> ev_id e = event_id) (events db)))"

record fanout_target =
  ft_endpoint :: string
  ft_route :: string
  ft_route_version :: string
  ft_subscription :: string
  ft_subscription_version :: string
  ft_route_policy :: string
  ft_endpoint_policy :: string
  ft_transformation :: string

definition target_retry_policy :: "fanout_target \<Rightarrow> string" where
  "target_retry_policy t = first_non_empty [ft_route_policy t, ft_endpoint_policy t]"

definition subscription_target :: "subscription_row \<Rightarrow> endpoint_row \<Rightarrow> fanout_target" where
  "subscription_target s e = \<lparr> ft_endpoint = sb_endpoint s, ft_route = [], ft_route_version = [], ft_subscription = sb_id s,
     ft_subscription_version = sb_active_version s, ft_route_policy = [], ft_endpoint_policy = ep_retry_policy e,
     ft_transformation = sb_transformation_version s \<rparr>"

definition route_target :: "route_row \<Rightarrow> endpoint_row \<Rightarrow> fanout_target" where
  "route_target r e = \<lparr> ft_endpoint = rt_endpoint r, ft_route = rt_id r, ft_route_version = rt_active_version r,
     ft_subscription = [], ft_subscription_version = [], ft_route_policy = rt_retry_policy r,
     ft_endpoint_policy = ep_retry_policy e, ft_transformation = rt_transformation_version r \<rparr>"

text \<open>\<open>JOIN endpoints e ON e.tenant_id = ... AND e.id = ...\<close>.\<close>

definition endpoints_of :: "'a delivery_db_scheme \<Rightarrow> string \<Rightarrow> string \<Rightarrow> endpoint_row list" where
  "endpoints_of db tenant endpoint_id = filter (\<lambda>e. ep_tenant e = tenant \<and> ep_id e = endpoint_id) (endpoints db)"

definition subscription_targets :: "'a delivery_db_scheme \<Rightarrow> string \<Rightarrow> string \<Rightarrow> fanout_target list" where
  "subscription_targets db tenant event_type =
     concat (map (\<lambda>s. map (subscription_target s) (endpoints_of db (sb_tenant s) (sb_endpoint s)))
       (filter (\<lambda>s. sb_tenant s = tenant \<and> sb_state s = ''active'' \<and> event_type \<in> set (sb_event_types s)) (subscriptions db)))"

definition route_targets :: "'a delivery_db_scheme \<Rightarrow> string \<Rightarrow> string \<Rightarrow> string \<Rightarrow> fanout_target list" where
  "route_targets db tenant source_id event_type =
     concat (map (\<lambda>r. map (route_target r) (endpoints_of db (rt_tenant r) (rt_endpoint r)))
       (order_by rt_priority (filter (\<lambda>r. rt_tenant r = tenant \<and> rt_source r = source_id \<and> rt_state r = ''active''
          \<and> event_type \<in> set (rt_event_types r)) (routes db))))"

definition list_delivery_fanout_targets ::
    "faults \<Rightarrow> 'a delivery_db_scheme \<Rightarrow> string \<Rightarrow> string \<Rightarrow> string \<Rightarrow> fanout_target list res" where
  "list_delivery_fanout_targets f db tenant source_id event_type =
     bind_res (query_rows f ''subscription_targets'' (subscription_targets db tenant event_type)) (\<lambda>subs.
     bind_res (query_rows f ''route_targets'' (route_targets db tenant source_id event_type)) (\<lambda>rts.
     Inr (subs @ rts)))"

section \<open>Model: delivery payloads\<close>

record fanout_env =
  fe_sha :: "string \<Rightarrow> string"
  fe_decode :: "string \<Rightarrow> json option"
  fe_decode_ops :: "string \<Rightarrow> operation list option"
  fe_num :: "rat \<Rightarrow> string"

record snapshot_ids =
  sg_delivery :: string
  sg_payload :: string
  sg_item :: string
  sg_receipt :: string

text \<open>The normalised envelope of an event: its identifier, adapter version and text.\<close>

definition payload_source ::
    "faults \<Rightarrow> 'a ingest_db_scheme \<Rightarrow> string \<Rightarrow> string \<Rightarrow> (string \<times> string \<times> string) res" where
  "payload_source f db tenant event_id =
     (case query_row f ''payload_source'' (filter (\<lambda>n. nz_tenant n = tenant \<and> nz_event n = event_id) (normalized_envelopes db)) of
        Inl ErrNoRows \<Rightarrow> bind_res (legacy_delivery_envelope f db tenant event_id) (\<lambda>env. Inr ([], [], env))
      | Inl e \<Rightarrow> Inl e
      | Inr n \<Rightarrow> if nz_status n = ''deleted'' then Inl ErrGone else Inr (nz_id n, nz_adapter_version n, nz_envelope n))"

definition payload_body ::
    "fanout_env \<Rightarrow> faults \<Rightarrow> 'a delivery_db_scheme \<Rightarrow> string \<Rightarrow> string \<Rightarrow> string \<Rightarrow> string res" where
  "payload_body env f db tenant envelope version =
     (if version = [] then Inr envelope
      else bind_res (no_rows_not_found (query_row f ''transformation'' (filter (\<lambda>v. tv_tenant v = tenant \<and> tv_id v = version)
             (transformation_versions db)))) (\<lambda>v.
           bind_res (parse_operations (fe_decode_ops env) (tv_operations v)) (\<lambda>ops.
           apply_transform (fe_decode env) (fe_num env) envelope ops)))"

text \<open>The table is keyed by its identifier, and by tenant and delivery.\<close>

definition insert_payload :: "faults \<Rightarrow> delivery_payload_row \<Rightarrow> ('a delivery_db_scheme, unit) tx" where
  "insert_payload f p = try_tx f ''insert_payload'' (\<lambda>db.
     if dp_id p \<in> dp_id ` set (delivery_payloads db)
        \<or> (dp_tenant p, dp_delivery p) \<in> (\<lambda>x. (dp_tenant x, dp_delivery x)) ` set (delivery_payloads db)
     then Inl (ErrOther ''delivery_payloads_key'')
     else Inr (delivery_payloads_update (\<lambda>ps. ps @ [p]) db, ()))"

definition linked_row :: "string \<Rightarrow> string \<Rightarrow> string \<Rightarrow> string \<Rightarrow> delivery_row \<Rightarrow> delivery_row" where
  "linked_row adapter normalized transformation payload_id d = d\<lparr>dv_adapter_version := adapter, dv_normalized := normalized,
     dv_transformation_version := transformation, dv_payload := payload_id\<rparr>"

definition link_payload ::
    "faults \<Rightarrow> string \<Rightarrow> string \<Rightarrow> string \<Rightarrow> string \<Rightarrow> string \<Rightarrow> string \<Rightarrow> ('a delivery_db_scheme, unit) tx" where
  "link_payload f tenant delivery_id adapter normalized transformation payload_id =
     update_rows f ''link_payload'' deliveries_update (\<lambda>d. dv_tenant d = tenant \<and> dv_id d = delivery_id)
       (linked_row adapter normalized transformation payload_id)"

definition materialized_row ::
    "fanout_env \<Rightarrow> string \<Rightarrow> string \<Rightarrow> string \<Rightarrow> string \<Rightarrow> string \<Rightarrow> string \<Rightarrow> string \<Rightarrow> delivery_payload_row" where
  "materialized_row env payload_id tenant delivery_id event_id normalized version body =
     \<lparr> dp_id = payload_id, dp_tenant = tenant, dp_delivery = delivery_id, dp_event = event_id,
       dp_normalized = normalized, dp_transformation_version = version, dp_content_type = ''application/json'',
       dp_sha256 = sha256_text (fe_sha env) body, dp_size = int (length body), dp_body = body, dp_status = ''stored'' \<rparr>"

text \<open>The results are the payload, the envelope, the adapter version and the transformation.\<close>

definition create_delivery_payload ::
    "fanout_env \<Rightarrow> faults \<Rightarrow> string \<Rightarrow> string \<Rightarrow> string \<Rightarrow> string \<Rightarrow> string \<Rightarrow>
     ('a delivery_db_scheme, string \<times> string \<times> string) tx" where
  "create_delivery_payload env f payload_id tenant event_id delivery_id version =
     bind_tx (read_tx (\<lambda>db. payload_source f db tenant event_id)) (\<lambda>(normalized, adapter, envelope).
     bind_tx (read_tx (\<lambda>db. payload_body env f db tenant envelope version)) (\<lambda>body.
     then_tx (insert_payload f (materialized_row env payload_id tenant delivery_id event_id normalized version body))
     (then_tx (link_payload f tenant delivery_id adapter normalized version payload_id)
     (return_tx (payload_id, normalized, adapter)))))"

definition clone_delivery_payload ::
    "fanout_env \<Rightarrow> faults \<Rightarrow> string \<Rightarrow> string \<Rightarrow> string \<Rightarrow> string \<Rightarrow>
     ('a delivery_db_scheme, string \<times> string \<times> string \<times> string) tx" where
  "clone_delivery_payload env f payload_id tenant source_payload delivery_id =
     (if source_payload = []
      then bind_tx (read_tx (\<lambda>db. query_row f ''clone_delivery'' (filter (\<lambda>d. dv_tenant d = tenant \<and> dv_id d = delivery_id)
              (deliveries db)))) (\<lambda>d.
           bind_tx (create_delivery_payload env f payload_id tenant (dv_event d) delivery_id (dv_transformation_version d))
             (\<lambda>(p, n, a). return_tx (p, n, a, dv_transformation_version d)))
      else bind_tx (not_found_tx (read_tx (\<lambda>db. query_row f ''clone_source''
              (concat (map (\<lambda>p. map (\<lambda>n. (p, n)) (left_join (\<lambda>n. nz_tenant n = dp_tenant p \<and> nz_id n = dp_normalized p)
                 (normalized_envelopes db))) (filter (\<lambda>p. dp_tenant p = tenant \<and> dp_id p = source_payload)
                 (delivery_payloads db))))))) (\<lambda>(p, n).
           let adapter = (case n of None \<Rightarrow> [] | Some r \<Rightarrow> nz_adapter_version r) in
           if dp_status p = ''deleted'' then fail_tx ErrGone
           else then_tx (insert_payload f (p\<lparr>dp_id := payload_id, dp_tenant := tenant, dp_delivery := delivery_id,
                   dp_status := ''stored''\<rparr>))
                (then_tx (link_payload f tenant delivery_id adapter (dp_normalized p) (dp_transformation_version p) payload_id)
                (return_tx (payload_id, dp_normalized p, adapter, dp_transformation_version p)))))"

definition delivery_payload_sha256 :: "faults \<Rightarrow> 'a delivery_db_scheme \<Rightarrow> string \<Rightarrow> string \<Rightarrow> string res" where
  "delivery_payload_sha256 f db tenant payload_id =
     (if payload_id = [] then Inr []
      else bind_res (no_rows_not_found (query_row f ''payload_sha'' (filter (\<lambda>p. dp_tenant p = tenant \<and> dp_id p = payload_id)
             (delivery_payloads db)))) (\<lambda>p. Inr (dp_sha256 p)))"

section \<open>Model: the delivery snapshot\<close>

record snapshot_request =
  sq_tenant :: string
  sq_event :: string
  sq_endpoint :: string
  sq_route :: string
  sq_route_version :: string
  sq_subscription :: string
  sq_subscription_version :: string
  sq_retry_policy :: string
  sq_replay_job :: string
  sq_original_delivery :: string
  sq_adapter_version :: string
  sq_normalized :: string
  sq_transformation :: string
  sq_mode :: string
  sq_source_payload :: string
  sq_retry_seed :: string
  sq_next_attempt :: gotime
  sq_config_mode :: string

record snapshot_result =
  sr_delivery :: string
  sr_payload :: string
  sr_payload_sha256 :: string
  sr_adapter_version :: string
  sr_normalized :: string
  sr_transformation :: string

definition evidence_mode :: "snapshot_request \<Rightarrow> string" where
  "evidence_mode req = (if sq_config_mode req = [] then ''current'' else sq_config_mode req)"

definition replay_item_of :: "snapshot_ids \<Rightarrow> snapshot_request \<Rightarrow> snapshot_result \<Rightarrow> replay_item_row" where
  "replay_item_of ids req res =
     \<lparr> ry_id = sg_item ids, ry_tenant = sq_tenant req, ry_job = sq_replay_job req, ry_event = sq_event req,
       ry_original_delivery = sq_original_delivery req, ry_new_delivery = sr_delivery res, ry_state = ''completed'',
       ry_config_mode = evidence_mode req, ry_route_version = sq_route_version req,
       ry_subscription_version = sq_subscription_version req, ry_retry_policy = sq_retry_policy req,
       ry_adapter_version = sr_adapter_version res, ry_normalized = sr_normalized res,
       ry_transformation_version = sr_transformation res, ry_payload = sr_payload res,
       ry_payload_sha256 = sr_payload_sha256 res, ry_error = [] \<rparr>"

definition replay_receipt_of :: "snapshot_ids \<Rightarrow> snapshot_request \<Rightarrow> snapshot_result \<Rightarrow> replay_receipt_row" where
  "replay_receipt_of ids req res =
     \<lparr> rx_id = sg_receipt ids, rx_tenant = sq_tenant req, rx_job = sq_replay_job req, rx_event = sq_event req,
       rx_delivery = (if sq_original_delivery req = [] then sr_delivery res else sq_original_delivery req),
       rx_config_mode = evidence_mode req, rx_route_version = sq_route_version req,
       rx_subscription_version = sq_subscription_version req, rx_retry_policy = sq_retry_policy req,
       rx_adapter_version = sr_adapter_version res, rx_normalized = sr_normalized res,
       rx_transformation_version = sr_transformation res, rx_payload = sr_payload res,
       rx_payload_sha256 = sr_payload_sha256 res \<rparr>"

definition insert_replay_decision_evidence ::
    "faults \<Rightarrow> snapshot_ids \<Rightarrow> snapshot_request \<Rightarrow> snapshot_result \<Rightarrow> ('a gateway_db_scheme, unit) tx" where
  "insert_replay_decision_evidence f ids req res =
     then_tx (insert_row f ''insert_replay_item'' ry_id replay_items replay_items_update (replay_item_of ids req res))
       (insert_row f ''insert_replay_receipt'' rx_id replay_receipts replay_receipts_update (replay_receipt_of ids req res))"

definition snapshot_row :: "fanout_env \<Rightarrow> gotime \<Rightarrow> string \<Rightarrow> snapshot_request \<Rightarrow> delivery_row" where
  "snapshot_row env now delivery_id req =
     \<lparr> dv_id = delivery_id, dv_tenant = sq_tenant req, dv_event = sq_event req, dv_endpoint = sq_endpoint req,
       dv_route = sq_route req, dv_route_version = sq_route_version req, dv_subscription = sq_subscription req,
       dv_subscription_version = sq_subscription_version req, dv_retry_policy = sq_retry_policy req,
       dv_replay_job = sq_replay_job req, dv_adapter_version = sq_adapter_version req, dv_normalized = sq_normalized req,
       dv_transformation_version = sq_transformation req, dv_payload = [],
       dv_retry_seed = (if sq_retry_seed req = []
          then delivery_retry_seed (fe_sha env) (sq_tenant req) delivery_id (sq_event req) (sq_endpoint req)
          else sq_retry_seed req),
       dv_state = ''scheduled'', dv_attempt_count = 0, dv_next_attempt = Some (sq_next_attempt req),
       dv_locked_by = None, dv_lock_expires = None, dv_created_at = now \<rparr>"

definition snapshot_payload ::
    "fanout_env \<Rightarrow> faults \<Rightarrow> snapshot_ids \<Rightarrow> snapshot_request \<Rightarrow> ('a delivery_db_scheme, string \<times> string \<times> string \<times> string) tx" where
  "snapshot_payload env f ids req =
     (if sq_mode req = ''clone''
      then clone_delivery_payload env f (sg_payload ids) (sq_tenant req) (sq_source_payload req) (sg_delivery ids)
      else bind_tx (create_delivery_payload env f (sg_payload ids) (sq_tenant req) (sq_event req) (sg_delivery ids)
             (sq_transformation req)) (\<lambda>(p, n, a). return_tx (p, n, a, sq_transformation req)))"

definition create_delivery_snapshot ::
    "fanout_env \<Rightarrow> faults \<Rightarrow> gotime \<Rightarrow> snapshot_ids \<Rightarrow> snapshot_request \<Rightarrow> ('a gateway_db_scheme, snapshot_result) act" where
  "create_delivery_snapshot env f now ids req = run_tx f
     (then_tx (insert_row f ''insert_delivery'' dv_id deliveries deliveries_update (snapshot_row env now (sg_delivery ids) req))
     (bind_tx (snapshot_payload env f ids req) (\<lambda>(payload_id, normalized, adapter, transformation).
     bind_tx (read_tx (\<lambda>db. delivery_payload_sha256 f db (sq_tenant req) payload_id)) (\<lambda>hash.
     let res = \<lparr> sr_delivery = sg_delivery ids, sr_payload = payload_id, sr_payload_sha256 = hash,
                 sr_adapter_version = adapter, sr_normalized = normalized, sr_transformation = transformation \<rparr> in
     if sq_replay_job req = [] then return_tx res
     else then_tx (insert_replay_decision_evidence f ids req res) (return_tx res)))))"

section \<open>Model: the fan-out service\<close>

record fanout_options =
  fo_replay_job :: string
  fo_config_mode :: string
  fo_rate_limit :: int
  fo_allow_recovered :: bool

record fanout_run =
  fr_faults :: "nat \<Rightarrow> faults"
  fr_ids :: "nat \<Rightarrow> snapshot_ids"
  fr_clock :: "nat \<Rightarrow> gotime"
  fr_now :: "nat \<Rightarrow> gotime"

definition replay_schedule_delay :: "nat \<Rightarrow> int \<Rightarrow> int" where
  "replay_schedule_delay index rate_limit =
     (if index = 0 \<or> rate_limit \<le> 0 then 0
      else let interval = ns_minute div rate_limit in
           if interval \<le> 0 then 0 else wrap64 (int index * interval))"

definition service_snapshot ::
    "fanout_env \<Rightarrow> fanout_run \<Rightarrow> nat \<Rightarrow> snapshot_request \<Rightarrow> ('a gateway_db_scheme, snapshot_result) act" where
  "service_snapshot env run i req =
     (let req1 = (if sq_config_mode req = [] then req\<lparr>sq_config_mode := ''current''\<rparr> else req);
          req2 = (if sq_mode req1 = [] then req1\<lparr>sq_mode := ''materialize''\<rparr> else req1)
      in create_delivery_snapshot env (fr_faults run i) (fr_now run i) (fr_ids run i) req2)"

definition target_request ::
    "fanout_run \<Rightarrow> fanout_options \<Rightarrow> string \<Rightarrow> string \<Rightarrow> nat \<Rightarrow> fanout_target \<Rightarrow> snapshot_request" where
  "target_request run opts tenant event_id i t =
     \<lparr> sq_tenant = tenant, sq_event = event_id, sq_endpoint = ft_endpoint t, sq_route = ft_route t,
       sq_route_version = ft_route_version t, sq_subscription = ft_subscription t,
       sq_subscription_version = ft_subscription_version t, sq_retry_policy = target_retry_policy t,
       sq_replay_job = fo_replay_job opts, sq_original_delivery = [], sq_adapter_version = [], sq_normalized = [],
       sq_transformation = ft_transformation t, sq_mode = ''materialize'', sq_source_payload = [], sq_retry_seed = [],
       sq_next_attempt = fr_clock run i + replay_schedule_delay i (fo_rate_limit opts),
       sq_config_mode = first_non_empty [fo_config_mode opts, ''current''] \<rparr>"

definition create_delivery_from_target ::
    "fanout_env \<Rightarrow> fanout_run \<Rightarrow> fanout_options \<Rightarrow> string \<Rightarrow> string \<Rightarrow> nat \<Rightarrow> fanout_target \<Rightarrow>
     ('a gateway_db_scheme, snapshot_result) act" where
  "create_delivery_from_target env run opts tenant event_id i t =
     service_snapshot env run i (target_request run opts tenant event_id i t)"

fun create_deliveries ::
    "fanout_env \<Rightarrow> fanout_run \<Rightarrow> fanout_options \<Rightarrow> string \<Rightarrow> string \<Rightarrow> nat \<Rightarrow> fanout_target list \<Rightarrow>
     ('a gateway_db_scheme, nat) act" where
  "create_deliveries env run opts tenant event_id created [] = return_act created"
| "create_deliveries env run opts tenant event_id created (t # ts) =
     then_act (create_delivery_from_target env run opts tenant event_id created t)
       (create_deliveries env run opts tenant event_id (created + 1) ts)"

definition routable :: "fanout_options \<Rightarrow> event_row \<Rightarrow> bool" where
  "routable opts e \<longleftrightarrow> ev_verified e \<or> (fo_allow_recovered opts \<and> ev_reason e = ''provider_api_reconciliation'')"

definition create_deliveries_for_event ::
    "fanout_env \<Rightarrow> fanout_run \<Rightarrow> faults \<Rightarrow> string \<Rightarrow> string \<Rightarrow> fanout_options \<Rightarrow> ('a gateway_db_scheme, nat) act" where
  "create_deliveries_for_event env run f tenant event_id opts =
     bind_act (read_act (\<lambda>db. get_event f db tenant event_id)) (\<lambda>event.
     if \<not> routable opts event then return_act 0
     else bind_act (read_act (\<lambda>db. list_delivery_fanout_targets f db tenant (ev_source event) (ev_type event)))
            (create_deliveries env run opts tenant event_id 0))"

section \<open>What a snapshot writes\<close>

lemma insert_payload_Inr [simp]:
  "insert_payload f p db = Inr (db', u) \<longleftrightarrow> f ''insert_payload'' = None \<and> dp_id p \<notin> dp_id ` set (delivery_payloads db)
     \<and> (dp_tenant p, dp_delivery p) \<notin> (\<lambda>x. (dp_tenant x, dp_delivery x)) ` set (delivery_payloads db)
     \<and> db' = delivery_payloads_update (\<lambda>ps. ps @ [p]) db"
  by (auto simp: insert_payload_def)

lemma create_payload_Inr:
  assumes "create_delivery_payload env f pid t ev did v db = Inr (db', p, n, a)"
  obtains envelope body where "p = pid" and "payload_source f db t ev = Inr (n, a, envelope)"
    and "payload_body env f db t envelope v = Inr body" and "pid \<notin> dp_id ` set (delivery_payloads db)"
    and "db' = deliveries_update (update_where (\<lambda>d. dv_tenant d = t \<and> dv_id d = did) (linked_row a n v pid))
       (delivery_payloads_update (\<lambda>ps. ps @ [materialized_row env pid t did ev n v body]) db)"
  using assms by (auto simp: create_delivery_payload_def link_payload_def materialized_row_def split: prod.splits)

lemma clone_payload_Inr:
  assumes "clone_delivery_payload env f pid t src did db = Inr (db', p, n, a, v)" and "src \<noteq> []"
  obtains x where "p = pid" and "x \<in> set (delivery_payloads db)" and "dp_tenant x = t" and "dp_id x = src"
    and "dp_status x \<noteq> ''deleted''" and "n = dp_normalized x" and "v = dp_transformation_version x"
    and "pid \<notin> dp_id ` set (delivery_payloads db)"
    and "db' = deliveries_update (update_where (\<lambda>d. dv_tenant d = t \<and> dv_id d = did) (linked_row a n v pid))
       (delivery_payloads_update (\<lambda>ps. ps @ [x\<lparr>dp_id := pid, dp_tenant := t, dp_delivery := did, dp_status := ''stored''\<rparr>]) db)"
proof -
  let ?rows = "concat (map (\<lambda>p. map (\<lambda>n. (p, n)) (left_join (\<lambda>n. nz_tenant n = dp_tenant p \<and> nz_id n = dp_normalized p)
     (normalized_envelopes db))) (filter (\<lambda>p. dp_tenant p = t \<and> dp_id p = src) (delivery_payloads db)))"
  from assms obtain x m where q: "query_row f ''clone_source'' ?rows = Inr (x, m)" and d: "dp_status x \<noteq> ''deleted''"
    and r: "then_tx (insert_payload f (x\<lparr>dp_id := pid, dp_tenant := t, dp_delivery := did, dp_status := ''stored''\<rparr>))
          (then_tx (link_payload f t did (case m of None \<Rightarrow> [] | Some r \<Rightarrow> nz_adapter_version r) (dp_normalized x) (dp_transformation_version x) pid)
          (return_tx (pid, dp_normalized x, (case m of None \<Rightarrow> [] | Some r \<Rightarrow> nz_adapter_version r), dp_transformation_version x))) db
        = Inr (db', p, n, a, v)"
    by (simp add: clone_delivery_payload_def Let_def split: if_splits prod.splits) blast
  from query_row_in [OF q] have x: "x \<in> set (delivery_payloads db)" "dp_tenant x = t" "dp_id x = src" by auto
  show ?thesis
    by (rule that [OF _ x d]) (use r in \<open>auto simp: link_payload_def\<close>)
qed

lemma payload_source_cong:
  assumes "events db' = events db" and "normalized_envelopes db' = normalized_envelopes db"
  shows "payload_source f db' = payload_source f db"
  unfolding payload_source_def fun_eq_iff legacy_delivery_envelope_def assms by blast

lemma payload_body_cong:
  "transformation_versions db' = transformation_versions db \<Longrightarrow> payload_body env f db' = payload_body env f db"
  unfolding payload_body_def fun_eq_iff by simp

text \<open>The payload a snapshot stores: a copy of the source payload, or the transformed envelope.\<close>

definition payload_of ::
    "fanout_env \<Rightarrow> faults \<Rightarrow> 'a delivery_db_scheme \<Rightarrow> snapshot_ids \<Rightarrow> snapshot_request \<Rightarrow> string \<Rightarrow> string \<Rightarrow> string \<Rightarrow>
     delivery_payload_row \<Rightarrow> bool" where
  "payload_of env f db ids req n a v p \<longleftrightarrow>
     (if sq_mode req = ''clone'' \<and> sq_source_payload req \<noteq> []
      then \<exists>x \<in> set (delivery_payloads db). dp_tenant x = sq_tenant req \<and> dp_id x = sq_source_payload req
             \<and> dp_status x \<noteq> ''deleted'' \<and> n = dp_normalized x \<and> v = dp_transformation_version x
             \<and> p = x\<lparr>dp_id := sg_payload ids, dp_tenant := sq_tenant req, dp_delivery := sg_delivery ids, dp_status := ''stored''\<rparr>
      else v = sq_transformation req \<and> (\<exists>envelope body. payload_source f db (sq_tenant req) (sq_event req) = Inr (n, a, envelope)
             \<and> payload_body env f db (sq_tenant req) envelope v = Inr body
             \<and> p = materialized_row env (sg_payload ids) (sq_tenant req) (sg_delivery ids) (sq_event req) n v body))"

lemma payload_of_fields:
  assumes "payload_of env f db ids req n a v p"
  shows "dp_id p = sg_payload ids" "dp_tenant p = sq_tenant req" "dp_delivery p = sg_delivery ids" "dp_status p = ''stored''"
    "dp_normalized p = n" "dp_transformation_version p = v"
  using assms by (auto simp: payload_of_def materialized_row_def split: if_splits)

lemma update_where_last:
  assumes "g r \<notin> g ` set rows" and "p r" and "\<And>x. p x \<Longrightarrow> g x = g r"
  shows "update_where p u (rows @ [r]) = rows @ [u r]"
proof -
  have "\<not> p x" if "x \<in> set rows" for x
    using assms(1) imageI [OF that, of g] assms(3) [of x] by metis
  then have "update_where p u rows = rows" by (rule update_where_none)
  then show ?thesis using assms(2) by (simp add: update_where_def)
qed

lemma snapshot_payload_Inr:
  fixes db :: "'a delivery_db_scheme"
  assumes "snapshot_payload env f ids req (deliveries_update (\<lambda>ds. ds @ [row]) db) = Inr (db', pid, n, a, v)"
    and row: "row = snapshot_row env now (sg_delivery ids) req" and fresh: "dv_id row \<notin> dv_id ` set (deliveries db)"
  obtains p where "pid = sg_payload ids" and "payload_of env f db ids req n a v p" and "sg_payload ids \<notin> dp_id ` set (delivery_payloads db)"
    and "db' = delivery_payloads_update (\<lambda>ps. ps @ [p]) (deliveries_update (\<lambda>ds. ds @ [linked_row a n v (sg_payload ids) row]) db)"
proof -
  let ?t = "sq_tenant req" and ?did = "sg_delivery ids" and ?pid = "sg_payload ids"
  let ?db = "deliveries_update (\<lambda>ds. ds @ [row]) db"
  have rf: "dv_id row = ?did" "dv_tenant row = ?t" "dv_event row = sq_event req" "dv_transformation_version row = sq_transformation req"
    by (simp_all add: row snapshot_row_def)
  have up: "update_where (\<lambda>d. dv_tenant d = ?t \<and> dv_id d = ?did) u (deliveries db @ [row]) = deliveries db @ [u row]" for u
    by (rule update_where_last [where g = dv_id]) (use fresh rf in simp_all)
  have d': "deliveries_update (update_where (\<lambda>d. dv_tenant d = ?t \<and> dv_id d = ?did) u) (delivery_payloads_update h ?db)
      = delivery_payloads_update h (deliveries_update (\<lambda>ds. ds @ [u row]) db)" for u h
    by (rule delivery_db.equality) (simp_all add: up)
  show ?thesis
  proof (cases "sq_mode req = ''clone'' \<and> sq_source_payload req \<noteq> []")
    case True
    from assms(1) True have c: "clone_delivery_payload env f ?pid ?t (sq_source_payload req) ?did ?db = Inr (db', pid, n, a, v)"
      by (simp add: snapshot_payload_def)
    from clone_payload_Inr [OF this conjunct2 [OF True]] obtain x where x: "pid = ?pid" "x \<in> set (delivery_payloads ?db)"
      "dp_tenant x = ?t" "dp_id x = sq_source_payload req" "dp_status x \<noteq> ''deleted''" "n = dp_normalized x"
      "v = dp_transformation_version x" "?pid \<notin> dp_id ` set (delivery_payloads ?db)"
      "db' = deliveries_update (update_where (\<lambda>d. dv_tenant d = ?t \<and> dv_id d = ?did) (linked_row a n v ?pid))
       (delivery_payloads_update (\<lambda>ps. ps @ [x\<lparr>dp_id := ?pid, dp_tenant := ?t, dp_delivery := ?did, dp_status := ''stored''\<rparr>]) ?db)" .
    have "payload_of env f db ids req n a v
       (x\<lparr>dp_id := ?pid, dp_tenant := ?t, dp_delivery := ?did, dp_status := ''stored''\<rparr>)"
      using True x(2-7) by (auto simp: payload_of_def)
    then show ?thesis by (rule that [OF x(1)]) (use x(8) in \<open>simp, simp add: x(9) d'\<close>)
  next
    case False
    have "create_delivery_payload env f ?pid ?t (sq_event req) ?did (sq_transformation req) ?db = Inr (db', pid, n, a) \<and> v = sq_transformation req"
    proof (cases "sq_mode req = ''clone''")
      case True
      with False assms(1) have "clone_delivery_payload env f ?pid ?t [] ?did ?db = Inr (db', pid, n, a, v)"
        by (simp add: snapshot_payload_def)
      moreover have "filter (\<lambda>d. dv_tenant d = ?t \<and> dv_id d = ?did) (deliveries db) = []"
        using fresh rf by (force simp: filter_empty_conv)
      ultimately show ?thesis
        by (auto simp: clone_delivery_payload_def query_row_Inr rf split: prod.splits)
    next
      case False
      with assms(1) show ?thesis by (auto simp: snapshot_payload_def split: prod.splits)
    qed
    then have c: "create_delivery_payload env f ?pid ?t (sq_event req) ?did (sq_transformation req) ?db = Inr (db', pid, n, a)"
      and v: "v = sq_transformation req" by simp_all
    from create_payload_Inr [OF c] obtain envelope body where x: "pid = ?pid"
      "payload_source f ?db ?t (sq_event req) = Inr (n, a, envelope)" "payload_body env f ?db ?t envelope (sq_transformation req) = Inr body"
      "?pid \<notin> dp_id ` set (delivery_payloads ?db)"
      "db' = deliveries_update (update_where (\<lambda>d. dv_tenant d = ?t \<and> dv_id d = ?did) (linked_row a n (sq_transformation req) ?pid))
       (delivery_payloads_update (\<lambda>ps. ps @ [materialized_row env ?pid ?t ?did (sq_event req) n (sq_transformation req) body]) ?db)" .
    have "payload_of env f db ids req n a v (materialized_row env ?pid ?t ?did (sq_event req) n v body)"
      using False x(2,3) v by (auto simp: payload_of_def payload_source_cong [of ?db db] payload_body_cong [of ?db db])
    then show ?thesis
      by (rule that [OF x(1)]) (use x(4) in \<open>simp, simp add: x(5) d' v\<close>)
  qed
qed

definition snapshot_db ::
    "fanout_env \<Rightarrow> gotime \<Rightarrow> snapshot_ids \<Rightarrow> snapshot_request \<Rightarrow> delivery_payload_row \<Rightarrow> snapshot_result \<Rightarrow>
     'a gateway_db_scheme \<Rightarrow> 'a gateway_db_scheme" where
  "snapshot_db env now ids req p r db =
     db\<lparr>deliveries := deliveries db @ [linked_row (sr_adapter_version r) (sr_normalized r) (sr_transformation r) (sg_payload ids)
            (snapshot_row env now (sg_delivery ids) req)],
        delivery_payloads := delivery_payloads db @ [p],
        replay_items := replay_items db @ (if sq_replay_job req = [] then [] else [replay_item_of ids req r]),
        replay_receipts := replay_receipts db @ (if sq_replay_job req = [] then [] else [replay_receipt_of ids req r])\<rparr>"

lemma snapshot_committed:
  fixes db :: "'a gateway_db_scheme"
  assumes "create_delivery_snapshot env f now ids req db = (db', Inr r)"
  obtains p where "sg_delivery ids \<notin> dv_id ` set (deliveries db)" and "sg_payload ids \<notin> dp_id ` set (delivery_payloads db)"
    and "payload_of env f db ids req (sr_normalized r) (sr_adapter_version r) (sr_transformation r) p"
    and "sr_delivery r = sg_delivery ids" and "sr_payload r = sg_payload ids"
    and "sr_payload_sha256 r = (if sg_payload ids = [] then [] else dp_sha256 p)"
    and "db' = snapshot_db env now ids req p r db"
proof -
  let ?row = "snapshot_row env now (sg_delivery ids) req"
  let ?db1 = "deliveries_update (\<lambda>ds. ds @ [?row]) db"
  from assms obtain db2 pid n a v hash where fresh: "dv_id ?row \<notin> dv_id ` set (deliveries db)"
    and sp: "snapshot_payload env f ids req ?db1 = Inr (db2, pid, n, a, v)"
    and h: "delivery_payload_sha256 f db2 (sq_tenant req) pid = Inr hash"
    and rest: "(let res = \<lparr> sr_delivery = sg_delivery ids, sr_payload = pid, sr_payload_sha256 = hash,
                 sr_adapter_version = a, sr_normalized = n, sr_transformation = v \<rparr> in
       if sq_replay_job req = [] then return_tx res
       else then_tx (insert_replay_decision_evidence f ids req res) (return_tx res)) db2 = Inr (db', r)"
    by (auto simp: create_delivery_snapshot_def run_tx_ok split: prod.splits)
  from snapshot_payload_Inr [OF sp refl fresh] obtain p where p: "pid = sg_payload ids" "payload_of env f db ids req n a v p"
    "sg_payload ids \<notin> dp_id ` set (delivery_payloads db)"
    "db2 = delivery_payloads_update (\<lambda>ps. ps @ [p]) (deliveries_update (\<lambda>ds. ds @ [linked_row a n v (sg_payload ids) ?row]) db)" .
  note pf = payload_of_fields [OF p(2)]
  have "filter (\<lambda>x. dp_tenant x = sq_tenant req \<and> dp_id x = sg_payload ids) (delivery_payloads db) = []"
    using p(3) by (force simp: filter_empty_conv)
  then have hash: "hash = (if sg_payload ids = [] then [] else dp_sha256 p)"
    using h by (auto simp: delivery_payload_sha256_def p(1,4) query_row_Inr pf split: if_splits)
  have r: "r = \<lparr> sr_delivery = sg_delivery ids, sr_payload = pid, sr_payload_sha256 = hash, sr_adapter_version = a,
     sr_normalized = n, sr_transformation = v \<rparr>"
    using rest by (auto simp: Let_def split: if_splits)
  have "db' = snapshot_db env now ids req p r db"
  proof (cases "sq_replay_job req = []")
    case True
    then show ?thesis using rest by (simp add: r p(4) snapshot_db_def)
  next
    case False
    then show ?thesis using rest by (auto simp: insert_replay_decision_evidence_def Let_def r p(4) snapshot_db_def)
  qed
  with that [of p] fresh p(1-3) hash show ?thesis by (simp add: r snapshot_row_def)
qed

lemma snapshot_failed: "create_delivery_snapshot env f now ids req db = (db', Inl e) \<Longrightarrow> db' = db"
  by (simp add: create_delivery_snapshot_def run_tx_error)

section \<open>What a fan-out writes\<close>

text \<open>The delivery and the payload that belong to the target at an index.\<close>

definition target_snapshot ::
    "fanout_env \<Rightarrow> fanout_run \<Rightarrow> fanout_options \<Rightarrow> string \<Rightarrow> string \<Rightarrow> 'a gateway_db_scheme \<Rightarrow> nat \<Rightarrow> fanout_target \<Rightarrow>
     delivery_row \<Rightarrow> delivery_payload_row \<Rightarrow> bool" where
  "target_snapshot env run opts t ev db i g d p \<longleftrightarrow>
     (\<exists>n a envelope. payload_source (fr_faults run i) db t ev = Inr (n, a, envelope)
        \<and> payload_body env (fr_faults run i) db t envelope (ft_transformation g) = Inr (dp_body p)
        \<and> p = materialized_row env (sg_payload (fr_ids run i)) t (sg_delivery (fr_ids run i)) ev n (ft_transformation g) (dp_body p)
        \<and> d = linked_row a n (ft_transformation g) (sg_payload (fr_ids run i))
                (snapshot_row env (fr_now run i) (sg_delivery (fr_ids run i)) (target_request run opts t ev i g)))"

definition appended ::
    "delivery_row list \<Rightarrow> delivery_payload_row list \<Rightarrow> replay_item_row list \<Rightarrow> replay_receipt_row list \<Rightarrow>
     'a gateway_db_scheme \<Rightarrow> 'a gateway_db_scheme" where
  "appended ds ps items rcpts db = db\<lparr>deliveries := deliveries db @ ds, delivery_payloads := delivery_payloads db @ ps,
     replay_items := replay_items db @ items, replay_receipts := replay_receipts db @ rcpts\<rparr>"

lemma appended_simps [simp]:
  "deliveries (appended ds ps ri rs db) = deliveries db @ ds"
  "delivery_payloads (appended ds ps ri rs db) = delivery_payloads db @ ps"
  "replay_items (appended ds ps ri rs db) = replay_items db @ ri"
  "replay_receipts (appended ds ps ri rs db) = replay_receipts db @ rs"
  "events (appended ds ps ri rs db) = events db"
  "normalized_envelopes (appended ds ps ri rs db) = normalized_envelopes db"
  "transformation_versions (appended ds ps ri rs db) = transformation_versions db"
  "subscriptions (appended ds ps ri rs db) = subscriptions db"
  "routes (appended ds ps ri rs db) = routes db"
  "endpoints (appended ds ps ri rs db) = endpoints db"
  "replay_jobs (appended ds ps ri rs db) = replay_jobs db"
  "outbox (appended ds ps ri rs db) = outbox db"
  by (simp_all add: appended_def)

lemma appended_Nil [simp]: "appended [] [] [] [] db = db"
  by (simp add: appended_def)

lemma appended_appended: "appended ds' ps' ri' rs' (appended ds ps ri rs db) = appended (ds @ ds') (ps @ ps') (ri @ ri') (rs @ rs') db"
  by (simp add: appended_def)

lemma snapshot_db_appended: "snapshot_db env now ids req p r db = appended
    [linked_row (sr_adapter_version r) (sr_normalized r) (sr_transformation r) (sg_payload ids) (snapshot_row env now (sg_delivery ids) req)]
    [p] (if sq_replay_job req = [] then [] else [replay_item_of ids req r]) (if sq_replay_job req = [] then [] else [replay_receipt_of ids req r]) db"
  unfolding snapshot_db_def appended_def by blast

lemma service_snapshot_target:
  "create_delivery_from_target env run opts t ev i g =
   create_delivery_snapshot env (fr_faults run i) (fr_now run i) (fr_ids run i) (target_request run opts t ev i g)"
  by (simp add: create_delivery_from_target_def service_snapshot_def target_request_def fun_eq_iff)

lemma create_from_target:
  assumes "create_delivery_from_target env run opts t ev i g db = (db', Inr r)"
  obtains d p ri rs where "db' = appended [d] [p] ri rs db" and "target_snapshot env run opts t ev db i g d p"
    and "fo_replay_job opts = [] \<Longrightarrow> ri = [] \<and> rs = []"
proof -
  from snapshot_committed [OF assms [unfolded service_snapshot_target]] obtain p where
    fresh: "sg_delivery (fr_ids run i) \<notin> dv_id ` set (deliveries db)" and
    p: "payload_of env (fr_faults run i) db (fr_ids run i) (target_request run opts t ev i g)
          (sr_normalized r) (sr_adapter_version r) (sr_transformation r) p" and
    d: "db' = snapshot_db env (fr_now run i) (fr_ids run i) (target_request run opts t ev i g) p r db" .
  let ?d = "linked_row (sr_adapter_version r) (sr_normalized r) (sr_transformation r) (sg_payload (fr_ids run i))
     (snapshot_row env (fr_now run i) (sg_delivery (fr_ids run i)) (target_request run opts t ev i g))"
  have "db' = appended [?d] [p] (if fo_replay_job opts = [] then [] else [replay_item_of (fr_ids run i) (target_request run opts t ev i g) r])
     (if fo_replay_job opts = [] then [] else [replay_receipt_of (fr_ids run i) (target_request run opts t ev i g) r]) db"
    unfolding d snapshot_db_appended by (simp add: target_request_def)
  moreover have "target_snapshot env run opts t ev db i g ?d p"
    using p by (auto simp: payload_of_def target_snapshot_def target_request_def materialized_row_def)
  ultimately show ?thesis by (rule that) simp
qed

lemma target_snapshot_appended [simp]:
  "target_snapshot env run opts t ev (appended ds ps ri rs db) = target_snapshot env run opts t ev db"
  unfolding target_snapshot_def fun_eq_iff
  by (simp add: payload_source_cong [of "appended ds ps ri rs db" db] payload_body_cong [of "appended ds ps ri rs db" db])

lemma create_deliveries_effect:
  "create_deliveries env run opts t ev k ts db = (db', r) \<Longrightarrow>
   \<exists>ds ps ri rs. db' = appended ds ps ri rs db \<and> length ps = length ds \<and> length ds \<le> length ts
     \<and> (\<forall>j < length ds. target_snapshot env run opts t ev db (k + j) (ts ! j) (ds ! j) (ps ! j))
     \<and> (case r of Inr n \<Rightarrow> n = k + length ts \<and> length ds = length ts | Inl e \<Rightarrow> length ds < length ts)"
proof (induction ts arbitrary: k db)
  case Nil
  then show ?case by (intro exI [of _ "[]"]) auto
next
  case (Cons g ts)
  show ?case
  proof (cases "snd (create_delivery_from_target env run opts t ev k g db)")
    case (Inl e)
    then obtain d1 where s: "create_delivery_from_target env run opts t ev k g db = (d1, Inl e)" by (metis prod.collapse)
    then have "d1 = db" using snapshot_failed by (simp add: service_snapshot_target)
    with Cons.prems s have "db' = db \<and> r = Inl e" by (simp add: then_act_def bind_act_def)
    then show ?thesis by (intro exI [of _ "[]"]) auto
  next
    case (Inr x)
    then obtain d1 where s: "create_delivery_from_target env run opts t ev k g db = (d1, Inr x)" by (metis prod.collapse)
    from create_from_target [OF s] obtain d p ri1 rs1 where d1: "d1 = appended [d] [p] ri1 rs1 db"
      and tg: "target_snapshot env run opts t ev db k g d p" .
    from Cons.prems s have "create_deliveries env run opts t ev (k + 1) ts d1 = (db', r)" by (simp add: then_act_def bind_act_def)
    from Cons.IH [OF this] obtain ds ps ri rs where e: "db' = appended ds ps ri rs d1" "length ps = length ds" "length ds \<le> length ts"
      "\<forall>j < length ds. target_snapshot env run opts t ev d1 (k + 1 + j) (ts ! j) (ds ! j) (ps ! j)"
      "case r of Inr n \<Rightarrow> n = k + 1 + length ts \<and> length ds = length ts | Inl e \<Rightarrow> length ds < length ts" by blast
    have "\<forall>j < length (d # ds). target_snapshot env run opts t ev db (k + j) ((g # ts) ! j) ((d # ds) ! j) ((p # ps) ! j)"
      using e(4) tg by (auto simp: d1 nth_Cons split: nat.splits)
    moreover have "db' = appended (d # ds) (p # ps) (ri1 @ ri) (rs1 @ rs) db" by (simp add: e(1) d1 appended_appended)
    ultimately show ?thesis using e(2,3,5)
      by (intro exI [of _ "d # ds"] exI [of _ "p # ps"] exI [of _ "ri1 @ ri"] exI [of _ "rs1 @ rs"] conjI) (auto split: sum.splits)
  qed
qed

section \<open>Invariants\<close>

text \<open>
  Payloads that have not been deleted are stored with their own hash and length, and a delivery
  refers to a payload of its tenant that was made for it.
\<close>

definition payload_ok :: "fanout_env \<Rightarrow> delivery_payload_row \<Rightarrow> bool" where
  "payload_ok env p \<longleftrightarrow> dp_status p \<noteq> ''deleted'' \<longrightarrow>
     dp_sha256 p = sha256_text (fe_sha env) (dp_body p) \<and> dp_size p = int (length (dp_body p))"

definition payloads_ok :: "fanout_env \<Rightarrow> 'a delivery_db_scheme \<Rightarrow> bool" where
  "payloads_ok env db \<longleftrightarrow> list_all (payload_ok env) (delivery_payloads db) \<and> distinct (map dp_id (delivery_payloads db))
     \<and> (\<forall>d \<in> set (deliveries db). dv_payload d \<noteq> [] \<longrightarrow>
          (\<exists>p \<in> set (delivery_payloads db). dp_id p = dv_payload d \<and> dp_tenant p = dv_tenant d \<and> dp_delivery p = dv_id d))"

lemma snapshot_ok:
  fixes db :: "'a gateway_db_scheme"
  assumes "deliveries_ok db" and "payloads_ok env db"
  shows "deliveries_ok (fst (create_delivery_snapshot env f now ids req db))
    \<and> payloads_ok env (fst (create_delivery_snapshot env f now ids req db))"
proof (cases "snd (create_delivery_snapshot env f now ids req db)")
  case (Inl e)
  then show ?thesis using assms snapshot_failed [of env f now ids req db] by (metis prod.collapse)
next
  case (Inr r)
  define db' where "db' = fst (create_delivery_snapshot env f now ids req db)"
  from Inr have "create_delivery_snapshot env f now ids req db = (db', Inr r)" by (simp add: db'_def prod_eq_iff)
  from snapshot_committed [OF this] obtain p where
    fresh: "sg_delivery ids \<notin> dv_id ` set (deliveries db)" "sg_payload ids \<notin> dp_id ` set (delivery_payloads db)" and
    p: "payload_of env f db ids req (sr_normalized r) (sr_adapter_version r) (sr_transformation r) p" and
    d': "db' = snapshot_db env now ids req p r db" .
  note pf = payload_of_fields [OF p]
  have "payload_ok env p"
    using p assms(2) by (auto simp: payload_of_def payloads_ok_def list_all_iff payload_ok_def materialized_row_def split: if_splits)
  then have "payloads_ok env db'"
    using assms(2) fresh by (auto simp: d' snapshot_db_def payloads_ok_def linked_row_def snapshot_row_def pf)
  moreover have "deliveries_ok db'"
    using assms(1) fresh by (auto simp: d' snapshot_db_def deliveries_ok_def linked_row_def snapshot_row_def delivery_ok_def)
  ultimately show ?thesis by (simp add: db'_def)
qed

lemma fanout_keeps_ok:
  "act_keeps (\<lambda>db. deliveries_ok db \<and> payloads_ok env db) (create_delivery_from_target env run opts t ev i g)"
  "act_keeps (\<lambda>db. deliveries_ok db \<and> payloads_ok env db) (create_deliveries env run opts t ev k ts)"
  "act_keeps (\<lambda>db. deliveries_ok db \<and> payloads_ok env db) (create_deliveries_for_event env run f t ev opts)"
proof -
  show one: "act_keeps (\<lambda>db. deliveries_ok db \<and> payloads_ok env db) (create_delivery_from_target env run opts t ev i g)" for i g
    unfolding service_snapshot_target by (simp add: act_keeps_def snapshot_ok)
  show all: "act_keeps (\<lambda>db. deliveries_ok db \<and> payloads_ok env db) (create_deliveries env run opts t ev k ts)" for k ts
    by (induction ts arbitrary: k) (auto intro: act_intros one)
  show "act_keeps (\<lambda>db. deliveries_ok db \<and> payloads_ok env db) (create_deliveries_for_event env run f t ev opts)"
    unfolding create_deliveries_for_event_def by (intro act_intros all)
qed

lemma target_snapshot_fields:
  assumes "target_snapshot env run opts t ev db i g d p"
  shows "dv_tenant d = t" "dv_event d = ev" "dv_endpoint d = ft_endpoint g" "dv_retry_policy d = target_retry_policy g"
    "dv_replay_job d = fo_replay_job opts" "dv_route d = ft_route g" "dv_subscription d = ft_subscription g"
    "dv_state d = ''scheduled''" "dv_attempt_count d = 0"
    "dv_next_attempt d = Some (fr_clock run i + replay_schedule_delay i (fo_rate_limit opts))"
    "dv_payload d = dp_id p" "dp_delivery p = dv_id d" "dp_tenant p = t" "dp_event p = ev" "dv_id d = sg_delivery (fr_ids run i)"
    "dp_sha256 p = sha256_text (fe_sha env) (dp_body p)"
    "\<exists>envelope. payload_source (fr_faults run i) db t ev = Inr (dv_normalized d, dv_adapter_version d, envelope)
       \<and> payload_body env (fr_faults run i) db t envelope (ft_transformation g) = Inr (dp_body p)"
    "dp_id p = sg_payload (fr_ids run i)"
proof -
  from assms obtain n a envelope where s: "payload_source (fr_faults run i) db t ev = Inr (n, a, envelope)"
    "payload_body env (fr_faults run i) db t envelope (ft_transformation g) = Inr (dp_body p)" and
    p: "p = materialized_row env (sg_payload (fr_ids run i)) t (sg_delivery (fr_ids run i)) ev n (ft_transformation g) (dp_body p)" and
    d: "d = linked_row a n (ft_transformation g) (sg_payload (fr_ids run i))
      (snapshot_row env (fr_now run i) (sg_delivery (fr_ids run i)) (target_request run opts t ev i g))"
    unfolding target_snapshot_def by blast
  show "dv_tenant d = t" "dv_event d = ev" "dv_endpoint d = ft_endpoint g" "dv_retry_policy d = target_retry_policy g"
    "dv_replay_job d = fo_replay_job opts" "dv_route d = ft_route g" "dv_subscription d = ft_subscription g"
    "dv_state d = ''scheduled''" "dv_attempt_count d = 0" "dv_id d = sg_delivery (fr_ids run i)"
    "dv_next_attempt d = Some (fr_clock run i + replay_schedule_delay i (fo_rate_limit opts))"
    by (simp_all add: d linked_row_def snapshot_row_def target_request_def)
  show "dp_id p = sg_payload (fr_ids run i)" "dv_payload d = dp_id p" "dp_delivery p = dv_id d" "dp_tenant p = t" "dp_event p = ev"
    "dp_sha256 p = sha256_text (fe_sha env) (dp_body p)"
    by (subst p, simp add: d linked_row_def snapshot_row_def materialized_row_def)+
  show "\<exists>envelope. payload_source (fr_faults run i) db t ev = Inr (dv_normalized d, dv_adapter_version d, envelope)
       \<and> payload_body env (fr_faults run i) db t envelope (ft_transformation g) = Inr (dp_body p)"
    using s by (simp add: d linked_row_def)
qed

text \<open>What any run of the fan-out of an event leaves behind.\<close>

definition event_targets :: "'a delivery_db_scheme \<Rightarrow> event_row \<Rightarrow> string \<Rightarrow> fanout_target list" where
  "event_targets db e t = subscription_targets db t (ev_type e) @ route_targets db t (ev_source e) (ev_type e)"

lemma list_targets_Inr [simp]:
  "list_delivery_fanout_targets f db t (ev_source e) (ev_type e) = Inr ts \<longleftrightarrow>
   f ''subscription_targets'' = None \<and> f ''route_targets'' = None \<and> ts = event_targets db e t"
  by (auto simp: list_delivery_fanout_targets_def event_targets_def)

lemma fanout_effect:
  assumes "create_deliveries_for_event env run f t ev opts db = (db', r)"
  obtains (stopped) err where "db' = db" and "r = Inl err"
  | (ignored) e where "get_event f db t ev = Inr e" and "\<not> routable opts e" and "db' = db" and "r = Inr 0"
  | (routed) e ds ps ri rs where "get_event f db t ev = Inr e" and "routable opts e" and "db' = appended ds ps ri rs db"
      and "length ps = length ds" and "length ds \<le> length (event_targets db e t)"
      and "\<forall>j < length ds. target_snapshot env run opts t ev db j (event_targets db e t ! j) (ds ! j) (ps ! j)"
      and "case r of Inr n \<Rightarrow> n = length (event_targets db e t) \<and> length ds = n | Inl e1 \<Rightarrow> length ds < length (event_targets db e t)"
proof (cases "get_event f db t ev")
  case (Inl err)
  with assms show ?thesis by (intro stopped [of err]) (auto simp: create_deliveries_for_event_def bind_act_cong_read)
next
  case (Inr e)
  show ?thesis
  proof (cases "routable opts e")
    case False
    with assms Inr show ?thesis by (intro ignored [of e]) (auto simp: create_deliveries_for_event_def bind_act_cong_read)
  next
    case True
    show ?thesis
    proof (cases "list_delivery_fanout_targets f db t (ev_source e) (ev_type e)")
      case (Inl err)
      with assms Inr True show ?thesis by (intro stopped [of err]) (auto simp: create_deliveries_for_event_def bind_act_cong_read)
    next
      case (Inr ts)
      then have ts: "ts = event_targets db e t" by simp
      from assms \<open>get_event f db t ev = Inr e\<close> True Inr have "create_deliveries env run opts t ev 0 ts db = (db', r)"
        by (simp add: create_deliveries_for_event_def bind_act_cong_read)
      from create_deliveries_effect [OF this] obtain ds ps ri rs where
        e: "db' = appended ds ps ri rs db" "length ps = length ds" "length ds \<le> length ts"
        "\<forall>j < length ds. target_snapshot env run opts t ev db (0 + j) (ts ! j) (ds ! j) (ps ! j)"
        "case r of Inr n \<Rightarrow> n = 0 + length ts \<and> length ds = length ts | Inl e1 \<Rightarrow> length ds < length ts" by blast
      show ?thesis
        by (rule routed [OF \<open>get_event f db t ev = Inr e\<close> True e(1,2)]) (use e(3-5) in \<open>auto simp: ts split: sum.splits\<close>)
    qed
  qed
qed

lemma get_event_cong: "events db' = events db \<Longrightarrow> get_event f db' t ev = get_event f db t ev"
  by (simp add: get_event_def)

lemma get_event_unique: "get_event f db t ev = Inr e \<Longrightarrow> get_event f' db t ev = Inr e' \<Longrightarrow> e' = e"
  by (auto simp: get_event_def query_row_Inr)

lemma event_targets_appended [simp]: "event_targets (appended ds ps ri rs db) e t = event_targets db e t"
  by (simp add: event_targets_def subscription_targets_def route_targets_def endpoints_of_def)

section \<open>A sample database\<close>

definition sample_event :: "bool \<Rightarrow> event_row" where
  "sample_event verified = \<lparr> ev_id = ''ev'', ev_tenant = ''t'', ev_source = ''s'', ev_provider = ''p'', ev_type = ''y'',
     ev_provider_event = [], ev_raw_payload = [], ev_raw_hash = [], ev_verified = verified, ev_reason = [], ev_dedupe_key = ''k'',
     ev_dedupe_status = ''unique'', ev_received_at = 1, ev_trace = [] \<rparr>"

definition sample_subscription :: "string \<Rightarrow> subscription_row" where
  "sample_subscription i = \<lparr> sb_id = i, sb_tenant = ''t'', sb_endpoint = ''e'', sb_event_types = [''y''], sb_state = ''active'',
     sb_active_version = [], sb_transformation_version = [] \<rparr>"

definition sample_gateway_db ::
    "event_row list \<Rightarrow> subscription_row list \<Rightarrow> delivery_row list \<Rightarrow> delivery_payload_row list \<Rightarrow> outbox_row list \<Rightarrow>
     replay_job_row list \<Rightarrow> gateway_db" where
  "sample_gateway_db evs subs ds ps obs jobs = \<lparr> audit_events = [], chain_entries = [], chain_heads = [], chain_anchors = [],
     worker_leases = [], retention_run_items = [], tenants = [''t''], raw_payloads = [], events = evs, receipts = [],
     normalized_envelopes = [\<lparr> nz_id = ''n'', nz_tenant = ''t'', nz_event = ''ev'', nz_adapter_version = [], nz_provider = [],
        nz_provider_event = [], nz_type = [], nz_source = [], nz_subject = [], nz_envelope = ''{}'', nz_data = [],
        nz_metadata = [], nz_envelope_sha256 = [], nz_data_sha256 = [], nz_metadata_sha256 = [], nz_status = ''stored'',
        nz_created_at = 1 \<rparr>],
     outbox = obs, dedupe_records = [], idempotency_records = [], quarantine_entries = [],
     adapter_versions = [], sources = [], source_secret_versions = [],
     endpoints = [\<lparr> ep_id = ''e'', ep_tenant = ''t'', ep_url = ''https://x'', ep_state = ''active'', ep_retry_policy = [],
        ep_mtls_enabled = False, ep_mtls_cert = None, ep_mtls_key = None, ep_failure_count = 0,
        ep_circuit_state = ''closed'', ep_disabled_until = None \<rparr>],
     endpoint_secrets = [], retry_policies = [], deliveries = ds, delivery_payloads = ps, delivery_attempts = [],
     dead_letter_entries = [], subscriptions = subs, routes = [], transformation_versions = [],
     replay_jobs = jobs, replay_items = [], replay_receipts = [], replay_approval_policies = [] \<rparr>"

definition sample_fanout_env :: fanout_env where
  "sample_fanout_env = \<lparr> fe_sha = rev, fe_decode = (\<lambda>_. None), fe_decode_ops = (\<lambda>_. None), fe_num = (\<lambda>_. []) \<rparr>"

definition sample_run :: "char \<Rightarrow> (nat \<Rightarrow> faults) \<Rightarrow> fanout_run" where
  "sample_run c fs = \<lparr> fr_faults = fs, fr_ids = (\<lambda>i. \<lparr> sg_delivery = c # CHR ''d'' # replicate i CHR ''x'', sg_payload = c # CHR ''p'' # replicate i CHR ''x'',
     sg_item = c # CHR ''i'' # replicate i CHR ''x'', sg_receipt = c # CHR ''r'' # replicate i CHR ''x'' \<rparr>),
     fr_clock = (\<lambda>_. 7), fr_now = (\<lambda>_. 8) \<rparr>"

abbreviation live_options :: fanout_options where
  "live_options \<equiv> \<lparr> fo_replay_job = [], fo_config_mode = [], fo_rate_limit = 0, fo_allow_recovered = False \<rparr>"

abbreviation sample_targets_db :: "bool \<Rightarrow> gateway_db" where
  "sample_targets_db verified \<equiv> sample_gateway_db [sample_event verified] [sample_subscription ''a'', sample_subscription ''b''] [] [] [] []"

text \<open>Two targets, and a statement that fails for the second one.\<close>

definition second_fails :: "nat \<Rightarrow> faults" where
  "second_fails = (\<lambda>i lbl. if i = 1 \<and> lbl = ''begin'' then Some ErrCanceled else None)"

section \<open>When nothing fails\<close>

text \<open>Identifiers that no row has, from an index on.\<close>

definition fresh_from :: "fanout_run \<Rightarrow> nat \<Rightarrow> 'a gateway_db_scheme \<Rightarrow> bool" where
  "fresh_from run k db \<longleftrightarrow> (\<forall>i \<ge> k. sg_delivery (fr_ids run i) \<notin> dv_id ` set (deliveries db)
     \<and> sg_delivery (fr_ids run i) \<notin> dp_delivery ` set (delivery_payloads db)
     \<and> sg_payload (fr_ids run i) \<notin> dp_id ` set (delivery_payloads db)
     \<and> sg_item (fr_ids run i) \<notin> ry_id ` set (replay_items db)
     \<and> sg_receipt (fr_ids run i) \<notin> rx_id ` set (replay_receipts db))"

definition distinct_ids :: "fanout_run \<Rightarrow> bool" where
  "distinct_ids run \<longleftrightarrow> inj (\<lambda>i. sg_delivery (fr_ids run i)) \<and> inj (\<lambda>i. sg_payload (fr_ids run i))
     \<and> inj (\<lambda>i. sg_item (fr_ids run i)) \<and> inj (\<lambda>i. sg_receipt (fr_ids run i))"

lemma snapshot_runs:
  fixes db :: "'a gateway_db_scheme"
  assumes f: "\<And>l. f l = None" and m: "sq_mode req \<noteq> ''clone''"
    and s: "payload_source f db (sq_tenant req) (sq_event req) = Inr (n, a, envelope)"
    and b: "payload_body env f db (sq_tenant req) envelope (sq_transformation req) = Inr body"
    and fr: "sg_delivery ids \<notin> dv_id ` set (deliveries db)" "sg_delivery ids \<notin> dp_delivery ` set (delivery_payloads db)"
      "sg_payload ids \<notin> dp_id ` set (delivery_payloads db)" "sg_item ids \<notin> ry_id ` set (replay_items db)"
      "sg_receipt ids \<notin> rx_id ` set (replay_receipts db)"
  shows "\<exists>db' r. create_delivery_snapshot env f now ids req db = (db', Inr r)"
proof -
  let ?row = "snapshot_row env now (sg_delivery ids) req"
  let ?db1 = "deliveries_update (\<lambda>ds. ds @ [?row]) db"
  let ?p = "materialized_row env (sg_payload ids) (sq_tenant req) (sg_delivery ids) (sq_event req) n (sq_transformation req) body"
  define db2 where "db2 = deliveries_update (update_where (\<lambda>d. dv_tenant d = sq_tenant req \<and> dv_id d = sg_delivery ids)
     (linked_row a n (sq_transformation req) (sg_payload ids))) (delivery_payloads_update (\<lambda>ps. ps @ [?p]) ?db1)"
  have "insert_row f ''insert_delivery'' dv_id deliveries deliveries_update ?row db = Inr (?db1, ())"
    using f fr(1) by (simp add: snapshot_row_def)
  moreover have "snapshot_payload env f ids req ?db1 = Inr (db2, sg_payload ids, n, a, sq_transformation req)"
  proof -
    have "(sq_tenant req, sg_delivery ids) \<notin> (\<lambda>x. (dp_tenant x, dp_delivery x)) ` set (delivery_payloads db)"
      using fr(2) by auto
    then have "create_delivery_payload env f (sg_payload ids) (sq_tenant req) (sq_event req) (sg_delivery ids) (sq_transformation req) ?db1
        = Inr (db2, sg_payload ids, n, a)"
      using f fr(3) s b by (simp add: create_delivery_payload_def payload_source_cong [of ?db1 db] payload_body_cong [of ?db1 db]
          link_payload_def db2_def materialized_row_def)
    then show ?thesis using m by (simp add: snapshot_payload_def)
  qed
  moreover have "\<exists>h. delivery_payload_sha256 f db2 (sq_tenant req) (sg_payload ids) = Inr h"
    using f by (simp add: delivery_payload_sha256_def db2_def query_row_Inr materialized_row_def)
  moreover have "replay_items db2 = replay_items db" "replay_receipts db2 = replay_receipts db" by (simp_all add: db2_def)
  ultimately show ?thesis using f fr(4,5)
    by (auto simp: create_delivery_snapshot_def run_tx_def bind_tx_def then_tx_def read_tx_def Let_def return_tx_def
        insert_replay_decision_evidence_def insert_row_def try_tx_def replay_item_of_def replay_receipt_of_def)
qed

lemma create_deliveries_run:
  fixes db :: "'a gateway_db_scheme"
  assumes "\<And>i. fr_faults run i = no_faults" and ids: "distinct_ids run"
    and "payload_source no_faults db t ev = Inr (n, a, envelope)"
    and "\<forall>g \<in> set ts. \<exists>body. payload_body env no_faults db t envelope (ft_transformation g) = Inr body"
    and "fresh_from run k db"
  shows "\<exists>db'. create_deliveries env run opts t ev k ts db = (db', Inr (k + length ts))"
  using assms(3-5)
proof (induction ts arbitrary: k db)
  case Nil
  then show ?case by simp
next
  case (Cons g ts)
  let ?req = "target_request run opts t ev k g"
  from Cons.prems(2) obtain body where b: "payload_body env no_faults db t envelope (ft_transformation g) = Inr body" by auto
  have rf: "sq_tenant ?req = t" "sq_event ?req = ev" "sq_transformation ?req = ft_transformation g" "sq_mode ?req \<noteq> ''clone''"
    by (simp_all add: target_request_def)
  obtain d1 r where s: "create_delivery_snapshot env no_faults (fr_now run k) (fr_ids run k) ?req db = (d1, Inr r)"
    using snapshot_runs [of no_faults ?req db n a envelope env body "fr_ids run k" "fr_now run k"] Cons.prems b
    by (auto simp: rf fresh_from_def)
  then have s': "create_delivery_from_target env run opts t ev k g db = (d1, Inr r)"
    by (simp add: service_snapshot_target assms(1))
  from snapshot_committed [OF s] obtain p where p: "payload_of env no_faults db (fr_ids run k) ?req (sr_normalized r)
      (sr_adapter_version r) (sr_transformation r) p" and d1: "d1 = snapshot_db env (fr_now run k) (fr_ids run k) ?req p r db" .
  have "payload_source no_faults d1 = payload_source no_faults db" by (rule payload_source_cong) (simp_all add: d1 snapshot_db_def)
  moreover have "payload_body env no_faults d1 = payload_body env no_faults db" by (rule payload_body_cong) (simp add: d1 snapshot_db_def)
  moreover have "fresh_from run (k + 1) d1"
    using Cons.prems(3) ids unfolding fresh_from_def d1 snapshot_db_def distinct_ids_def
    by (auto simp: linked_row_def snapshot_row_def payload_of_fields [OF p] replay_item_of_def replay_receipt_of_def dest: injD)
  ultimately obtain db' where "create_deliveries env run opts t ev (k + 1) ts d1 = (db', Inr (k + 1 + length ts))"
    using Cons.IH [of d1 "k + 1"] Cons.prems(1,2) by auto
  then show ?case using s' by (simp add: then_act_def bind_act_def)
qed

lemma fanout_of_event:
  assumes "get_event no_faults db t ev = Inr e" and "routable opts e"
  shows "create_deliveries_for_event env run no_faults t ev opts db = create_deliveries env run opts t ev 0 (event_targets db e t) db"
  using assms by (simp add: create_deliveries_for_event_def bind_act_cong_read list_delivery_fanout_targets_def event_targets_def query_rows_def)

section \<open>Properties\<close>


lemma sample_targets:
  "event_targets (sample_targets_db v) (sample_event v) ''t'' =
     [subscription_target (sample_subscription ''a'') (hd (endpoints (sample_targets_db v))),
      subscription_target (sample_subscription ''b'') (hd (endpoints (sample_targets_db v)))]"
  by (simp add: event_targets_def subscription_targets_def route_targets_def endpoints_of_def sample_gateway_db_def
      sample_event_def sample_subscription_def)

lemma sample_event_read:
  "get_event no_faults (sample_targets_db v) ''t'' ''ev'' = Inr (sample_event v)" "routable opts (sample_event True)"
  "payload_source no_faults (sample_targets_db v) ''t'' ''ev'' = Inr (''n'', [], ''{}'')"
  by (simp_all add: get_event_def sample_gateway_db_def sample_event_def routable_def payload_source_def)

lemma sample_run_ids: "distinct_ids (sample_run c fs)" "fresh_from (sample_run c fs) 0 (sample_targets_db v)"
  by (auto simp: distinct_ids_def sample_run_def inj_def fresh_from_def sample_gateway_db_def dest: arg_cong [where f = length])

lemma sample_bodies:
  "\<forall>g \<in> set (event_targets (sample_targets_db v) (sample_event v) ''t'').
     \<exists>body. payload_body env no_faults db ''t'' envelope (ft_transformation g) = Inr body"
  unfolding sample_targets by (simp add: subscription_target_def sample_subscription_def payload_body_def)


text \<open>
  C36. A fan-out that is repeated delivers twice. Every delivery is committed on its own, and
  nothing marks the targets that were served: when a run fails after it has created some
  deliveries and the worker repeats the outbox item, the second run creates the deliveries of all
  targets again, so the endpoints of the first ones receive the event twice.
\<close>

theorem repeated_fanout_duplicates:
  fixes db :: "'a gateway_db_scheme"
  assumes one: "create_deliveries_for_event env run f t ev opts db = (db1, Inl err)" and "deliveries db1 \<noteq> deliveries db"
    and two: "create_deliveries_for_event env run' f' t ev opts db1 = (db2, Inr n)"
  shows "\<exists>ds1 ds2. deliveries db1 = deliveries db @ ds1 \<and> deliveries db2 = deliveries db @ ds1 @ ds2 \<and> 0 < length ds1
     \<and> length ds1 < length ds2 \<and> length ds2 = n
     \<and> map dv_endpoint ds1 = take (length ds1) (map dv_endpoint ds2) \<and> (\<forall>d \<in> set (ds1 @ ds2). dv_event d = ev)"
proof -
  from one assms(2) obtain e ds1 ps1 ri1 rs1 where e: "get_event f db t ev = Inr e" "routable opts e"
    and d1: "db1 = appended ds1 ps1 ri1 rs1 db" and s1: "length ds1 < length (event_targets db e t)"
      "\<forall>j < length ds1. target_snapshot env run opts t ev db j (event_targets db e t ! j) (ds1 ! j) (ps1 ! j)"
    by (cases rule: fanout_effect) auto
  from two obtain e' where e': "get_event f' db1 t ev = Inr e'"
    by (cases rule: fanout_effect) auto
  have "get_event f' db t ev = Inr e'" using e' get_event_cong [of db1 db f' t ev] by (simp add: d1)
  with e(1) have "e' = e" by (rule get_event_unique)
  with two e(2) e' obtain ds2 ps2 ri2 rs2 where d2: "db2 = appended ds2 ps2 ri2 rs2 db1"
    and s2: "length ds2 = n" "n = length (event_targets db e t)"
      "\<forall>j < length ds2. target_snapshot env run' opts t ev db j (event_targets db e t ! j) (ds2 ! j) (ps2 ! j)"
    by (cases rule: fanout_effect) (auto simp: d1)
  have "0 < length ds1" using assms(2) by (simp add: d1)
  moreover have "map dv_endpoint ds1 = take (length ds1) (map dv_endpoint ds2)"
  proof (rule nth_equalityI)
    fix i assume i: "i < length (map dv_endpoint ds1)"
    have "dv_endpoint (ds1 ! i) = ft_endpoint (event_targets db e t ! i)" by (rule target_snapshot_fields(3)) (use s1 i in auto)
    moreover have "target_snapshot env run' opts t ev db i (event_targets db e t ! i) (ds2 ! i) (ps2 ! i)" using s1(1) s2 i by simp
    then have "dv_endpoint (ds2 ! i) = ft_endpoint (event_targets db e t ! i)" by (rule target_snapshot_fields(3))
    ultimately show "map dv_endpoint ds1 ! i = take (length ds1) (map dv_endpoint ds2) ! i" using i s1(1) s2(1,2) by simp
  qed (use s1(1) s2(1,2) in simp)
  moreover have "dv_event d = ev" if "d \<in> set (ds1 @ ds2)" for d
  proof -
    from that consider j where "j < length ds1" "d = ds1 ! j" | j where "j < length ds2" "d = ds2 ! j"
      by (auto simp: in_set_conv_nth)
    then show ?thesis using s1(2) s2(3) target_snapshot_fields(2) by cases blast+
  qed
  ultimately show ?thesis using s1(1) s2(1,2) by (intro exI [of _ ds1] exI [of _ ds2]) (simp add: d1 d2)
qed

lemma sample_fanout_fails:
  "\<exists>d p. create_deliveries_for_event sample_fanout_env (sample_run CHR ''1'' second_fails) no_faults ''t'' ''ev'' live_options
      (sample_targets_db True) = (appended [d] [p] [] [] (sample_targets_db True), Inl ErrCanceled)
     \<and> dv_id d = ''1d'' \<and> dp_id p = ''1p'' \<and> dp_delivery p = ''1d''"
proof -
  let ?run = "sample_run CHR ''1'' second_fails" and ?db = "sample_targets_db True" and ?e = sample_fanout_env
  obtain g1 g2 where ts: "event_targets ?db (sample_event True) ''t'' = [g1, g2]" "ft_transformation g1 = []"
    by (rule that [OF sample_targets]) (simp add: subscription_target_def sample_subscription_def)
  have f: "fr_faults ?run 0 = no_faults" by (simp add: sample_run_def second_fails_def)
  have "\<exists>d1 r. create_delivery_snapshot ?e no_faults (fr_now ?run 0) (fr_ids ?run 0) (target_request ?run live_options ''t'' ''ev'' 0 g1) ?db = (d1, Inr r)"
    by (rule snapshot_runs [where n = "''n''" and a = "[]" and envelope = "''{}''" and body = "''{}''"])
      (use sample_run_ids(2) [of "CHR ''1''" second_fails True] in
        \<open>simp_all add: target_request_def sample_event_read payload_body_def ts fresh_from_def\<close>)
  then obtain d1 r where c: "create_delivery_from_target ?e ?run live_options ''t'' ''ev'' 0 g1 ?db = (d1, Inr r)"
    unfolding service_snapshot_target f by blast
  from create_from_target [OF c] obtain d p ri rs where "d1 = appended [d] [p] ri rs ?db" and "ri = [] \<and> rs = []"
    and t: "target_snapshot ?e ?run live_options ''t'' ''ev'' ?db 0 g1 d p" by (metis fanout_options.select_convs(1))
  then have d: "d1 = appended [d] [p] [] [] ?db" "target_snapshot ?e ?run live_options ''t'' ''ev'' ?db 0 g1 d p" by simp_all
  have "dv_id d = ''1d'' \<and> dp_delivery p = ''1d'' \<and> dp_id p = ''1p''"
    using target_snapshot_fields(12,15,18) [OF d(2)] by (simp add: sample_run_def)
  moreover have "create_delivery_from_target ?e ?run live_options ''t'' ''ev'' 1 g2 d1 = (d1, Inl ErrCanceled)"
    by (simp add: service_snapshot_target sample_run_def second_fails_def create_delivery_snapshot_def run_tx_def)
  then have "create_deliveries ?e ?run live_options ''t'' ''ev'' 0 [g1, g2] ?db = (d1, Inl ErrCanceled)"
    using c by (simp add: then_act_def bind_act_def)
  then have "create_deliveries_for_event ?e ?run no_faults ''t'' ''ev'' live_options ?db = (d1, Inl ErrCanceled)"
    using ts(1) by (simp add: fanout_of_event [OF sample_event_read(1,2)])
  ultimately show ?thesis by (intro exI [of _ d] exI [of _ p]) (simp add: d(1))
qed

theorem repeated_fanout_duplicates_witness:
  "\<exists>db1 db2 ds1 ds2. create_deliveries_for_event sample_fanout_env (sample_run CHR ''1'' second_fails) no_faults ''t'' ''ev'' live_options
       (sample_targets_db True) = (db1, Inl ErrCanceled)
     \<and> create_deliveries_for_event sample_fanout_env (sample_run CHR ''2'' (\<lambda>_. no_faults)) no_faults ''t'' ''ev'' live_options db1 = (db2, Inr 2)
     \<and> deliveries db2 = deliveries (sample_targets_db True) @ ds1 @ ds2 \<and> 0 < length ds1"
proof -
  let ?db = "sample_targets_db True" and ?run = "sample_run CHR ''2'' (\<lambda>_. no_faults)"
  obtain d p where one: "create_deliveries_for_event sample_fanout_env (sample_run CHR ''1'' second_fails) no_faults ''t'' ''ev'' live_options
      ?db = (appended [d] [p] [] [] ?db, Inl ErrCanceled)" and ids: "dv_id d = ''1d''" "dp_id p = ''1p''" "dp_delivery p = ''1d''"
    using sample_fanout_fails by blast
  let ?db1 = "appended [d] [p] [] [] ?db"
  have fresh: "fresh_from ?run 0 ?db1" using ids by (auto simp: fresh_from_def sample_run_def sample_gateway_db_def)
  have src: "payload_source no_faults ?db1 ''t'' ''ev'' = Inr (''n'', [], ''{}'')"
    using sample_event_read(3) by (subst payload_source_cong [of _ ?db]) simp_all
  have ev: "get_event no_faults ?db1 ''t'' ''ev'' = Inr (sample_event True)"
    using sample_event_read(1) by (simp add: get_event_cong [of ?db1 ?db])
  have n: "length (event_targets ?db1 (sample_event True) ''t'') = 2" by (simp add: sample_targets)
  have f: "fr_faults ?run i = no_faults" for i by (simp add: sample_run_def)
  have b: "\<forall>g \<in> set (event_targets ?db1 (sample_event True) ''t''). \<exists>body. payload_body sample_fanout_env no_faults ?db1 ''t'' ''{}'' (ft_transformation g) = Inr body"
    unfolding event_targets_appended by (rule sample_bodies)
  obtain db2 where "create_deliveries sample_fanout_env ?run live_options ''t'' ''ev'' 0 (event_targets ?db1 (sample_event True) ''t'') ?db1 = (db2, Inr (0 + 2))"
    using create_deliveries_run [OF f sample_run_ids(1) src b fresh, where opts = live_options] unfolding n by blast
  then have two: "create_deliveries_for_event sample_fanout_env ?run no_faults ''t'' ''ev'' live_options ?db1 = (db2, Inr 2)"
    by (simp add: fanout_of_event [OF ev sample_event_read(2)])
  have "deliveries ?db1 \<noteq> deliveries ?db" by simp
  from repeated_fanout_duplicates [OF one this two] obtain ds1 ds2 where
    "deliveries db2 = deliveries ?db @ ds1 @ ds2" "0 < length ds1" by blast
  with one two show ?thesis by (intro exI conjI)
qed

end
