(* ===== verification/Replay_Jobs.thy ===== *)
theory Replay_Jobs
  imports Delivery_Fanout Authz_Policy
begin

text \<open>
  Replays: the requests of internal/app/control.go and the jobs of
  internal/adapters/postgres/store.go with their approval policies, the release of dead letters,
  and the decisions about quarantined events. A store call takes its failing statements, the
  time of the transaction, the clock of the process, read once, and the generated identifiers
  from \<open>store_call\<close>. \<open>replay_lib\<close> holds SHA-256 and the encoding of a request as the JSON scope
  of its job.
\<close>

section \<open>Model: requests\<close>

record replay_request =
  pq_event :: string
  pq_delivery :: string
  pq_endpoint :: string
  pq_reason_code :: string
  pq_reason :: string
  pq_dry_run :: bool
  pq_config_mode :: string
  pq_rate_limit :: int
  pq_require_approval :: bool
  pq_expires :: "gotime option"

record replay_lib =
  rl_sha :: "string \<Rightarrow> string"
  rl_marshal :: "replay_request \<Rightarrow> string"
  rl_jsonb :: "string \<Rightarrow> string"
  rl_unmarshal :: "string \<Rightarrow> replay_request option"

record store_call =
  sc_faults :: faults
  sc_now :: gotime
  sc_clock :: gotime
  sc_id :: string
  sc_outbox :: string
  sc_audit :: string
  sc_entry :: string

definition replay_reason_codes :: "string list" where
  "replay_reason_codes = [''receiver_fixed'', ''provider_reconciliation'', ''operator_requested'', ''support_investigation'',
     ''customer_dispute'', ''test_drill'', ''incident_recovery'']"

definition replay_approval_default_expiry :: int where
  "replay_approval_default_expiry = 24 * 60 * ns_minute"

definition validate_replay_reason_code :: "string \<Rightarrow> unit res" where
  "validate_replay_reason_code code =
     bind_res (guard_res (code \<noteq> []) (ErrInvalidInput ''reason_code is required'')) (\<lambda>_.
     guard_res (code \<in> set replay_reason_codes) (ErrInvalidInput ''reason_code must be known''))"

definition trim_replay_request :: "replay_request \<Rightarrow> replay_request" where
  "trim_replay_request req = (let mode = trim_space (pq_config_mode req) in
     req\<lparr>pq_event := trim_space (pq_event req), pq_delivery := trim_space (pq_delivery req),
         pq_endpoint := trim_space (pq_endpoint req), pq_reason_code := trim_space (pq_reason_code req),
         pq_reason := trim_space (pq_reason req), pq_config_mode := (if mode = [] then ''current'' else mode)\<rparr>)"

definition default_approval_expiry :: "gotime \<Rightarrow> replay_request \<Rightarrow> replay_request" where
  "default_approval_expiry clock req =
     (if pq_require_approval req \<and> pq_expires req = None
      then req\<lparr>pq_expires := Some (clock + replay_approval_default_expiry)\<rparr> else req)"

definition expires_in_future :: "gotime \<Rightarrow> replay_request \<Rightarrow> bool" where
  "expires_in_future clock req = (case pq_expires req of None \<Rightarrow> False | Some t \<Rightarrow> clock < t)"

definition normalize_replay_request :: "gotime \<Rightarrow> replay_request \<Rightarrow> bool \<Rightarrow> bool \<Rightarrow> replay_request res" where
  "normalize_replay_request clock req0 require_scope require_reason =
     (let req = trim_replay_request req0 in
      bind_res (if require_reason
         then bind_res (guard_res (pq_reason req \<noteq> []) (ErrInvalidInput ''reason is required''))
                (\<lambda>_. validate_replay_reason_code (pq_reason_code req))
         else Inr ()) (\<lambda>_.
      bind_res (guard_res (pq_config_mode req = ''current'' \<or> pq_config_mode req = ''original'')
         (ErrInvalidInput ''config_mode must be current or original'')) (\<lambda>_.
      bind_res (guard_res (0 \<le> pq_rate_limit req \<and> pq_rate_limit req \<le> 60000)
         (ErrInvalidInput ''rate_limit_per_minute must be between 0 and 60000'')) (\<lambda>_.
      bind_res (guard_res (pq_require_approval req \<or> pq_expires req = None)
         (ErrInvalidInput ''approval_expires_at requires require_approval'')) (\<lambda>_.
      let req1 = default_approval_expiry clock req in
      bind_res (guard_res (pq_require_approval req1 \<longrightarrow> expires_in_future clock req1)
         (ErrInvalidInput ''approval_expires_at must be in the future'')) (\<lambda>_.
      bind_res (guard_res (require_scope \<longrightarrow> pq_event req1 \<noteq> [] \<or> pq_delivery req1 \<noteq> [])
         (ErrInvalidInput ''event_id or delivery_id is required'')) (\<lambda>_. Inr req1)))))))"

section \<open>Model: approval policies\<close>

record policy_request =
  pl_scope_type :: string
  pl_scope_id :: string
  pl_require_approval :: bool
  pl_default_expiry :: int
  pl_reason :: string

definition normalize_replay_approval_policy_request :: "policy_request \<Rightarrow> policy_request res" where
  "normalize_replay_approval_policy_request req =
     (let typ = trim_space (pl_scope_type req); sid = trim_space (pl_scope_id req); reason = trim_space (pl_reason req);
          expiry = (if pl_default_expiry req = 0 then 86400 else pl_default_expiry req) in
      bind_res (guard_res (typ \<noteq> [] \<and> reason \<noteq> []) (ErrInvalidInput ''scope_type and reason are required'')) (\<lambda>_.
      bind_res (if typ = ''tenant'' then Inr []
         else if typ = ''source'' \<or> typ = ''route''
         then (if sid = [] then Inl (ErrInvalidInput ''scope_id is required for source and route replay approval policies'') else Inr sid)
         else Inl (ErrInvalidInput ''scope_type must be tenant, source, or route'')) (\<lambda>scope.
      bind_res (guard_res (300 \<le> expiry \<and> expiry \<le> 604800)
         (ErrInvalidInput ''default_expiry_seconds must be between 300 and 604800'')) (\<lambda>_.
      Inr \<lparr> pl_scope_type = typ, pl_scope_id = scope, pl_require_approval = True, pl_default_expiry = expiry,
            pl_reason = reason \<rparr>))))"

definition audit_of :: "string \<Rightarrow> string \<Rightarrow> string \<Rightarrow> string \<Rightarrow> string \<Rightarrow> string \<Rightarrow> audit_input" where
  "audit_of tenant actor action resource resource_id reason = \<lparr> ai_tenant = tenant, ai_actor = actor, ai_action = action,
     ai_resource = resource, ai_resource_id = resource_id, ai_reason = reason, ai_occurred_at = 0, ai_source = [] \<rparr>"

definition audit_tx :: "replay_lib \<Rightarrow> store_call \<Rightarrow> audit_input \<Rightarrow> ('a audit_db_scheme, audit_event) tx" where
  "audit_tx lib call = record_audit_event_tx (rl_sha lib) (sc_faults call) (sc_now call) (sc_audit call) (sc_entry call)"

text \<open>The key of a policy is its tenant and scope; a conflicting insert replaces the terms.\<close>

definition create_replay_approval_policy ::
    "replay_lib \<Rightarrow> store_call \<Rightarrow> string \<Rightarrow> string \<Rightarrow> policy_request \<Rightarrow> ('a gateway_db_scheme, replay_approval_policy_row) act" where
  "create_replay_approval_policy lib call tenant actor req =
     (let typ = trim_space (pl_scope_type req);
          sid = (if typ = ''tenant'' then [] else trim_space (pl_scope_id req));
          expiry = (if pl_default_expiry req = 0 then 86400 else pl_default_expiry req);
          same = (\<lambda>p. pp_tenant p = tenant \<and> pp_scope_type p = typ \<and> pp_scope_id p = sid);
          upd = (\<lambda>p. p\<lparr>pp_require_approval := True, pp_default_expiry_seconds := expiry, pp_state := ''active'',
             pp_updated_at := sc_now call\<rparr>);
          new = \<lparr> pp_id = sc_id call, pp_tenant = tenant, pp_scope_type = typ, pp_scope_id = sid, pp_require_approval = True,
             pp_default_expiry_seconds = expiry, pp_state = ''active'', pp_updated_at = sc_now call \<rparr>
      in run_tx (sc_faults call)
        (bind_tx (try_tx (sc_faults call) ''upsert_policy'' (\<lambda>db.
            case filter same (replay_approval_policies db) of
              p # _ \<Rightarrow> Inr (replay_approval_policies_update (update_where same upd) db, upd p)
            | [] \<Rightarrow> if sc_id call \<in> pp_id ` set (replay_approval_policies db) then Inl (ErrOther ''replay_approval_policies_pkey'')
                else Inr (replay_approval_policies_update (\<lambda>ps. ps @ [new]) db, new))) (\<lambda>p.
         then_tx (audit_tx lib call (audit_of tenant actor ''replay_approval_policy.upserted'' ''replay_approval_policy'' (pp_id p) (pl_reason req)))
           (return_tx p))))"

definition disable_replay_approval_policy ::
    "replay_lib \<Rightarrow> store_call \<Rightarrow> string \<Rightarrow> string \<Rightarrow> string \<Rightarrow> string \<Rightarrow> ('a gateway_db_scheme, replay_approval_policy_row) act" where
  "disable_replay_approval_policy lib call tenant policy_id actor reason = run_tx (sc_faults call)
     (bind_tx (not_found_tx (update_returning (sc_faults call) ''disable_policy'' replay_approval_policies replay_approval_policies_update
         (\<lambda>p. pp_tenant p = tenant \<and> pp_id p = policy_id) (\<lambda>p. p\<lparr>pp_state := ''disabled'', pp_updated_at := sc_now call\<rparr>))) (\<lambda>p.
      then_tx (audit_tx lib call (audit_of tenant actor ''replay_approval_policy.disabled'' ''replay_approval_policy'' policy_id reason))
        (return_tx p)))"

text \<open>The source and the routes that a request touches.\<close>

definition no_rows_default :: "'a \<Rightarrow> 'a res \<Rightarrow> 'a res" where
  "no_rows_default a r = (case r of Inl ErrNoRows \<Rightarrow> Inr a | _ \<Rightarrow> r)"

definition delivery_scope :: "faults \<Rightarrow> 'a delivery_db_scheme \<Rightarrow> string \<Rightarrow> string \<Rightarrow> (string \<times> string list) res" where
  "delivery_scope f db tenant delivery_id =
     (if delivery_id = [] then Inr ([], [])
      else bind_res (no_rows_default ([], []) (query_row f ''policy_delivery''
             (concat (map (\<lambda>d. map (\<lambda>e. (dv_route d, ev_source e))
                (filter (\<lambda>e. ev_tenant e = dv_tenant d \<and> ev_id e = dv_event d) (events db)))
                (filter (\<lambda>d. dv_tenant d = tenant \<and> dv_id d = delivery_id) (deliveries db))))))
           (\<lambda>(route, src). Inr (src, if route = [] then [] else [route])))"

definition event_scope ::
    "faults \<Rightarrow> 'a delivery_db_scheme \<Rightarrow> string \<Rightarrow> replay_request \<Rightarrow> string \<times> string list \<Rightarrow> (string \<times> string list) res" where
  "event_scope f db tenant req = (\<lambda>(src0, routes0).
     if pq_event req = [] then Inr (src0, routes0)
     else bind_res (no_rows_default (src0, []) (query_row f ''policy_event'' (map (\<lambda>e. (ev_source e, ev_type e))
            (filter (\<lambda>e. ev_tenant e = tenant \<and> ev_id e = pq_event req) (events db))))) (\<lambda>(src, typ).
          bind_res (if src = [] then Inr [] else query_rows f ''policy_routes'' (map rt_id (filter (\<lambda>r. rt_tenant r = tenant
             \<and> rt_source r = src \<and> rt_state r = ''active'' \<and> typ \<in> set (rt_event_types r)) (routes db)))) (\<lambda>routes1.
          bind_res (if pq_config_mode req \<noteq> ''original'' then Inr []
             else query_rows f ''policy_original'' (remdups (map dv_route (filter (\<lambda>d. dv_tenant d = tenant
                \<and> dv_event d = pq_event req \<and> dv_route d \<noteq> []) (deliveries db))))) (\<lambda>routes2.
          Inr (src, routes0 @ routes1 @ routes2)))))"

definition policy_query :: "faults \<Rightarrow> string \<Rightarrow> replay_approval_policy_row list \<Rightarrow> replay_approval_policy_row option res" where
  "policy_query f lbl rows = no_rows_default None (bind_res (query_row f lbl rows) (\<lambda>p. Inr (Some p)))"

definition approval_policy_rows ::
    "'a gateway_db_scheme \<Rightarrow> string \<Rightarrow> string \<Rightarrow> (string \<Rightarrow> bool) \<Rightarrow> replay_approval_policy_row list" where
  "approval_policy_rows db tenant typ scope = filter (\<lambda>p. pp_tenant p = tenant \<and> pp_scope_type p = typ \<and> scope (pp_scope_id p)
     \<and> pp_state p = ''active'' \<and> pp_require_approval p) (replay_approval_policies db)"

definition replay_approval_policy_for_replay ::
    "faults \<Rightarrow> 'a gateway_db_scheme \<Rightarrow> string \<Rightarrow> replay_request \<Rightarrow> replay_approval_policy_row option res" where
  "replay_approval_policy_for_replay f db tenant req =
     bind_res (delivery_scope f db tenant (pq_delivery req)) (\<lambda>scope0.
     bind_res (event_scope f db tenant req scope0) (\<lambda>(src, rts).
     bind_res (if rts = [] then Inr None
        else policy_query f ''route_policy'' (order_by (\<lambda>p. - pp_updated_at p) (approval_policy_rows db tenant ''route'' (\<lambda>i. i \<in> set rts)))) (\<lambda>p1.
     case p1 of Some p \<Rightarrow> Inr (Some p) | None \<Rightarrow>
     bind_res (if src = [] then Inr None else policy_query f ''source_policy'' (approval_policy_rows db tenant ''source'' (\<lambda>i. i = src))) (\<lambda>p2.
     case p2 of Some p \<Rightarrow> Inr (Some p) | None \<Rightarrow>
     policy_query f ''tenant_policy'' (approval_policy_rows db tenant ''tenant'' (\<lambda>i. i = []))))))"

section \<open>Model: jobs\<close>

record replay_dry_run =
  rd_total :: int
  rd_warnings :: "string list"

definition dry_run_events :: "faults \<Rightarrow> 'a gateway_db_scheme \<Rightarrow> string \<Rightarrow> replay_request \<Rightarrow> int res" where
  "dry_run_events f db tenant req =
     (if pq_event req = [] then Inr 0
      else if pq_config_mode req = ''original''
      then query_row f ''count_original'' [int (length (filter (\<lambda>d. dv_tenant d = tenant \<and> dv_event d = pq_event req
             \<and> dv_replay_job d = []) (deliveries db)))]
      else bind_res (get_event f db tenant (pq_event req)) (\<lambda>e.
           if \<not> ev_verified e then Inr 0
           else query_row f ''count_targets''
             [int (length (filter (\<lambda>s. sb_tenant s = tenant \<and> sb_state s = ''active'' \<and> ev_type e \<in> set (sb_event_types s)) (subscriptions db)))
              + int (length (filter (\<lambda>r. rt_tenant r = tenant \<and> rt_source r = ev_source e \<and> rt_state r = ''active''
                  \<and> ev_type e \<in> set (rt_event_types r)) (routes db)))]))"

definition deleted_payloads :: "'a gateway_db_scheme \<Rightarrow> (delivery_row \<Rightarrow> bool) \<Rightarrow> int" where
  "deleted_payloads db p = int (length (concat (map (\<lambda>d. filter (\<lambda>x. dp_tenant x = dv_tenant d \<and> dp_id x = dv_payload d
     \<and> dp_status x \<noteq> ''stored'') (delivery_payloads db)) (filter p (deliveries db)))))"

definition dry_run_replay :: "faults \<Rightarrow> 'a gateway_db_scheme \<Rightarrow> string \<Rightarrow> replay_request \<Rightarrow> replay_dry_run res" where
  "dry_run_replay f db tenant req0 =
     (let req = (if pq_config_mode req0 = [] then req0\<lparr>pq_config_mode := ''current''\<rparr> else req0);
          original = (pq_config_mode req = ''original'' \<and> pq_event req \<noteq> []) in
      bind_res (dry_run_events f db tenant req) (\<lambda>n1.
      bind_res (if pq_delivery req = [] then Inr 0
         else query_row f ''count_delivery'' [int (length (filter (\<lambda>d. dv_tenant d = tenant \<and> dv_id d = pq_delivery req) (deliveries db)))]) (\<lambda>n2.
      bind_res (if \<not> original then Inr 0 else query_row f ''deleted_original'' [deleted_payloads db (\<lambda>d. dv_tenant d = tenant
           \<and> dv_event d = pq_event req \<and> dv_replay_job d = [])]) (\<lambda>x1.
      bind_res (if pq_delivery req = [] then Inr 0 else query_row f ''deleted_delivery'' [deleted_payloads db (\<lambda>d. dv_tenant d = tenant
           \<and> dv_id d = pq_delivery req)]) (\<lambda>x2.
      Inr \<lparr> rd_total = n1 + n2, rd_warnings =
          (if original \<and> n1 + n2 = 0 then [''original config event replay found no original delivery decisions''] else [])
          @ (if x1 > 0 then [''original config replay includes delivery payload bodies deleted by retention''] else [])
          @ (if x2 > 0 then [''selected delivery payload body was deleted by retention''] else [])
          @ (if pq_rate_limit req > 0 then [''rate limit applies to replay scheduling and does not change live delivery priority''] else []) \<rparr>)))))"

definition replay_audit_reason :: "replay_request \<Rightarrow> string" where
  "replay_audit_reason req = join_with '' ''
     ([''reason_code='' @ pq_reason_code req, ''reason='' @ pq_reason req, ''config_mode='' @ pq_config_mode req]
      @ (if pq_event req = [] then [] else [''event_id='' @ pq_event req])
      @ (if pq_delivery req = [] then [] else [''delivery_id='' @ pq_delivery req])
      @ (if pq_endpoint req = [] then [] else [''endpoint_id='' @ pq_endpoint req])
      @ (if pq_require_approval req then [''approval_required=true'']
           @ (case pq_expires req of None \<Rightarrow> [] | Some t \<Rightarrow> [''approval_expires_at='' @ rfc3339_nano (t - t mod ns_second)]) else [])
      @ (if pq_rate_limit req > 0 then [''rate_limit_per_minute='' @ itoa (pq_rate_limit req)] else []))"

definition replay_request_defaults :: "replay_request \<Rightarrow> replay_request" where
  "replay_request_defaults req =
     (let code = trim_space (pq_reason_code req) in
      req\<lparr>pq_config_mode := (if pq_config_mode req = [] then ''current'' else pq_config_mode req),
          pq_reason_code := (if code = [] then ''operator_requested'' else code), pq_reason := trim_space (pq_reason req)\<rparr>)"

definition apply_replay_policy :: "gotime \<Rightarrow> replay_approval_policy_row option \<Rightarrow> replay_request \<Rightarrow> replay_request" where
  "apply_replay_policy clock policy req =
     (case policy of None \<Rightarrow> req
      | Some p \<Rightarrow> if \<not> pp_require_approval p then req
          else let seconds = (if pp_default_expiry_seconds p \<le> 0 then 86400 else pp_default_expiry_seconds p) in
            (if pq_expires req = None then req\<lparr>pq_require_approval := True, pq_expires := Some (clock + wrap64 (seconds * ns_second))\<rparr>
             else req\<lparr>pq_require_approval := True\<rparr>))"

definition replay_job_of :: "replay_lib \<Rightarrow> store_call \<Rightarrow> string \<Rightarrow> string \<Rightarrow> replay_request \<Rightarrow> int \<Rightarrow> replay_job_row" where
  "replay_job_of lib call tenant actor req cnt =
     \<lparr> rj_id = sc_id call, rj_tenant = tenant, rj_state = (if pq_require_approval req then ''pending_approval'' else ''scheduled''),
       rj_scope = rl_jsonb lib (rl_marshal lib req), rj_scope_hash = sha256_text (rl_sha lib) (rl_marshal lib req),
       rj_reason_code = pq_reason_code req, rj_reason = pq_reason req, rj_created_by = actor, rj_total_items = cnt,
       rj_processed_items = 0, rj_config_mode = pq_config_mode req, rj_rate_limit = pq_rate_limit req,
       rj_approval_required = pq_require_approval req, rj_approval_expires = pq_expires req, rj_approved_by = [],
       rj_approved_at = None, rj_approval_reason = [], rj_paused_at = None, rj_canceled_at = None, rj_completed_at = None \<rparr>"

definition insert_outbox :: "store_call \<Rightarrow> string \<Rightarrow> string \<Rightarrow> string \<Rightarrow> ('a ingest_db_scheme, unit) tx" where
  "insert_outbox call tenant kind resource = insert_row (sc_faults call) ''insert_outbox'' ob_id outbox outbox_update
     (route_event_row (sc_now call) (sc_outbox call) tenant kind resource)"

definition insert_replay_job ::
    "replay_lib \<Rightarrow> store_call \<Rightarrow> string \<Rightarrow> string \<Rightarrow> replay_request \<Rightarrow> int \<Rightarrow> ('a gateway_db_scheme, replay_job_row) tx" where
  "insert_replay_job lib call tenant actor req cnt =
     (let job = replay_job_of lib call tenant actor req cnt in
      then_tx (insert_row (sc_faults call) ''insert_replay_job'' rj_id replay_jobs replay_jobs_update job)
      (then_tx (if pq_require_approval req then return_tx () else insert_outbox call tenant ''replay_job'' (sc_id call))
      (then_tx (audit_tx lib call (audit_of tenant actor ''replay.created'' ''replay_job'' (sc_id call) (replay_audit_reason req)))
      (return_tx job))))"

definition create_replay ::
    "replay_lib \<Rightarrow> store_call \<Rightarrow> string \<Rightarrow> string \<Rightarrow> replay_request \<Rightarrow> ('a gateway_db_scheme, replay_job_row) act" where
  "create_replay lib call tenant actor req0 =
     (let f = sc_faults call; req1 = replay_request_defaults req0 in
      bind_act (read_act (\<lambda>db. replay_approval_policy_for_replay f db tenant req1)) (\<lambda>policy.
      let req = default_approval_expiry (sc_clock call) (apply_replay_policy (sc_clock call) policy req1) in
      if pq_require_approval req \<and> \<not> expires_in_future (sc_clock call) req
      then fail_act (ErrInvalidInput ''approval_expires_at must be in the future'')
      else bind_act (read_act (\<lambda>db. dry_run_replay f db tenant req)) (\<lambda>dry.
           run_tx f (insert_replay_job lib call tenant actor req (rd_total dry)))))"

definition approvable :: "gotime \<Rightarrow> string \<Rightarrow> string \<Rightarrow> string \<Rightarrow> replay_job_row \<Rightarrow> bool" where
  "approvable now tenant job_id actor j \<longleftrightarrow> rj_tenant j = tenant \<and> rj_id j = job_id \<and> rj_created_by j \<noteq> actor
     \<and> rj_state j = ''pending_approval'' \<and> rj_approval_required j
     \<and> (case rj_approval_expires j of None \<Rightarrow> False | Some t \<Rightarrow> now < t)"

definition approve_row :: "gotime \<Rightarrow> string \<Rightarrow> string \<Rightarrow> replay_job_row \<Rightarrow> replay_job_row" where
  "approve_row now actor reason j = j\<lparr>rj_state := ''scheduled'', rj_approved_by := actor, rj_approved_at := Some now,
     rj_approval_reason := reason\<rparr>"

definition approve_replay_job ::
    "replay_lib \<Rightarrow> store_call \<Rightarrow> string \<Rightarrow> string \<Rightarrow> string \<Rightarrow> string \<Rightarrow> ('a gateway_db_scheme, replay_job_row) act" where
  "approve_replay_job lib call tenant job_id actor reason =
     (let f = sc_faults call; p = approvable (sc_now call) tenant job_id actor in
      run_tx f
        (then_tx (not_found_tx (read_tx (\<lambda>db. query_row f ''lock_replay_job'' (filter p (replay_jobs db)))))
        (bind_tx (update_returning f ''approve_replay_job'' replay_jobs replay_jobs_update p (approve_row (sc_now call) actor reason)) (\<lambda>job.
         then_tx (insert_outbox call tenant ''replay_job'' job_id)
         (then_tx (audit_tx lib call (audit_of tenant actor ''replay.approved'' ''replay_job'' job_id reason))
         (return_tx job))))))"

definition replay_state_guard :: "string \<Rightarrow> replay_job_row \<Rightarrow> bool" where
  "replay_state_guard state j \<longleftrightarrow> rj_state j \<notin> {''completed'', ''canceled''} \<and> (state = ''scheduled'' \<longrightarrow> rj_state j \<noteq> ''pending_approval'')"

definition set_replay_state :: "gotime \<Rightarrow> string \<Rightarrow> replay_job_row \<Rightarrow> replay_job_row" where
  "set_replay_state now state j =
     (let j1 = j\<lparr>rj_state := state\<rparr> in
      if state = ''paused'' then j1\<lparr>rj_paused_at := Some now\<rparr>
      else if state = ''canceled'' then j1\<lparr>rj_canceled_at := Some now\<rparr> else j1)"

definition update_replay_state ::
    "replay_lib \<Rightarrow> store_call \<Rightarrow> string \<Rightarrow> string \<Rightarrow> string \<Rightarrow> string \<Rightarrow> string \<Rightarrow> string \<Rightarrow> ('a gateway_db_scheme, replay_job_row) act" where
  "update_replay_state lib call tenant job_id actor reason state action = run_tx (sc_faults call)
     (bind_tx (not_found_tx (update_returning (sc_faults call) ''update_replay_state'' replay_jobs replay_jobs_update
         (\<lambda>j. rj_tenant j = tenant \<and> rj_id j = job_id \<and> replay_state_guard state j) (set_replay_state (sc_now call) state))) (\<lambda>job.
      then_tx (audit_tx lib call (audit_of tenant actor action ''replay_job'' job_id reason)) (return_tx job)))"

definition pause_replay_job ::
    "replay_lib \<Rightarrow> store_call \<Rightarrow> string \<Rightarrow> string \<Rightarrow> string \<Rightarrow> string \<Rightarrow> ('a gateway_db_scheme, replay_job_row) act" where
  "pause_replay_job lib call tenant job_id actor reason = update_replay_state lib call tenant job_id actor reason ''paused'' ''replay.paused''"

definition resume_replay_job ::
    "replay_lib \<Rightarrow> store_call \<Rightarrow> string \<Rightarrow> string \<Rightarrow> string \<Rightarrow> string \<Rightarrow> ('a gateway_db_scheme, replay_job_row) act" where
  "resume_replay_job lib call tenant job_id actor reason = update_replay_state lib call tenant job_id actor reason ''scheduled'' ''replay.resumed''"

definition cancel_replay_job ::
    "replay_lib \<Rightarrow> store_call \<Rightarrow> string \<Rightarrow> string \<Rightarrow> string \<Rightarrow> string \<Rightarrow> ('a gateway_db_scheme, replay_job_row) act" where
  "cancel_replay_job lib call tenant job_id actor reason = update_replay_state lib call tenant job_id actor reason ''canceled'' ''replay.canceled''"

section \<open>Model: dead letters and quarantine\<close>

text \<open>The release of a dead letter is two transactions: the replay job, then the entry.\<close>

definition release_dead_letter ::
    "replay_lib \<Rightarrow> store_call \<Rightarrow> store_call \<Rightarrow> string \<Rightarrow> string \<Rightarrow> string \<Rightarrow> string \<Rightarrow> string \<Rightarrow> ('a gateway_db_scheme, replay_job_row) act" where
  "release_dead_letter lib call call2 tenant entry_id actor code reason =
     bind_act (read_act (\<lambda>db. no_rows_not_found (query_row (sc_faults call) ''dead_letter'' (filter (\<lambda>x. dd_tenant x = tenant
        \<and> dd_id x = entry_id \<and> dd_state x = ''open'') (dead_letter_entries db))))) (\<lambda>entry.
     bind_act (create_replay lib call tenant actor
        \<lparr> pq_event = (if dd_delivery entry = [] then dd_event entry else []), pq_delivery = dd_delivery entry, pq_endpoint = [],
          pq_reason_code = code, pq_reason = reason, pq_dry_run = False, pq_config_mode = [], pq_rate_limit = 0,
          pq_require_approval = False, pq_expires = None \<rparr>) (\<lambda>job.
     run_tx (sc_faults call2)
       (then_tx (update_rows (sc_faults call2) ''release_dead_letter'' dead_letter_entries_update
            (\<lambda>x. dd_tenant x = tenant \<and> dd_id x = entry_id) (\<lambda>x. x\<lparr>dd_state := ''released''\<rparr>))
       (then_tx (audit_tx lib call2 (audit_of tenant actor ''dead_letter.released'' ''dead_letter_entry'' entry_id reason))
       (return_tx job)))))"

text \<open>The identifiers come from the request, or are the first hundred open entries; the table lists its rows in the order of their creation.\<close>

fun release_entries ::
    "replay_lib \<Rightarrow> (nat \<Rightarrow> store_call \<times> store_call) \<Rightarrow> string \<Rightarrow> string \<Rightarrow> string \<Rightarrow> string \<Rightarrow> nat \<Rightarrow> string list \<Rightarrow>
     ('a gateway_db_scheme, replay_job_row list) act" where
  "release_entries lib calls tenant actor code reason i [] = return_act []"
| "release_entries lib calls tenant actor code reason i (e # es) =
     bind_act (release_dead_letter lib (fst (calls i)) (snd (calls i)) tenant e actor code reason) (\<lambda>job.
     bind_act (release_entries lib calls tenant actor code reason (i + 1) es) (\<lambda>jobs. return_act (job # jobs)))"

definition bulk_release_dead_letter ::
    "replay_lib \<Rightarrow> faults \<Rightarrow> (nat \<Rightarrow> store_call \<times> store_call) \<Rightarrow> string \<Rightarrow> string list \<Rightarrow> string \<Rightarrow> string \<Rightarrow> string \<Rightarrow>
     ('a gateway_db_scheme, replay_job_row list) act" where
  "bulk_release_dead_letter lib f calls tenant entry_ids actor code reason =
     bind_act (if entry_ids \<noteq> [] then return_act entry_ids
        else read_act (\<lambda>db. query_rows f ''open_dead_letters'' (take 100 (map dd_id (filter (\<lambda>x. dd_tenant x = tenant \<and> dd_state x = ''open'')
               (dead_letter_entries db)))))) (\<lambda>ids.
     release_entries lib calls tenant actor code reason 0 ids)"

definition decide_quarantine ::
    "replay_lib \<Rightarrow> store_call \<Rightarrow> string \<Rightarrow> string \<Rightarrow> string \<Rightarrow> string \<Rightarrow> string \<Rightarrow> string \<Rightarrow> bool \<Rightarrow> ('a gateway_db_scheme, string) act" where
  "decide_quarantine lib call tenant entry_id actor reason state action route = run_tx (sc_faults call)
     (bind_tx (not_found_tx (update_returning (sc_faults call) ''decide_quarantine'' quarantine_entries quarantine_entries_update
         (\<lambda>q. qu_tenant q = tenant \<and> qu_id q = entry_id \<and> qu_state q = ''open'') (\<lambda>q. q\<lparr>qu_state := state\<rparr>))) (\<lambda>q.
      then_tx (audit_tx lib call (audit_of tenant actor action ''quarantine_entry'' entry_id reason))
      (then_tx (if route \<and> qu_event q \<noteq> [] then insert_outbox call tenant ''route_event'' (qu_event q) else return_tx ())
      (return_tx (qu_event q)))))"

definition approve_quarantine ::
    "replay_lib \<Rightarrow> store_call \<Rightarrow> string \<Rightarrow> string \<Rightarrow> string \<Rightarrow> string \<Rightarrow> bool \<Rightarrow> ('a gateway_db_scheme, string) act" where
  "approve_quarantine lib call tenant entry_id actor reason route =
     decide_quarantine lib call tenant entry_id actor reason ''approved'' ''quarantine.approved'' route"

definition reject_quarantine ::
    "replay_lib \<Rightarrow> store_call \<Rightarrow> string \<Rightarrow> string \<Rightarrow> string \<Rightarrow> string \<Rightarrow> ('a gateway_db_scheme, string) act" where
  "reject_quarantine lib call tenant entry_id actor reason =
     decide_quarantine lib call tenant entry_id actor reason ''rejected'' ''quarantine.rejected'' False"

section \<open>Model: the control service\<close>

text \<open>Every operation asks the authorizer for its permission first.\<close>

definition control_create_replay ::
    "'s explain_store option \<Rightarrow> 's \<Rightarrow> replay_lib \<Rightarrow> store_call \<Rightarrow> actor \<Rightarrow> replay_request \<Rightarrow> ('a gateway_db_scheme, replay_job_row) act" where
  "control_create_replay store adb lib call a req =
     (if \<not> authorized store adb a ''replay:write'' ''replay'' (pq_event req) [] then fail_act ErrForbidden
      else bind_act (read_act (\<lambda>_. normalize_replay_request (sc_clock call) req True True)) (\<lambda>r.
           create_replay lib call (actor_tenant a) (actor_id a) r))"

definition control_dry_run_replay ::
    "'s explain_store option \<Rightarrow> 's \<Rightarrow> store_call \<Rightarrow> actor \<Rightarrow> replay_request \<Rightarrow> ('a gateway_db_scheme, replay_dry_run) act" where
  "control_dry_run_replay store adb call a req =
     (if \<not> authorized store adb a ''replay:read'' ''replay'' (pq_event req) [] then fail_act ErrForbidden
      else bind_act (read_act (\<lambda>_. normalize_replay_request (sc_clock call) req False True)) (\<lambda>r.
           read_act (\<lambda>db. dry_run_replay (sc_faults call) db (actor_tenant a) r)))"

definition change_replay_state ::
    "'s explain_store option \<Rightarrow> 's \<Rightarrow> actor \<Rightarrow> string \<Rightarrow> string \<Rightarrow>
     (string \<Rightarrow> string \<Rightarrow> string \<Rightarrow> string \<Rightarrow> ('a gateway_db_scheme, replay_job_row) act) \<Rightarrow> ('a gateway_db_scheme, replay_job_row) act" where
  "change_replay_state store adb a job_id reason op =
     (if \<not> authorized store adb a ''replay:write'' ''replay'' job_id [] then fail_act ErrForbidden
      else if trim_space reason = [] then fail_act (ErrInvalidInput ''reason is required'')
      else op (actor_tenant a) job_id (actor_id a) reason)"

definition control_approve_replay_job ::
    "'s explain_store option \<Rightarrow> 's \<Rightarrow> replay_lib \<Rightarrow> store_call \<Rightarrow> actor \<Rightarrow> string \<Rightarrow> string \<Rightarrow> ('a gateway_db_scheme, replay_job_row) act" where
  "control_approve_replay_job store adb lib call a job_id reason = change_replay_state store adb a job_id reason (approve_replay_job lib call)"

definition control_pause_replay_job ::
    "'s explain_store option \<Rightarrow> 's \<Rightarrow> replay_lib \<Rightarrow> store_call \<Rightarrow> actor \<Rightarrow> string \<Rightarrow> string \<Rightarrow> ('a gateway_db_scheme, replay_job_row) act" where
  "control_pause_replay_job store adb lib call a job_id reason = change_replay_state store adb a job_id reason (pause_replay_job lib call)"

definition control_resume_replay_job ::
    "'s explain_store option \<Rightarrow> 's \<Rightarrow> replay_lib \<Rightarrow> store_call \<Rightarrow> actor \<Rightarrow> string \<Rightarrow> string \<Rightarrow> ('a gateway_db_scheme, replay_job_row) act" where
  "control_resume_replay_job store adb lib call a job_id reason = change_replay_state store adb a job_id reason (resume_replay_job lib call)"

definition control_cancel_replay_job ::
    "'s explain_store option \<Rightarrow> 's \<Rightarrow> replay_lib \<Rightarrow> store_call \<Rightarrow> actor \<Rightarrow> string \<Rightarrow> string \<Rightarrow> ('a gateway_db_scheme, replay_job_row) act" where
  "control_cancel_replay_job store adb lib call a job_id reason = change_replay_state store adb a job_id reason (cancel_replay_job lib call)"

definition control_create_replay_approval_policy ::
    "'s explain_store option \<Rightarrow> 's \<Rightarrow> replay_lib \<Rightarrow> store_call \<Rightarrow> actor \<Rightarrow> policy_request \<Rightarrow>
     ('a gateway_db_scheme, replay_approval_policy_row) act" where
  "control_create_replay_approval_policy store adb lib call a req =
     (if \<not> authorized store adb a ''security:write'' ''replay_approval_policy'' [] [] then fail_act ErrForbidden
      else bind_act (read_act (\<lambda>_. normalize_replay_approval_policy_request req)) (\<lambda>r.
           create_replay_approval_policy lib call (actor_tenant a) (actor_id a) r))"

definition control_disable_replay_approval_policy ::
    "'s explain_store option \<Rightarrow> 's \<Rightarrow> replay_lib \<Rightarrow> store_call \<Rightarrow> actor \<Rightarrow> string \<Rightarrow> string \<Rightarrow>
     ('a gateway_db_scheme, replay_approval_policy_row) act" where
  "control_disable_replay_approval_policy store adb lib call a policy_id0 reason =
     (let policy_id = trim_space policy_id0 in
      if \<not> authorized store adb a ''security:write'' ''replay_approval_policy'' policy_id0 [] then fail_act ErrForbidden
      else if policy_id = [] \<or> trim_space reason = [] then fail_act (ErrInvalidInput ''policy_id and reason are required'')
      else disable_replay_approval_policy lib call (actor_tenant a) policy_id (actor_id a) reason)"

definition control_release_dead_letter ::
    "'s explain_store option \<Rightarrow> 's \<Rightarrow> replay_lib \<Rightarrow> store_call \<Rightarrow> store_call \<Rightarrow> actor \<Rightarrow> string \<Rightarrow> string \<Rightarrow> string \<Rightarrow>
     ('a gateway_db_scheme, replay_job_row) act" where
  "control_release_dead_letter store adb lib call call2 a entry_id code0 reason0 =
     (let code = trim_space code0; reason = trim_space reason0 in
      if \<not> authorized store adb a ''deliveries:retry'' ''dead_letter'' entry_id [] then fail_act ErrForbidden
      else if reason = [] then fail_act (ErrInvalidInput ''reason is required'')
      else bind_act (read_act (\<lambda>_. validate_replay_reason_code code)) (\<lambda>_.
           release_dead_letter lib call call2 (actor_tenant a) entry_id (actor_id a) code reason))"

definition control_bulk_release_dead_letter ::
    "'s explain_store option \<Rightarrow> 's \<Rightarrow> replay_lib \<Rightarrow> faults \<Rightarrow> (nat \<Rightarrow> store_call \<times> store_call) \<Rightarrow> actor \<Rightarrow> string list \<Rightarrow> string \<Rightarrow> string \<Rightarrow>
     ('a gateway_db_scheme, replay_job_row list) act" where
  "control_bulk_release_dead_letter store adb lib f calls a entry_ids code0 reason0 =
     (let code = trim_space code0; reason = trim_space reason0 in
      if \<not> authorized store adb a ''deliveries:retry'' ''dead_letter'' [] [] then fail_act ErrForbidden
      else if reason = [] then fail_act (ErrInvalidInput ''reason is required'')
      else bind_act (read_act (\<lambda>_. validate_replay_reason_code code)) (\<lambda>_.
           bulk_release_dead_letter lib f calls (actor_tenant a) entry_ids (actor_id a) code reason))"

definition control_approve_quarantine ::
    "'s explain_store option \<Rightarrow> 's \<Rightarrow> replay_lib \<Rightarrow> store_call \<Rightarrow> actor \<Rightarrow> string \<Rightarrow> string \<Rightarrow> bool \<Rightarrow> ('a gateway_db_scheme, string) act" where
  "control_approve_quarantine store adb lib call a entry_id reason route =
     (if \<not> authorized store adb a ''security:write'' ''quarantine'' entry_id [] then fail_act ErrForbidden
      else if reason = [] then fail_act (ErrInvalidInput ''reason is required'')
      else approve_quarantine lib call (actor_tenant a) entry_id (actor_id a) reason route)"

definition control_reject_quarantine ::
    "'s explain_store option \<Rightarrow> 's \<Rightarrow> replay_lib \<Rightarrow> store_call \<Rightarrow> actor \<Rightarrow> string \<Rightarrow> string \<Rightarrow> ('a gateway_db_scheme, string) act" where
  "control_reject_quarantine store adb lib call a entry_id reason =
     (if \<not> authorized store adb a ''security:write'' ''quarantine'' entry_id [] then fail_act ErrForbidden
      else if reason = [] then fail_act (ErrInvalidInput ''reason is required'')
      else reject_quarantine lib call (actor_tenant a) entry_id (actor_id a) reason)"

end
