(* ===== verification/Replay_Execution.thy ===== *)
theory Replay_Execution
  imports Replay_Jobs
begin

text \<open>
  The work of a replay job: \<open>CreateReplayDeliveries\<close> of internal/app/delivery_fanout.go with the
  store operations it calls, and \<open>ProcessOutbox\<close>, which chooses between the fan-out of an event
  and a replay. The store calls of a job are separate transactions, so a job that fails keeps the
  deliveries made so far and stays running.
\<close>

section \<open>Model: the store\<close>

record replay_work =
  wk_request :: replay_request
  wk_state :: string
  wk_config_mode :: string
  wk_rate_limit :: int

definition get_replay_job_work :: "replay_lib \<Rightarrow> faults \<Rightarrow> 'a gateway_db_scheme \<Rightarrow> string \<Rightarrow> string \<Rightarrow> replay_work res" where
  "get_replay_job_work lib f db tenant job_id =
     bind_res (no_rows_not_found (query_row f ''replay_work'' (filter (\<lambda>j. rj_tenant j = tenant \<and> rj_id j = job_id) (replay_jobs db)))) (\<lambda>j.
     case rl_unmarshal lib (rj_scope j) of
       None \<Rightarrow> Inl (ErrOther ''invalid scope'')
     | Some req \<Rightarrow> Inr \<lparr> wk_request = req\<lparr>pq_config_mode := (if pq_config_mode req = [] then rj_config_mode j else pq_config_mode req),
            pq_rate_limit := (if pq_rate_limit req = 0 then rj_rate_limit j else pq_rate_limit req)\<rparr>,
          wk_state = rj_state j, wk_config_mode = rj_config_mode j, wk_rate_limit = rj_rate_limit j \<rparr>)"

definition start_replay_job :: "faults \<Rightarrow> string \<Rightarrow> string \<Rightarrow> ('a gateway_db_scheme, bool) act" where
  "start_replay_job f tenant job_id =
     (let p = (\<lambda>j. rj_tenant j = tenant \<and> rj_id j = job_id \<and> rj_state j = ''scheduled'') in
      auto_tx (try_tx f ''start_replay'' (\<lambda>db.
        Inr (replay_jobs_update (update_where p (\<lambda>j. j\<lparr>rj_state := ''running''\<rparr>)) db, list_ex p (replay_jobs db)))))"

record replay_source =
  rs_id :: string
  rs_event :: string
  rs_endpoint :: string
  rs_route :: string
  rs_route_version :: string
  rs_subscription :: string
  rs_subscription_version :: string
  rs_retry_policy :: string
  rs_adapter_version :: string
  rs_normalized :: string
  rs_transformation :: string
  rs_payload :: string

definition replay_source_of :: "delivery_row \<Rightarrow> replay_source" where
  "replay_source_of d = \<lparr> rs_id = dv_id d, rs_event = dv_event d, rs_endpoint = dv_endpoint d, rs_route = dv_route d,
     rs_route_version = dv_route_version d, rs_subscription = dv_subscription d,
     rs_subscription_version = dv_subscription_version d, rs_retry_policy = dv_retry_policy d,
     rs_adapter_version = dv_adapter_version d, rs_normalized = dv_normalized d,
     rs_transformation = dv_transformation_version d, rs_payload = dv_payload d \<rparr>"

definition original_deliveries :: "'a delivery_db_scheme \<Rightarrow> string \<Rightarrow> string \<Rightarrow> delivery_row list" where
  "original_deliveries db tenant event_id = order_by (\<lambda>d. (dv_created_at d, dv_id d))
     (filter (\<lambda>d. dv_tenant d = tenant \<and> dv_event d = event_id \<and> dv_replay_job d = []) (deliveries db))"

definition list_original_delivery_replay_sources ::
    "faults \<Rightarrow> 'a delivery_db_scheme \<Rightarrow> string \<Rightarrow> string \<Rightarrow> replay_source list res" where
  "list_original_delivery_replay_sources f db tenant event_id =
     query_rows f ''original_sources'' (map replay_source_of (original_deliveries db tenant event_id))"

definition get_delivery_replay_source :: "faults \<Rightarrow> 'a delivery_db_scheme \<Rightarrow> string \<Rightarrow> string \<Rightarrow> replay_source res" where
  "get_delivery_replay_source f db tenant delivery_id = no_rows_not_found (query_row f ''replay_source''
     (map replay_source_of (filter (\<lambda>d. dv_tenant d = tenant \<and> dv_id d = delivery_id) (deliveries db))))"

text \<open>The current target of a route or subscription, None when it is gone or not active.\<close>

definition get_current_delivery_fanout_target ::
    "faults \<Rightarrow> 'a delivery_db_scheme \<Rightarrow> string \<Rightarrow> string \<Rightarrow> string \<Rightarrow> fanout_target option res" where
  "get_current_delivery_fanout_target f db tenant route_id subscription_id =
     (if route_id \<noteq> []
      then no_rows_default None (bind_res (query_row f ''current_route'' (concat (map (\<lambda>r. map (route_target r)
             (endpoints_of db (rt_tenant r) (rt_endpoint r))) (filter (\<lambda>r. rt_tenant r = tenant \<and> rt_id r = route_id
             \<and> rt_state r = ''active'') (routes db))))) (\<lambda>t. Inr (Some t)))
      else if subscription_id \<noteq> []
      then no_rows_default None (bind_res (query_row f ''current_subscription'' (concat (map (\<lambda>s. map (subscription_target s)
             (endpoints_of db (sb_tenant s) (sb_endpoint s))) (filter (\<lambda>s. sb_tenant s = tenant \<and> sb_id s = subscription_id
             \<and> sb_state s = ''active'') (subscriptions db))))) (\<lambda>t. Inr (Some t)))
      else Inr (Some \<lparr> ft_endpoint = [], ft_route = [], ft_route_version = [], ft_subscription = [], ft_subscription_version = [],
             ft_route_policy = [], ft_endpoint_policy = [], ft_transformation = [] \<rparr>))"

definition insert_replay_noop_item ::
    "faults \<Rightarrow> string \<Rightarrow> string \<Rightarrow> string \<Rightarrow> string \<Rightarrow> string \<Rightarrow> string \<Rightarrow> ('a gateway_db_scheme, unit) act" where
  "insert_replay_noop_item f item_id tenant job_id event_id mode err =
     auto_tx (insert_row f ''insert_noop'' ry_id replay_items replay_items_update
       \<lparr> ry_id = item_id, ry_tenant = tenant, ry_job = job_id, ry_event = event_id, ry_original_delivery = [],
         ry_new_delivery = [], ry_state = ''completed'', ry_config_mode = mode, ry_route_version = [],
         ry_subscription_version = [], ry_retry_policy = [], ry_adapter_version = [], ry_normalized = [],
         ry_transformation_version = [], ry_payload = [], ry_payload_sha256 = [], ry_error = err \<rparr>)"

definition complete_replay_job :: "faults \<Rightarrow> gotime \<Rightarrow> string \<Rightarrow> string \<Rightarrow> nat \<Rightarrow> ('a gateway_db_scheme, unit) act" where
  "complete_replay_job f now tenant job_id n = auto_tx (update_rows f ''complete_replay'' replay_jobs_update
     (\<lambda>j. rj_tenant j = tenant \<and> rj_id j = job_id \<and> rj_state j \<noteq> ''canceled'')
     (\<lambda>j. j\<lparr>rj_state := ''completed'', rj_processed_items := int n, rj_completed_at := Some now\<rparr>))"

section \<open>Model: the service\<close>

definition source_request :: "string \<Rightarrow> replay_source \<Rightarrow> fanout_options \<Rightarrow> snapshot_request" where
  "source_request tenant src opts = \<lparr> sq_tenant = tenant, sq_event = rs_event src, sq_endpoint = rs_endpoint src,
     sq_route = rs_route src, sq_route_version = rs_route_version src, sq_subscription = rs_subscription src,
     sq_subscription_version = rs_subscription_version src, sq_retry_policy = rs_retry_policy src,
     sq_replay_job = fo_replay_job opts, sq_original_delivery = [], sq_adapter_version = rs_adapter_version src,
     sq_normalized = rs_normalized src, sq_transformation = rs_transformation src, sq_mode = [],
     sq_source_payload = rs_payload src, sq_retry_seed = [], sq_next_attempt = 0,
     sq_config_mode = first_non_empty [fo_config_mode opts, ''current''] \<rparr>"

definition original_request :: "fanout_run \<Rightarrow> fanout_options \<Rightarrow> string \<Rightarrow> nat \<Rightarrow> replay_source \<Rightarrow> snapshot_request" where
  "original_request run opts tenant i src = (source_request tenant src opts)
     \<lparr>sq_original_delivery := rs_id src, sq_mode := ''clone'', sq_source_payload := rs_payload src,
      sq_next_attempt := fr_clock run i + replay_schedule_delay i (fo_rate_limit opts)\<rparr>"

fun clone_deliveries ::
    "fanout_env \<Rightarrow> fanout_run \<Rightarrow> fanout_options \<Rightarrow> string \<Rightarrow> nat \<Rightarrow> replay_source list \<Rightarrow> ('a gateway_db_scheme, unit) act" where
  "clone_deliveries env run opts tenant i [] = return_act ()"
| "clone_deliveries env run opts tenant i (src # srcs) =
     then_act (service_snapshot env run i (original_request run opts tenant i src))
       (clone_deliveries env run opts tenant (i + 1) srcs)"

definition create_deliveries_from_original_event ::
    "fanout_env \<Rightarrow> fanout_run \<Rightarrow> faults \<Rightarrow> string \<Rightarrow> string \<Rightarrow> fanout_options \<Rightarrow> ('a gateway_db_scheme, nat) act" where
  "create_deliveries_from_original_event env run f tenant event_id opts =
     bind_act (read_act (\<lambda>db. list_original_delivery_replay_sources f db tenant event_id)) (\<lambda>srcs.
     then_act (clone_deliveries env run opts tenant 0 srcs) (return_act (length srcs)))"

definition existing_request ::
    "fanout_run \<Rightarrow> fanout_options \<Rightarrow> string \<Rightarrow> string \<Rightarrow> replay_source \<Rightarrow> fanout_target option \<Rightarrow> snapshot_request" where
  "existing_request run opts tenant delivery_id src current =
     (let req = (source_request tenant src opts)\<lparr>sq_original_delivery := delivery_id,
            sq_next_attempt := fr_clock run 0 + replay_schedule_delay 0 (fo_rate_limit opts)\<rparr>;
          req1 = (case current of None \<Rightarrow> req
            | Some t \<Rightarrow> req\<lparr>sq_endpoint := ft_endpoint t, sq_route_version := ft_route_version t,
                sq_subscription_version := ft_subscription_version t, sq_retry_policy := target_retry_policy t,
                sq_transformation := ft_transformation t, sq_adapter_version := [], sq_normalized := [], sq_source_payload := []\<rparr>)
      in if rs_payload src \<noteq> [] \<and> fo_config_mode opts = ''original''
         then req1\<lparr>sq_mode := ''clone'', sq_source_payload := rs_payload src\<rparr>
         else req1\<lparr>sq_mode := ''materialize''\<rparr>)"

definition create_delivery_from_existing ::
    "fanout_env \<Rightarrow> fanout_run \<Rightarrow> faults \<Rightarrow> string \<Rightarrow> string \<Rightarrow> fanout_options \<Rightarrow> ('a gateway_db_scheme, nat) act" where
  "create_delivery_from_existing env run f tenant delivery_id opts =
     bind_act (read_act (\<lambda>db. get_delivery_replay_source f db tenant delivery_id)) (\<lambda>src.
     if fo_config_mode opts \<noteq> ''original'' \<and> (rs_route src \<noteq> [] \<or> rs_subscription src \<noteq> [])
     then bind_act (read_act (\<lambda>db. get_current_delivery_fanout_target f db tenant (rs_route src) (rs_subscription src))) (\<lambda>current.
          case current of None \<Rightarrow> return_act 0
          | Some t \<Rightarrow> then_act (service_snapshot env run 0 (existing_request run opts tenant delivery_id src (Some t))) (return_act 1))
     else then_act (service_snapshot env run 0 (existing_request run opts tenant delivery_id src None)) (return_act 1))"

record replay_run =
  rn_event :: fanout_run
  rn_delivery :: fanout_run
  rn_faults :: faults
  rn_now :: gotime
  rn_noop :: string

definition replay_event_part ::
    "fanout_env \<Rightarrow> replay_run \<Rightarrow> string \<Rightarrow> string \<Rightarrow> string \<Rightarrow> fanout_options \<Rightarrow> ('a gateway_db_scheme, nat) act" where
  "replay_event_part env rn tenant job_id event_id opts =
     (if event_id = [] then return_act 0
      else let original = (fo_config_mode opts = ''original'');
               err = (if original then ''no original deliveries found'' else ''no current route or subscription matched'')
           in bind_act (if original then create_deliveries_from_original_event env (rn_event rn) (rn_faults rn) tenant event_id opts
                        else create_deliveries_for_event env (rn_event rn) (rn_faults rn) tenant event_id opts) (\<lambda>n.
              then_act (if n = 0 then insert_replay_noop_item (rn_faults rn) (rn_noop rn) tenant job_id event_id (fo_config_mode opts) err
                        else return_act ()) (return_act n)))"

definition replay_options :: "string \<Rightarrow> replay_work \<Rightarrow> fanout_options" where
  "replay_options job_id work =
     \<lparr> fo_replay_job = job_id,
       fo_config_mode = first_non_empty [wk_config_mode work, pq_config_mode (wk_request work), ''current''],
       fo_rate_limit = (if wk_rate_limit work = 0 then pq_rate_limit (wk_request work) else wk_rate_limit work),
       fo_allow_recovered = False \<rparr>"

definition create_replay_deliveries ::
    "fanout_env \<Rightarrow> replay_lib \<Rightarrow> replay_run \<Rightarrow> string \<Rightarrow> string \<Rightarrow> ('a gateway_db_scheme, unit) act" where
  "create_replay_deliveries env lib rn tenant job_id =
     (let f = rn_faults rn in
      bind_act (read_act (\<lambda>db. get_replay_job_work lib f db tenant job_id)) (\<lambda>work.
      if wk_state work = ''paused'' \<or> wk_state work = ''pending_approval'' then fail_act ErrDeferred
      else if wk_state work \<noteq> ''scheduled'' then return_act ()
      else bind_act (start_replay_job f tenant job_id) (\<lambda>started.
        if \<not> started then fail_act ErrDeferred
        else let opts = replay_options job_id work
             in bind_act (replay_event_part env rn tenant job_id (pq_event (wk_request work)) opts) (\<lambda>n1.
                bind_act (if pq_delivery (wk_request work) = [] then return_act 0
                   else create_delivery_from_existing env (rn_delivery rn) f tenant (pq_delivery (wk_request work)) opts) (\<lambda>n2.
                complete_replay_job f (rn_now rn) tenant job_id (n1 + n2))))))"

definition fanout_process_outbox ::
    "fanout_env \<Rightarrow> replay_lib \<Rightarrow> replay_run \<Rightarrow> outbox_item \<Rightarrow> ('a gateway_db_scheme, unit) act" where
  "fanout_process_outbox env lib rn item =
     (let opts = (\<lambda>recovered. \<lparr> fo_replay_job = [], fo_config_mode = [], fo_rate_limit = 0, fo_allow_recovered = recovered \<rparr>) in
      if oi_kind item = ''route_event''
      then then_act (create_deliveries_for_event env (rn_event rn) (rn_faults rn) (oi_tenant item) (oi_resource item) (opts False)) (return_act ())
      else if oi_kind item = ''route_recovered_event''
      then then_act (create_deliveries_for_event env (rn_event rn) (rn_faults rn) (oi_tenant item) (oi_resource item) (opts True)) (return_act ())
      else if oi_kind item = ''replay_job'' then create_replay_deliveries env lib rn (oi_tenant item) (oi_resource item)
      else return_act ())"

section \<open>What the job operations write\<close>

lemma replay_options_job [simp]: "fo_replay_job (replay_options job_id work) = job_id"
  by (simp add: replay_options_def)

lemma audit_tx_more: "audit_tx lib call inp db = Inr (db', e) \<Longrightarrow> audit_db.more db' = audit_db.more db"
  unfolding audit_tx_def by (rule record_audit_event_tx_more)

lemma insert_replay_job_Inr:
  assumes "insert_replay_job lib call t a req cnt db = Inr (db', j)"
  shows "j = replay_job_of lib call t a req cnt" and "rj_id j \<notin> rj_id ` set (replay_jobs db)"
    and "audit_db.more db' = audit_db.more (outbox_update (\<lambda>os. os @ (if pq_require_approval req then []
       else [route_event_row (sc_now call) (sc_outbox call) t ''replay_job'' (sc_id call)])) (replay_jobs_update (\<lambda>js. js @ [j]) db))"
proof -
  let ?j = "replay_job_of lib call t a req cnt"
  from assms obtain d1 e where j: "j = ?j" and fresh: "rj_id ?j \<notin> rj_id ` set (replay_jobs db)"
    and o: "(if pq_require_approval req then return_tx () else insert_outbox call t ''replay_job'' (sc_id call))
       (replay_jobs_update (\<lambda>js. js @ [?j]) db) = Inr (d1, ())"
    and au: "audit_tx lib call (audit_of t a ''replay.created'' ''replay_job'' (sc_id call) (replay_audit_reason req)) d1 = Inr (db', e)"
    by (auto simp: insert_replay_job_def Let_def)
  show "j = ?j" by (rule j)
  show "rj_id j \<notin> rj_id ` set (replay_jobs db)" using fresh by (simp add: j)
  have "d1 = outbox_update (\<lambda>os. os @ (if pq_require_approval req then []
       else [route_event_row (sc_now call) (sc_outbox call) t ''replay_job'' (sc_id call)])) (replay_jobs_update (\<lambda>js. js @ [j]) db)"
    using o by (cases "pq_require_approval req") (auto simp: insert_outbox_def j)
  with audit_tx_more [OF au] show "audit_db.more db' = audit_db.more (outbox_update (\<lambda>os. os @ (if pq_require_approval req then []
       else [route_event_row (sc_now call) (sc_outbox call) t ''replay_job'' (sc_id call)])) (replay_jobs_update (\<lambda>js. js @ [j]) db))"
    by simp
qed

lemma create_replay_cases:
  assumes "create_replay lib call t a req0 db = (db', r)"
  obtains (failed) e where "r = Inl e" and "db' = db"
  | (created) req cnt j where "r = Inr j" and "insert_replay_job lib call t a req cnt db = Inr (db', j)"
      and "pq_require_approval req \<longrightarrow> expires_in_future (sc_clock call) req"
      and "\<exists>policy. replay_approval_policy_for_replay (sc_faults call) db t (replay_request_defaults req0) = Inr policy
          \<and> req = default_approval_expiry (sc_clock call) (apply_replay_policy (sc_clock call) policy (replay_request_defaults req0))"
proof (cases "replay_approval_policy_for_replay (sc_faults call) db t (replay_request_defaults req0)")
  case (Inl e)
  then have "create_replay lib call t a req0 db = (db, Inl e)" by (simp add: create_replay_def Let_def bind_act_cong_read)
  with assms show ?thesis by (intro failed [of e]) simp_all
next
  case (Inr policy)
  define req where "req = default_approval_expiry (sc_clock call) (apply_replay_policy (sc_clock call) policy (replay_request_defaults req0))"
  have c: "create_replay lib call t a req0 db = (if pq_require_approval req \<and> \<not> expires_in_future (sc_clock call) req
      then fail_act (ErrInvalidInput ''approval_expires_at must be in the future'')
      else bind_act (read_act (\<lambda>db. dry_run_replay (sc_faults call) db t req)) (\<lambda>dry.
           run_tx (sc_faults call) (insert_replay_job lib call t a req (rd_total dry)))) db"
    using Inr by (simp add: create_replay_def bind_act_cong_read req_def Let_def)
  show ?thesis
  proof (cases "pq_require_approval req \<and> \<not> expires_in_future (sc_clock call) req")
    case True
    with c assms show ?thesis by (intro failed) (simp_all add: fail_act_def)
  next
    case False
    show ?thesis
    proof (cases "dry_run_replay (sc_faults call) db t req")
      case (Inl e)
      with c False assms show ?thesis by (intro failed [of e]) (simp_all add: bind_act_cong_read)
    next
      case (Inr dry)
      with c False assms have x: "run_tx (sc_faults call) (insert_replay_job lib call t a req (rd_total dry)) db = (db', r)"
        by (simp add: bind_act_cong_read)
      show ?thesis
      proof (cases r)
        case (Inl e)
        with x have "db' = db" by (simp add: run_tx_error)
        with Inl show ?thesis by (rule failed)
      next
        case (Inr j)
        with x have "insert_replay_job lib call t a req (rd_total dry) db = Inr (db', j)" by (simp add: run_tx_ok)
        with Inr show ?thesis
          by (rule created) (use False \<open>replay_approval_policy_for_replay _ _ _ _ = Inr policy\<close> in \<open>auto simp: req_def\<close>)
      qed
    qed
  qed
qed

lemma approve_replay_Inr:
  assumes "approve_replay_job lib call t jid a reason db = (db', Inr j)"
  shows "\<exists>x \<in> set (replay_jobs db). approvable (sc_now call) t jid a x \<and> j = approve_row (sc_now call) a reason x"
    and "audit_db.more db' = audit_db.more (outbox_update (\<lambda>os. os @ [route_event_row (sc_now call) (sc_outbox call) t ''replay_job'' jid])
       (replay_jobs_update (update_where (approvable (sc_now call) t jid a) (approve_row (sc_now call) a reason)) db))"
proof -
  from assms obtain x xs e where x: "filter (approvable (sc_now call) t jid a) (replay_jobs db) = x # xs"
    and j: "j = approve_row (sc_now call) a reason x"
    and au: "audit_tx lib call (audit_of t a ''replay.approved'' ''replay_job'' jid reason)
       (outbox_update (\<lambda>os. os @ [route_event_row (sc_now call) (sc_outbox call) t ''replay_job'' jid])
         (replay_jobs_update (update_where (approvable (sc_now call) t jid a) (approve_row (sc_now call) a reason)) db)) = Inr (db', e)"
    by (auto simp: approve_replay_job_def Let_def run_tx_ok insert_outbox_def)
  have "x \<in> set (filter (approvable (sc_now call) t jid a) (replay_jobs db))" by (simp add: x)
  then show "\<exists>x \<in> set (replay_jobs db). approvable (sc_now call) t jid a x \<and> j = approve_row (sc_now call) a reason x"
    using j by auto
  show "audit_db.more db' = audit_db.more (outbox_update (\<lambda>os. os @ [route_event_row (sc_now call) (sc_outbox call) t ''replay_job'' jid])
       (replay_jobs_update (update_where (approvable (sc_now call) t jid a) (approve_row (sc_now call) a reason)) db))"
    by (rule audit_tx_more [OF au])
qed

lemma update_replay_state_Inr:
  assumes "update_replay_state lib call t jid a reason state action db = (db', Inr j)"
  shows "audit_db.more db' = audit_db.more (replay_jobs_update (update_where (\<lambda>j. rj_tenant j = t \<and> rj_id j = jid
       \<and> replay_state_guard state j) (set_replay_state (sc_now call) state)) db)"
proof -
  from assms obtain e where "audit_tx lib call (audit_of t a action ''replay_job'' jid reason)
     (replay_jobs_update (update_where (\<lambda>j. rj_tenant j = t \<and> rj_id j = jid
       \<and> replay_state_guard state j) (set_replay_state (sc_now call) state)) db) = Inr (db', e)"
    by (auto simp: update_replay_state_def run_tx_ok)
  then show ?thesis by (rule audit_tx_more)
qed

lemma job_ops_failed:
  "approve_replay_job lib call t jid a reason db = (db', Inl e) \<Longrightarrow> db' = db"
  "update_replay_state lib call t jid a reason state action db = (db', Inl e) \<Longrightarrow> db' = db"
  by (auto simp: approve_replay_job_def Let_def update_replay_state_def dest: run_tx_error)

section \<open>Justified deliveries\<close>

text \<open>
  A job is approved when it needs no approval or when somebody else than its author has approved
  it before the approval expired. An event is authentic when its signature was verified or when
  it was recovered from the provider's interface. The invariant: a replay job is in the outbox
  only when it is approved, and every delivery is one of an authentic event and, when it comes
  from a replay, of an approved job.
\<close>

definition approved :: "replay_job_row \<Rightarrow> bool" where
  "approved j \<longleftrightarrow> rj_approval_required j \<longrightarrow> rj_approved_by j \<noteq> rj_created_by j
     \<and> (\<exists>u v. rj_approved_at j = Some u \<and> rj_approval_expires j = Some v \<and> u < v)"

definition job_approved :: "'a gateway_db_scheme \<Rightarrow> string \<Rightarrow> string \<Rightarrow> bool" where
  "job_approved db t i \<longleftrightarrow> (\<exists>j \<in> set (replay_jobs db). rj_tenant j = t \<and> rj_id j = i \<and> approved j)"

definition event_authentic :: "'a ingest_db_scheme \<Rightarrow> string \<Rightarrow> string \<Rightarrow> bool" where
  "event_authentic db t i \<longleftrightarrow> (\<exists>e \<in> set (events db). ev_tenant e = t \<and> ev_id e = i
     \<and> (ev_verified e \<or> ev_reason e = ''provider_api_reconciliation''))"

definition justified :: "'a gateway_db_scheme \<Rightarrow> bool" where
  "justified db \<longleftrightarrow> distinct (map rj_id (replay_jobs db))
     \<and> (\<forall>q \<in> set (outbox db). ob_kind q = ''replay_job'' \<longrightarrow> job_approved db (ob_tenant q) (ob_resource q))
     \<and> (\<forall>d \<in> set (deliveries db). event_authentic db (dv_tenant d) (dv_event d)
          \<and> (dv_replay_job d \<noteq> [] \<longrightarrow> job_approved db (dv_tenant d) (dv_replay_job d)))"

lemma justified_cong:
  fixes db db' :: "'a gateway_db_scheme"
  assumes "replay_jobs db' = replay_jobs db" "outbox db' = outbox db" "deliveries db' = deliveries db" "events db' = events db"
  shows "justified db' = justified db"
  by (simp add: justified_def job_approved_def event_authentic_def assms)

lemma justified_more:
  assumes "audit_db.more db' = audit_db.more db"
  shows "justified db' = justified db"
  by (intro justified_cong same_more_replay(1) [OF assms] same_more_ingest(1,2) [OF assms] same_more_delivery(1) [OF assms])

text \<open>What a piece of a job may rely on and keeps: the job and the events it works for.\<close>

definition work_ok :: "string \<Rightarrow> string \<Rightarrow> string set \<Rightarrow> 'a gateway_db_scheme \<Rightarrow> bool" where
  "work_ok t job evs db \<longleftrightarrow> justified db \<and> (job \<noteq> [] \<longrightarrow> job_approved db t job) \<and> (\<forall>ev \<in> evs. event_authentic db t ev)"

lemma work_ok_mono: "work_ok t job evs db \<Longrightarrow> evs' \<subseteq> evs \<Longrightarrow> work_ok t job evs' db"
  by (auto simp: work_ok_def)

lemma snapshot_work_ok:
  assumes "sq_tenant req = t" and "sq_event req \<in> evs" and "sq_replay_job req = job"
  shows "act_keeps (work_ok t job evs) (create_delivery_snapshot env f now ids req)"
proof -
  have "work_ok t job evs (fst (create_delivery_snapshot env f now ids req db))" if ok: "work_ok t job evs db" for db :: "'a gateway_db_scheme"
  proof (cases "snd (create_delivery_snapshot env f now ids req db)")
    case (Inl e)
    then show ?thesis using ok snapshot_failed [of env f now ids req db] by (metis prod.collapse)
  next
    case (Inr r)
    define db' where "db' = fst (create_delivery_snapshot env f now ids req db)"
    from Inr have "create_delivery_snapshot env f now ids req db = (db', Inr r)" by (simp add: db'_def prod_eq_iff)
    from snapshot_committed [OF this] obtain p where d': "db' = snapshot_db env now ids req p r db" .
    have j: "job_approved db' = job_approved db" "event_authentic db' = event_authentic db" "outbox db' = outbox db"
        "replay_jobs db' = replay_jobs db"
      by (simp_all add: job_approved_def event_authentic_def d' snapshot_db_def fun_eq_iff)
    let ?d = "linked_row (sr_adapter_version r) (sr_normalized r) (sr_transformation r) (sg_payload ids)
       (snapshot_row env now (sg_delivery ids) req)"
    have "deliveries db' = deliveries db @ [?d]" by (simp add: d' snapshot_db_def)
    moreover have "dv_tenant ?d = t" "dv_event ?d = sq_event req" "dv_replay_job ?d = job"
      by (simp_all add: linked_row_def snapshot_row_def assms)
    ultimately have "work_ok t job evs db'" using ok assms(2) by (auto simp: work_ok_def justified_def j)
    then show ?thesis by (simp add: db'_def)
  qed
  then show ?thesis by (simp add: act_keeps_def)
qed

lemma service_snapshot_work_ok [act_intros]:
  assumes "sq_tenant req = t" and "sq_event req \<in> evs" and "sq_replay_job req = job"
  shows "act_keeps (work_ok t job evs) (service_snapshot env run i req)"
  unfolding service_snapshot_def Let_def by (rule snapshot_work_ok) (simp_all add: assms)

lemma routed_event_authentic:
  "get_event f db t ev = Inr e \<Longrightarrow> routable opts e \<Longrightarrow> event_authentic db t ev"
  by (auto simp: get_event_def event_authentic_def routable_def dest!: query_row_in)

lemma create_deliveries_work_ok:
  "fo_replay_job opts = job \<Longrightarrow> ev \<in> evs \<Longrightarrow> act_keeps (work_ok t job evs) (create_deliveries env run opts t ev k ts)"
  by (induction ts arbitrary: k)
    (auto intro!: act_intros simp: create_delivery_from_target_def target_request_def)

lemma fanout_work_ok [act_intros]:
  assumes "fo_replay_job opts = job"
  shows "act_keeps (work_ok t job {}) (create_deliveries_for_event env run f t ev opts)"
  unfolding create_deliveries_for_event_def
proof (rule act_keeps_read_bind)
  fix db :: "'a gateway_db_scheme" and e assume ok: "work_ok t job {} db" and e: "get_event f db t ev = Inr e"
  let ?k = "bind_act (read_act (\<lambda>db. list_delivery_fanout_targets f db t (ev_source e) (ev_type e)))
     (create_deliveries env run opts t ev 0) :: ('a gateway_db_scheme, nat) act"
  have "act_keeps (work_ok t job {ev}) ?k"
    by (intro act_intros create_deliveries_work_ok assms) simp
  moreover have "work_ok t job {ev} db" if "routable opts e"
    using ok routed_event_authentic [OF e that] by (simp add: work_ok_def)
  ultimately have "work_ok t job {ev} (fst (?k db))" if "routable opts e" using that by (blast dest: act_keepsD)
  then show "work_ok t job {} (fst ((if \<not> routable opts e then return_act 0 else ?k) db))"
    using ok by (auto simp: return_act_def intro: work_ok_mono)
qed

lemma clone_deliveries_work_ok:
  "fo_replay_job opts = job \<Longrightarrow> rs_event ` set srcs \<subseteq> evs \<Longrightarrow> act_keeps (work_ok t job evs) (clone_deliveries env run opts t i srcs)"
  by (induction srcs arbitrary: i) (auto intro!: act_intros simp: original_request_def source_request_def)

lemma delivery_event_authentic:
  "work_ok t job evs db \<Longrightarrow> d \<in> set (deliveries db) \<Longrightarrow> dv_tenant d = t \<Longrightarrow> event_authentic db t (dv_event d)"
  by (auto simp: work_ok_def justified_def)

lemma original_work_ok [act_intros]:
  assumes "fo_replay_job opts = job"
  shows "act_keeps (work_ok t job {}) (create_deliveries_from_original_event env run f t ev opts)"
  unfolding create_deliveries_from_original_event_def
proof (rule act_keeps_read_bind)
  fix db :: "'a gateway_db_scheme" and srcs
  assume ok: "work_ok t job {} db" and s: "list_original_delivery_replay_sources f db t ev = Inr srcs"
  let ?k = "then_act (clone_deliveries env run opts t 0 srcs) (return_act (length srcs)) :: ('a gateway_db_scheme, nat) act"
  from s have "\<forall>x \<in> rs_event ` set srcs. event_authentic db t x"
    using delivery_event_authentic [OF ok]
    by (auto simp: list_original_delivery_replay_sources_def original_deliveries_def replay_source_of_def)
  then have "work_ok t job (rs_event ` set srcs) db" using ok by (simp add: work_ok_def)
  moreover have "act_keeps (work_ok t job (rs_event ` set srcs)) ?k"
    by (intro act_intros clone_deliveries_work_ok assms subset_refl)
  ultimately have "work_ok t job (rs_event ` set srcs) (fst (?k db))" by (blast dest: act_keepsD)
  then show "work_ok t job {} (fst (?k db))" by (rule work_ok_mono) simp
qed

lemma existing_work_ok [act_intros]:
  assumes "fo_replay_job opts = job"
  shows "act_keeps (work_ok t job {}) (create_delivery_from_existing env run f t did opts)"
  unfolding create_delivery_from_existing_def
proof (rule act_keeps_read_bind)
  fix db :: "'a gateway_db_scheme" and src
  assume ok: "work_ok t job {} db" and s: "get_delivery_replay_source f db t did = Inr src"
  let ?k = "if fo_config_mode opts \<noteq> ''original'' \<and> (rs_route src \<noteq> [] \<or> rs_subscription src \<noteq> [])
     then bind_act (read_act (\<lambda>db. get_current_delivery_fanout_target f db t (rs_route src) (rs_subscription src))) (\<lambda>current.
          case current of None \<Rightarrow> return_act 0
          | Some g \<Rightarrow> then_act (service_snapshot env run 0 (existing_request run opts t did src (Some g))) (return_act 1))
     else then_act (service_snapshot env run 0 (existing_request run opts t did src None)) (return_act 1)
       :: ('a gateway_db_scheme, nat) act"
  from s have "event_authentic db t (rs_event src)"
    using delivery_event_authentic [OF ok] by (auto simp: get_delivery_replay_source_def replay_source_of_def dest!: query_row_in)
  then have "work_ok t job {rs_event src} db" using ok by (simp add: work_ok_def)
  moreover have "act_keeps (work_ok t job {rs_event src}) ?k"
    by (intro act_intros) (simp_all add: existing_request_def source_request_def Let_def assms split: option.splits)
  ultimately have "work_ok t job {rs_event src} (fst (?k db))" by (blast dest: act_keepsD)
  then show "work_ok t job {} (fst (?k db))" by (rule work_ok_mono) simp
qed

lemma update_jobs_work_ok:
  fixes db :: "'a gateway_db_scheme"
  assumes "work_ok t job evs db"
    and g: "\<And>j. p j \<Longrightarrow> rj_id (g j) = rj_id j \<and> rj_tenant (g j) = rj_tenant j \<and> (approved j \<longrightarrow> approved (g j))"
  shows "work_ok t job evs (replay_jobs_update (update_where p g) db)"
proof -
  let ?db = "replay_jobs_update (update_where p g) db"
  have "map rj_id (replay_jobs ?db) = map rj_id (replay_jobs db)" using g by (simp add: map_update_where)
  moreover have "job_approved db t i \<Longrightarrow> job_approved ?db t i" for t i
  proof -
    assume "job_approved db t i"
    then obtain j where j: "j \<in> set (replay_jobs db)" "rj_tenant j = t" "rj_id j = i" "approved j" by (auto simp: job_approved_def)
    let ?j = "if p j then g j else j"
    have "?j \<in> set (replay_jobs ?db)" using j(1) by (simp add: set_update_where)
    moreover have "rj_tenant ?j = t \<and> rj_id ?j = i \<and> approved ?j" using j g by simp
    ultimately show ?thesis by (auto simp: job_approved_def)
  qed
  ultimately show ?thesis using assms(1) by (simp add: work_ok_def justified_def event_authentic_def)
qed

lemma start_work_ok [act_intros]: "act_keeps (work_ok t job evs) (start_replay_job f t' jid)"
  unfolding start_replay_job_def Let_def
  by (intro act_intros tx_intros tx_preservesI) (auto intro!: update_jobs_work_ok simp: approved_def)

lemma complete_work_ok [act_intros]: "act_keeps (work_ok t job evs) (complete_replay_job f now t' jid n)"
  unfolding complete_replay_job_def by (intro act_intros tx_intros update_jobs_work_ok) (simp_all add: approved_def)

lemma noop_work_ok [act_intros]: "act_keeps (work_ok t job evs) (insert_replay_noop_item f i t' jid ev mode err)"
  unfolding insert_replay_noop_item_def
  by (intro act_intros tx_intros) (simp add: work_ok_def justified_def job_approved_def event_authentic_def)

lemma replay_work_ok: "act_keeps (work_ok t job {}) (create_replay_deliveries env lib rn t job)"
  unfolding create_replay_deliveries_def replay_event_part_def Let_def
  by (intro act_intros) (simp_all cong: if_cong)

lemma process_outbox_justified:
  assumes "justified db" and "q \<in> set (outbox db)"
  shows "justified (fst (fanout_process_outbox env lib rn (outbox_item_of q) db))"
proof -
  let ?t = "ob_tenant q"
  have fan: "act_keeps (work_ok ?t [] {}) (then_act (create_deliveries_for_event env run f ?t ev
      \<lparr> fo_replay_job = [], fo_config_mode = [], fo_rate_limit = 0, fo_allow_recovered = b \<rparr>) (return_act ()))" for run f ev b
    by (intro act_intros) simp
  have ok: "work_ok ?t [] {} db" using assms(1) by (simp add: work_ok_def)
  have job: "work_ok ?t (ob_resource q) {} db" if "ob_kind q = ''replay_job''"
    using assms that by (auto simp: work_ok_def justified_def)
  show ?thesis
    using act_keepsD [OF fan ok] act_keepsD [OF replay_work_ok job] assms(1)
    by (auto simp: fanout_process_outbox_def Let_def outbox_item_of_def work_ok_def return_act_def)
qed

section \<open>The operators keep deliveries justified\<close>

lemma justified_work_ok: "justified db = work_ok [] [] {} db"
  by (simp add: work_ok_def)

lemma create_replay_justified:
  assumes "justified db"
  shows "justified (fst (create_replay lib call t a req db))"
  using prod.collapse [of "create_replay lib call t a req db", symmetric]
proof (cases rule: create_replay_cases)
  case (failed e)
  then show ?thesis using assms by simp
next
  case (created rq cnt j)
  note i = insert_replay_job_Inr [OF created(2)]
  have "justified (outbox_update (\<lambda>os. os @ (if pq_require_approval rq then []
       else [route_event_row (sc_now call) (sc_outbox call) t ''replay_job'' (sc_id call)])) (replay_jobs_update (\<lambda>js. js @ [j]) db))"
    using assms i(2) by (auto simp: justified_def job_approved_def event_authentic_def route_event_row_def i(1) replay_job_of_def approved_def)
  then show ?thesis by (simp only: justified_more [OF i(3)])
qed

lemma approve_approved: "approvable now t jid a j \<Longrightarrow> approved (approve_row now a reason j)"
  by (auto simp: approvable_def approved_def approve_row_def split: option.splits)

lemma insert_outbox_justified:
  assumes "justified db" and "ob_kind q = ''replay_job'' \<Longrightarrow> job_approved db (ob_tenant q) (ob_resource q)"
  shows "justified (outbox_update (\<lambda>os. os @ [q]) db)"
  using assms by (auto simp: justified_def job_approved_def event_authentic_def)

lemma approve_justified:
  assumes "justified db"
  shows "justified (fst (approve_replay_job lib call t jid a reason db))"
proof (cases "snd (approve_replay_job lib call t jid a reason db)")
  case (Inl e)
  then show ?thesis using assms job_ops_failed(1) [of lib call t jid a reason db] by (metis prod.collapse)
next
  case (Inr j)
  then have "approve_replay_job lib call t jid a reason db = (fst (approve_replay_job lib call t jid a reason db), Inr j)"
    by (simp add: prod_eq_iff)
  note i = approve_replay_Inr [OF this]
  let ?g = "approve_row (sc_now call) a reason" and ?p = "approvable (sc_now call) t jid a"
  let ?db = "replay_jobs_update (update_where ?p ?g) db"
  have ok: "work_ok [] [] {} ?db"
    by (rule update_jobs_work_ok) (use assms approve_approved in \<open>auto simp: work_ok_def approve_row_def\<close>)
  from i(1) obtain x where x: "x \<in> set (replay_jobs db)" "?p x" by blast
  have "?g x \<in> set (replay_jobs ?db)" using x by (auto simp: set_update_where)
  moreover have "rj_tenant (?g x) = t" "rj_id (?g x) = jid" using x(2) by (simp_all add: approvable_def approve_row_def)
  ultimately have "job_approved ?db t jid"
    unfolding job_approved_def using approve_approved [OF x(2), of reason] by (intro bexI [of _ "?g x"]) simp_all
  with ok have "justified (outbox_update (\<lambda>os. os @ [route_event_row (sc_now call) (sc_outbox call) t ''replay_job'' jid]) ?db)"
    by (intro insert_outbox_justified) (simp_all add: route_event_row_def work_ok_def)
  then show ?thesis by (simp only: justified_more [OF i(2)])
qed

lemma update_state_justified:
  assumes "justified db"
  shows "justified (fst (update_replay_state lib call t jid a reason state action db))"
proof (cases "snd (update_replay_state lib call t jid a reason state action db)")
  case (Inl e)
  then show ?thesis using assms job_ops_failed(2) [of lib call t jid a reason state action db] by (metis prod.collapse)
next
  case (Inr j)
  then have "update_replay_state lib call t jid a reason state action db
      = (fst (update_replay_state lib call t jid a reason state action db), Inr j)" by (simp add: prod_eq_iff)
  note i = update_replay_state_Inr [OF this]
  have "work_ok [] [] {} (replay_jobs_update (update_where (\<lambda>j. rj_tenant j = t \<and> rj_id j = jid
       \<and> replay_state_guard state j) (set_replay_state (sc_now call) state)) db)"
    by (rule update_jobs_work_ok) (use assms in \<open>auto simp: work_ok_def set_replay_state_def approved_def Let_def\<close>)
  then show ?thesis by (simp only: justified_more [OF i]) (simp add: work_ok_def)
qed

lemma audit_justified [tx_intros]: "tx_preserves justified (audit_tx lib call inp)"
  by (rule tx_preservesI) (use justified_more audit_tx_more in blast)

lemma other_tables_justified:
  "justified (quarantine_entries_update g db) = justified db"
  "justified (dead_letter_entries_update h db) = justified db"
  "justified (replay_approval_policies_update u db) = justified db"
  by (rule justified_cong; simp)+

lemma release_justified: "act_keeps justified (release_dead_letter lib call call2 t i a code reason)"
  unfolding release_dead_letter_def
  by (intro act_intros tx_intros) (simp_all add: act_keeps_def create_replay_justified other_tables_justified)

lemma quarantine_justified:
  "act_keeps justified (approve_quarantine lib call t i a reason route)" "act_keeps justified (reject_quarantine lib call t i a reason)"
  unfolding approve_quarantine_def reject_quarantine_def decide_quarantine_def insert_outbox_def
  by (intro act_intros tx_intros; auto simp: other_tables_justified route_event_row_def intro: insert_outbox_justified)+

lemma policy_justified:
  "act_keeps justified (create_replay_approval_policy lib call t a pr)" "act_keeps justified (disable_replay_approval_policy lib call t i a reason)"
  unfolding create_replay_approval_policy_def disable_replay_approval_policy_def Let_def
  by (intro act_intros tx_intros tx_preservesI; auto simp: other_tables_justified split: list.splits if_splits)+

section \<open>Replays of the original configuration\<close>

text \<open>A delivery that repeats an original one: same event and endpoint, and the bytes of its payload.\<close>

definition repeats ::
    "fanout_run \<Rightarrow> fanout_options \<Rightarrow> 'a delivery_db_scheme \<Rightarrow> nat \<Rightarrow> delivery_row \<Rightarrow> delivery_row \<Rightarrow> delivery_payload_row \<Rightarrow> bool" where
  "repeats run opts db i x d p \<longleftrightarrow> dv_tenant d = dv_tenant x \<and> dv_event d = dv_event x \<and> dv_endpoint d = dv_endpoint x
     \<and> dv_retry_policy d = dv_retry_policy x \<and> dv_replay_job d = fo_replay_job opts \<and> dv_state d = ''scheduled''
     \<and> dv_next_attempt d = Some (fr_clock run i + replay_schedule_delay i (fo_rate_limit opts))
     \<and> dv_payload d = dp_id p \<and> dp_delivery p = dv_id d
     \<and> (\<exists>y \<in> set (delivery_payloads db). dp_id y = dv_payload x \<and> dp_tenant y = dv_tenant x \<and> dp_body p = dp_body y
          \<and> dp_sha256 p = dp_sha256 y \<and> dp_content_type p = dp_content_type y \<and> dp_status y \<noteq> ''deleted'')"

lemma service_snapshot_set:
  "sq_config_mode req \<noteq> [] \<Longrightarrow> sq_mode req \<noteq> [] \<Longrightarrow>
     service_snapshot env run i req = create_delivery_snapshot env (fr_faults run i) (fr_now run i) (fr_ids run i) req"
  by (simp add: service_snapshot_def)

lemma clone_one:
  assumes "service_snapshot env run i (original_request run opts t i (replay_source_of x)) db = (db', Inr r)"
    and "dv_payload x \<noteq> []" and "dv_tenant x = t"
  obtains d p ri rs where "db' = appended [d] [p] ri rs db" and "repeats run opts db i x d p"
proof -
  let ?req = "original_request run opts t i (replay_source_of x)"
  have q: "sq_config_mode ?req \<noteq> []" "sq_mode ?req = ''clone''" "sq_source_payload ?req = dv_payload x" "sq_tenant ?req = t"
    by (simp_all add: original_request_def source_request_def replay_source_of_def)
  then have "create_delivery_snapshot env (fr_faults run i) (fr_now run i) (fr_ids run i) ?req db = (db', Inr r)"
    using assms(1) by (simp add: service_snapshot_def)
  from snapshot_committed [OF this] obtain p where
    p: "payload_of env (fr_faults run i) db (fr_ids run i) ?req (sr_normalized r) (sr_adapter_version r) (sr_transformation r) p" and
    d: "db' = snapshot_db env (fr_now run i) (fr_ids run i) ?req p r db" .
  from p q assms(2) obtain y where y: "y \<in> set (delivery_payloads db)" "dp_tenant y = t" "dp_id y = dv_payload x" "dp_status y \<noteq> ''deleted''"
    "p = y\<lparr>dp_id := sg_payload (fr_ids run i), dp_tenant := t, dp_delivery := sg_delivery (fr_ids run i), dp_status := ''stored''\<rparr>"
    by (auto simp: payload_of_def)
  show ?thesis
    by (rule that [OF d [unfolded snapshot_db_appended]])
      (use y assms(3) in \<open>auto simp: repeats_def linked_row_def snapshot_row_def original_request_def source_request_def replay_source_of_def\<close>)
qed

lemma repeats_appended: "repeats run opts db i x d p \<Longrightarrow> repeats run opts (appended ds ps ri rs db) i x d p"
  by (auto simp: repeats_def)

lemma repeats_back:
  assumes "repeats run opts (appended ds ps ri rs db) i x d p" and "\<exists>y \<in> set (delivery_payloads db). dp_id y = dv_payload x \<and> dp_tenant y = dv_tenant x"
    and "distinct (map dp_id (delivery_payloads db @ ps))"
  shows "repeats run opts db i x d p"
proof -
  from assms(2) obtain z where z: "z \<in> set (delivery_payloads db)" "dp_id z = dv_payload x" by blast
  have "y = z" if "y \<in> set (delivery_payloads db @ ps)" "dp_id y = dv_payload x" for y
    using assms(3) that z by (metis Un_iff distinct_map inj_onD set_append)
  with assms(1) z show ?thesis unfolding repeats_def appended_simps by blast
qed

lemma clone_deliveries_effect:
  assumes "clone_deliveries env run opts t k (map replay_source_of xs) db = (db', Inr ())"
    and "payloads_ok env db" and "deliveries_ok db"
    and "\<forall>x \<in> set xs. x \<in> set (deliveries db) \<and> dv_tenant x = t \<and> dv_payload x \<noteq> []"
  shows "\<exists>ds ps ri rs. db' = appended ds ps ri rs db \<and> length ds = length xs \<and> length ps = length xs
     \<and> (\<forall>j < length xs. repeats run opts db (k + j) (xs ! j) (ds ! j) (ps ! j))"
  using assms
proof (induction xs arbitrary: k db)
  case Nil
  then show ?case by (intro exI [of _ "[]"]) simp
next
  case (Cons x xs)
  from Cons.prems(1) obtain d1 r where s: "service_snapshot env run k (original_request run opts t k (replay_source_of x)) db = (d1, Inr r)"
    and rest: "clone_deliveries env run opts t (k + 1) (map replay_source_of xs) d1 = (db', Inr ())" by auto
  have x: "dv_payload x \<noteq> []" "dv_tenant x = t" using Cons.prems(4) by simp_all
  from clone_one [OF s x] obtain d p ri1 rs1 where d1: "d1 = appended [d] [p] ri1 rs1 db"
    and rep: "repeats run opts db k x d p" .
  have "d1 = fst (service_snapshot env run k (original_request run opts t k (replay_source_of x)) db)" by (simp add: s)
  then have ok: "payloads_ok env d1" "deliveries_ok d1"
    using snapshot_ok [OF Cons.prems(3,2)] by (simp_all add: service_snapshot_def Let_def)
  have "\<forall>x \<in> set xs. x \<in> set (deliveries d1) \<and> dv_tenant x = t \<and> dv_payload x \<noteq> []" using Cons.prems(4) by (simp add: d1)
  from Cons.IH [OF rest ok this] obtain ds ps ri rs where e: "db' = appended ds ps ri rs d1" "length ds = length xs" "length ps = length xs"
    "\<forall>j < length xs. repeats run opts d1 (k + 1 + j) (xs ! j) (ds ! j) (ps ! j)" by blast
  have "repeats run opts db (k + 1 + j) (xs ! j) (ds ! j) (ps ! j)" if "j < length xs" for j
  proof (rule repeats_back)
    show "repeats run opts (appended [d] [p] ri1 rs1 db) (k + 1 + j) (xs ! j) (ds ! j) (ps ! j)" using e(4) that by (simp add: d1)
    have "xs ! j \<in> set (deliveries db)" "dv_payload (xs ! j) \<noteq> []" using Cons.prems(4) that by (auto simp: nth_mem)
    then show "\<exists>y \<in> set (delivery_payloads db). dp_id y = dv_payload (xs ! j) \<and> dp_tenant y = dv_tenant (xs ! j)"
      using Cons.prems(2) unfolding payloads_ok_def by blast
    show "distinct (map dp_id (delivery_payloads db @ [p]))" using ok(1) by (simp add: payloads_ok_def d1)
  qed
  then have "\<forall>j < length (x # xs). repeats run opts db (k + j) ((x # xs) ! j) ((d # ds) ! j) ((p # ps) ! j)"
    using rep by (auto simp: nth_Cons split: nat.splits)
  moreover have "db' = appended (d # ds) (p # ps) (ri1 @ ri) (rs1 @ rs) db" by (simp add: e(1) d1 appended_appended)
  ultimately show ?case using e(2,3)
    by (intro exI [of _ "d # ds"] exI [of _ "p # ps"] exI [of _ "ri1 @ ri"] exI [of _ "rs1 @ rs"]) simp
qed

lemma left_join_not_Nil: "left_join p rows \<noteq> []"
  by (simp add: left_join_def split: list.splits)

lemma snapshot_clone_runs:
  fixes db :: "'a gateway_db_scheme"
  assumes f: "\<And>l. f l = None" and m: "sq_mode req = ''clone''" "sq_source_payload req \<noteq> []"
    and y: "filter (\<lambda>p. dp_tenant p = sq_tenant req \<and> dp_id p = sq_source_payload req) (delivery_payloads db) = [y]" "dp_status y \<noteq> ''deleted''"
    and fr: "sg_delivery ids \<notin> dv_id ` set (deliveries db)" "sg_delivery ids \<notin> dp_delivery ` set (delivery_payloads db)"
      "sg_payload ids \<notin> dp_id ` set (delivery_payloads db)" "sg_item ids \<notin> ry_id ` set (replay_items db)"
      "sg_receipt ids \<notin> rx_id ` set (replay_receipts db)"
  shows "\<exists>db' r. create_delivery_snapshot env f now ids req db = (db', Inr r)"
proof -
  let ?row = "snapshot_row env now (sg_delivery ids) req"
  let ?db1 = "deliveries_update (\<lambda>ds. ds @ [?row]) db"
  obtain n ns where nj: "left_join (\<lambda>n. nz_tenant n = dp_tenant y \<and> nz_id n = dp_normalized y) (normalized_envelopes db) = n # ns"
    using left_join_not_Nil by (metis neq_Nil_conv)
  define a where "a = (case n of None \<Rightarrow> [] | Some r \<Rightarrow> nz_adapter_version r)"
  let ?p = "y\<lparr>dp_id := sg_payload ids, dp_tenant := sq_tenant req, dp_delivery := sg_delivery ids, dp_status := ''stored''\<rparr>"
  define db2 where "db2 = deliveries_update (update_where (\<lambda>d. dv_tenant d = sq_tenant req \<and> dv_id d = sg_delivery ids)
     (linked_row a (dp_normalized y) (dp_transformation_version y) (sg_payload ids))) (delivery_payloads_update (\<lambda>ps. ps @ [?p]) ?db1)"
  have "insert_row f ''insert_delivery'' dv_id deliveries deliveries_update ?row db = Inr (?db1, ())"
    using f fr(1) by (simp add: snapshot_row_def)
  moreover have "snapshot_payload env f ids req ?db1 = Inr (db2, sg_payload ids, dp_normalized y, a, dp_transformation_version y)"
  proof -
    have "(sq_tenant req, sg_delivery ids) \<notin> (\<lambda>x. (dp_tenant x, dp_delivery x)) ` set (delivery_payloads db)" using fr(2) by auto
    moreover have "query_row f ''clone_source'' (concat (map (\<lambda>p. map (\<lambda>n. (p, n)) (left_join (\<lambda>n. nz_tenant n = dp_tenant p \<and> nz_id n = dp_normalized p)
        (normalized_envelopes db))) (filter (\<lambda>p. dp_tenant p = sq_tenant req \<and> dp_id p = sq_source_payload req) (delivery_payloads db)))) = Inr (y, n)"
      unfolding y by (simp add: query_row_Inr f nj)
    ultimately have "clone_delivery_payload env f (sg_payload ids) (sq_tenant req) (sq_source_payload req) (sg_delivery ids) ?db1
        = Inr (db2, sg_payload ids, dp_normalized y, a, dp_transformation_version y)"
      using m y f fr(3) by (simp add: clone_delivery_payload_def link_payload_def db2_def a_def Let_def)
    then show ?thesis using m by (simp add: snapshot_payload_def)
  qed
  moreover have "\<exists>h. delivery_payload_sha256 f db2 (sq_tenant req) (sg_payload ids) = Inr h"
    using f by (simp add: delivery_payload_sha256_def db2_def query_row_Inr)
  moreover have "replay_items db2 = replay_items db" "replay_receipts db2 = replay_receipts db" by (simp_all add: db2_def)
  ultimately show ?thesis using f fr(4,5)
    by (auto simp: create_delivery_snapshot_def run_tx_def bind_tx_def then_tx_def read_tx_def Let_def return_tx_def
        insert_replay_decision_evidence_def insert_row_def try_tx_def replay_item_of_def replay_receipt_of_def)
qed

section \<open>Properties\<close>

lemma work_row:
  assumes "get_replay_job_work lib f db t jid = Inr work"
  obtains j where "j \<in> set (replay_jobs db)" and "rj_tenant j = t" and "rj_id j = jid" and "rj_state j = wk_state work"
    and "wk_config_mode work = rj_config_mode j" and "wk_rate_limit work = rj_rate_limit j"
proof -
  from assms obtain j where q: "query_row f ''replay_work'' (filter (\<lambda>j. rj_tenant j = t \<and> rj_id j = jid) (replay_jobs db)) = Inr j"
    and w: "wk_state work = rj_state j" "wk_config_mode work = rj_config_mode j" "wk_rate_limit work = rj_rate_limit j"
    by (auto simp: get_replay_job_work_def split: option.splits)
  from query_row_in [OF q] w show ?thesis by (intro that [of j]) simp_all
qed

lemma started_job:
  assumes "get_replay_job_work lib f db t jid = Inr work" and "wk_state work = ''scheduled''" and "f ''start_replay'' = None"
  shows "start_replay_job f t jid db = (replay_jobs_update (update_where (\<lambda>j. rj_tenant j = t \<and> rj_id j = jid \<and> rj_state j = ''scheduled'')
     (\<lambda>j. j\<lparr>rj_state := ''running''\<rparr>)) db, Inr True)"
proof -
  from work_row [OF assms(1)] obtain j where "j \<in> set (replay_jobs db)" "rj_tenant j = t" "rj_id j = jid" "rj_state j = wk_state work" by blast
  then have "list_ex (\<lambda>j. rj_tenant j = t \<and> rj_id j = jid \<and> rj_state j = ''scheduled'') (replay_jobs db)"
    unfolding list_ex_iff by (intro bexI [of _ j]) (simp_all add: assms(2))
  then show ?thesis using assms(3) by (simp add: start_replay_job_def Let_def auto_tx_def try_tx_def)
qed

abbreviation started_db :: "string \<Rightarrow> string \<Rightarrow> 'a gateway_db_scheme \<Rightarrow> 'a gateway_db_scheme" where
  "started_db t jid \<equiv> replay_jobs_update (update_where (\<lambda>j. rj_tenant j = t \<and> rj_id j = jid \<and> rj_state j = ''scheduled'')
     (\<lambda>j. j\<lparr>rj_state := ''running''\<rparr>))"

lemma replay_of_scheduled:
  assumes "get_replay_job_work lib (rn_faults rn) db t jid = Inr work" and "wk_state work = ''scheduled''"
    and "rn_faults rn ''start_replay'' = None"
  shows "create_replay_deliveries env lib rn t jid db =
     bind_act (replay_event_part env rn t jid (pq_event (wk_request work)) (replay_options jid work)) (\<lambda>n1.
     bind_act (if pq_delivery (wk_request work) = [] then return_act 0
       else create_delivery_from_existing env (rn_delivery rn) (rn_faults rn) t (pq_delivery (wk_request work)) (replay_options jid work)) (\<lambda>n2.
     complete_replay_job (rn_faults rn) (rn_now rn) t jid (n1 + n2))) (started_db t jid db)"
  using assms by (simp add: create_replay_deliveries_def Let_def bind_act_cong_read bind_act_def [of "start_replay_job f t' j'" for f t' j']
      started_job [OF assms])

lemma start_succeeded:
  "get_replay_job_work lib (rn_faults rn) db t jid = Inr work \<Longrightarrow> wk_state work = ''scheduled'' \<Longrightarrow>
     create_replay_deliveries env lib rn t jid db = (db', Inr ()) \<Longrightarrow> rn_faults rn ''start_replay'' = None"
  by (auto simp: create_replay_deliveries_def Let_def bind_act_cong_read start_replay_job_def)

lemma ball_update_where: "(\<forall>r \<in> set (update_where p g rows). Q r) \<longleftrightarrow> (\<forall>r \<in> set rows. if p r then Q (g r) else Q r)"
  by (auto simp: update_where_def)

lemma filter_update_where:
  "(\<And>x. p x \<Longrightarrow> q (g x) = q x) \<Longrightarrow> filter q (update_where p g rows) = update_where p g (filter q rows)"
  by (induction rows) auto

lemma original_event_Inr:
  "create_deliveries_from_original_event env run f t ev opts db = (db', Inr n) \<longleftrightarrow> f ''original_sources'' = None
     \<and> n = length (original_deliveries db t ev)
     \<and> clone_deliveries env run opts t 0 (map replay_source_of (original_deliveries db t ev)) db = (db', Inr ())"
  by (auto simp: create_deliveries_from_original_event_def list_original_delivery_replay_sources_def query_rows_def split: option.splits)

lemma original_deliveries_jobs [simp]: "original_deliveries (replay_jobs_update g db) t ev = original_deliveries db t ev"
  by (simp add: original_deliveries_def)


definition sample_request :: replay_request where
  "sample_request = \<lparr> pq_event = ''ev'', pq_delivery = [], pq_endpoint = [], pq_reason_code = ''receiver_fixed'', pq_reason = ''r'', pq_dry_run = False,
     pq_config_mode = ''original'', pq_rate_limit = 60, pq_require_approval = True, pq_expires = None \<rparr>"

definition sample_job :: "string \<Rightarrow> replay_job_row" where
  "sample_job state = \<lparr> rj_id = ''j'', rj_tenant = ''t'', rj_state = state, rj_scope = ''s'', rj_scope_hash = ''h'', rj_reason_code = ''receiver_fixed'',
     rj_reason = ''r'', rj_created_by = ''a'', rj_total_items = 1, rj_processed_items = 0, rj_config_mode = ''original'', rj_rate_limit = 60,
     rj_approval_required = True, rj_approval_expires = Some 100, rj_approved_by = ''b'', rj_approved_at = Some 5, rj_approval_reason = ''ok'',
     rj_paused_at = None, rj_canceled_at = None, rj_completed_at = None \<rparr>"

definition sample_replay_lib :: replay_lib where
  "sample_replay_lib = \<lparr> rl_sha = rev, rl_marshal = pq_reason, rl_jsonb = rev, rl_unmarshal = (\<lambda>_. Some sample_request) \<rparr>"

definition sample_original :: delivery_row where
  "sample_original = \<lparr> dv_id = ''d0'', dv_tenant = ''t'', dv_event = ''ev'', dv_endpoint = ''e'', dv_route = [], dv_route_version = [],
     dv_subscription = ''a'', dv_subscription_version = [], dv_retry_policy = [], dv_replay_job = [], dv_adapter_version = [],
     dv_normalized = ''n'', dv_transformation_version = [], dv_payload = ''p0'', dv_retry_seed = ''q'', dv_state = ''succeeded'', dv_attempt_count = 1,
     dv_next_attempt = None, dv_locked_by = None, dv_lock_expires = None, dv_created_at = 2 \<rparr>"

definition original_payload :: delivery_payload_row where
  "original_payload = \<lparr> dp_id = ''p0'', dp_tenant = ''t'', dp_delivery = ''d0'', dp_event = ''ev'', dp_normalized = ''n'', dp_transformation_version = [],
     dp_content_type = ''application/json'', dp_sha256 = sha256_text (fe_sha sample_fanout_env) ''{}'', dp_size = 2, dp_body = ''{}'', dp_status = ''stored'' \<rparr>"

definition sample_replay_db :: "string \<Rightarrow> gateway_db" where
  "sample_replay_db state = sample_gateway_db [sample_event True] [] [sample_original] [original_payload] [] [sample_job state]"

definition sample_replay_run :: replay_run where
  "sample_replay_run = \<lparr> rn_event = sample_run CHR ''1'' (\<lambda>_. no_faults), rn_delivery = sample_run CHR ''2'' (\<lambda>_. no_faults), rn_faults = no_faults,
     rn_now = 9, rn_noop = ''o'' \<rparr>"

lemma sample_work:
  "get_replay_job_work sample_replay_lib no_faults (sample_replay_db st) ''t'' ''j'' =
     Inr \<lparr> wk_request = sample_request, wk_state = st, wk_config_mode = ''original'', wk_rate_limit = 60 \<rparr>"
  by (simp add: get_replay_job_work_def sample_replay_db_def sample_gateway_db_def sample_job_def sample_replay_lib_def sample_request_def)

lemma sample_originals: "original_deliveries (sample_replay_db st) ''t'' ''ev'' = [sample_original]"
  by (simp add: original_deliveries_def sample_replay_db_def sample_gateway_db_def sample_original_def order_by_def)

lemma sample_ok: "payloads_ok sample_fanout_env (sample_replay_db st)" "deliveries_ok (sample_replay_db st)"
  by (simp_all add: payloads_ok_def deliveries_ok_def sample_replay_db_def sample_gateway_db_def sample_original_def original_payload_def
      payload_ok_def delivery_ok_def)

lemma sample_replay_runs:
  "\<exists>db'. create_replay_deliveries sample_fanout_env sample_replay_lib sample_replay_run ''t'' ''j'' (sample_replay_db ''scheduled'') = (db', Inr ())"
proof -
  let ?db = "started_db ''t'' ''j'' (sample_replay_db ''scheduled'')"
  let ?opts = "\<lparr> fo_replay_job = ''j'', fo_config_mode = ''original'', fo_rate_limit = 60, fo_allow_recovered = False \<rparr>"
  let ?req = "original_request (sample_run CHR ''1'' (\<lambda>_. no_faults)) ?opts ''t'' 0 (replay_source_of sample_original)"
  have opts: "replay_options ''j'' \<lparr> wk_request = sample_request, wk_state = ''scheduled'', wk_config_mode = ''original'', wk_rate_limit = 60 \<rparr> = ?opts"
    by (simp add: replay_options_def)
  have q: "sq_mode ?req = ''clone''" "sq_source_payload ?req = ''p0''" "sq_tenant ?req = ''t''" "sq_config_mode ?req = ''original''"
    by (simp_all add: original_request_def source_request_def replay_source_of_def sample_original_def)
  have "\<exists>d1 r. service_snapshot sample_fanout_env (sample_run CHR ''1'' (\<lambda>_. no_faults)) 0 ?req ?db = (d1, Inr r)"
    by (subst service_snapshot_set, simp add: q, simp add: q, rule snapshot_clone_runs [where y = original_payload], unfold q)
      (simp_all add: sample_replay_db_def sample_gateway_db_def sample_original_def original_payload_def sample_run_def)
  then obtain d1 r where "service_snapshot sample_fanout_env (sample_run CHR ''1'' (\<lambda>_. no_faults)) 0 ?req ?db = (d1, Inr r)" by blast
  then have c: "clone_deliveries sample_fanout_env (sample_run CHR ''1'' (\<lambda>_. no_faults)) ?opts ''t'' 0 [replay_source_of sample_original] ?db = (d1, Inr ())"
    by simp
  have "create_deliveries_from_original_event sample_fanout_env (sample_run CHR ''1'' (\<lambda>_. no_faults)) no_faults ''t'' ''ev'' ?opts ?db = (d1, Inr 1)"
    unfolding original_event_Inr original_deliveries_jobs sample_originals using c by simp
  then have p: "replay_event_part sample_fanout_env sample_replay_run ''t'' ''j'' ''ev'' ?opts ?db = (d1, Inr 1)"
    by (simp add: replay_event_part_def sample_replay_run_def)
  have fs: "rn_faults sample_replay_run = no_faults" by (simp add: sample_replay_run_def)
  show ?thesis
    using p unfolding replay_of_scheduled [OF sample_work [folded fs], unfolded opts fs, of "''scheduled''", simplified]
    by (auto simp: sample_request_def complete_replay_job_def replay_options_def)
qed


section \<open>Jobs that are left behind\<close>

text \<open>After the start of a job, only its completion touches the jobs.\<close>

abbreviation jobs_are :: "replay_job_row list \<Rightarrow> 'a gateway_db_scheme \<Rightarrow> bool" where
  "jobs_are js db \<equiv> replay_jobs db = js"

lemma snapshot_jobs [act_intros]: "act_keeps (jobs_are js) (service_snapshot env run i req)"
proof -
  have "replay_jobs (fst (create_delivery_snapshot env f now ids rq db)) = replay_jobs db" for f now ids rq and db :: "'a gateway_db_scheme"
  proof (cases "snd (create_delivery_snapshot env f now ids rq db)")
    case (Inl e)
    then show ?thesis using snapshot_failed [of env f now ids rq db] by (metis prod.collapse)
  next
    case (Inr r)
    then have "create_delivery_snapshot env f now ids rq db = (fst (create_delivery_snapshot env f now ids rq db), Inr r)"
      by (simp add: prod_eq_iff)
    from snapshot_committed [OF this] obtain p where "fst (create_delivery_snapshot env f now ids rq db) = snapshot_db env now ids rq p r db" .
    then show ?thesis by (simp add: snapshot_db_def)
  qed
  then show ?thesis by (simp add: act_keeps_def service_snapshot_def Let_def)
qed

lemma create_deliveries_jobs [act_intros]: "act_keeps (jobs_are js) (create_deliveries env run opts t ev k ts)"
  by (induction ts arbitrary: k) (auto intro!: act_intros simp: create_delivery_from_target_def)

lemma clone_deliveries_jobs [act_intros]: "act_keeps (jobs_are js) (clone_deliveries env run opts t k srcs)"
  by (induction srcs arbitrary: k) (auto intro!: act_intros)

lemma noop_jobs [act_intros]: "act_keeps (jobs_are js) (insert_replay_noop_item f i t jid ev mode err)"
  unfolding insert_replay_noop_item_def by (intro act_intros tx_intros) simp

lemma event_part_jobs [act_intros]: "act_keeps (jobs_are js) (replay_event_part env rn t jid ev opts)"
  unfolding replay_event_part_def create_deliveries_from_original_event_def create_deliveries_for_event_def Let_def
  by (intro act_intros)

lemma existing_jobs [act_intros]: "act_keeps (jobs_are js) (create_delivery_from_existing env run f t did opts)"
  unfolding create_delivery_from_existing_def by (intro act_intros)

lemma failed_replay_jobs:
  fixes db :: "'a gateway_db_scheme"
  assumes work: "get_replay_job_work lib (rn_faults rn) db t jid = Inr work" "wk_state work = ''scheduled''"
    and start: "rn_faults rn ''start_replay'' = None"
    and run: "create_replay_deliveries env lib rn t jid db = (db', Inl e)"
  shows "replay_jobs db' = replay_jobs (started_db t jid db)"
proof -
  let ?js = "replay_jobs (started_db t jid db)"
  let ?b = "if pq_delivery (wk_request work) = [] then return_act 0
     else create_delivery_from_existing env (rn_delivery rn) (rn_faults rn) t (pq_delivery (wk_request work)) (replay_options jid work)"
  have a: "act_keeps (jobs_are ?js) (replay_event_part env rn t jid (pq_event (wk_request work)) (replay_options jid work))"
    and b: "act_keeps (jobs_are ?js) ?b" by (intro act_intros)+
  have c: "complete_replay_job (rn_faults rn) (rn_now rn) t jid n d = (d', Inl e) \<Longrightarrow> d' = d" for n and d d' :: "'a gateway_db_scheme"
    by (simp add: complete_replay_job_def)
  from run consider "replay_event_part env rn t jid (pq_event (wk_request work)) (replay_options jid work) (started_db t jid db) = (db', Inl e)"
    | d1 n1 where "replay_event_part env rn t jid (pq_event (wk_request work)) (replay_options jid work) (started_db t jid db) = (d1, Inr n1)"
        and "?b d1 = (db', Inl e)"
    | d1 n1 d2 n2 where "replay_event_part env rn t jid (pq_event (wk_request work)) (replay_options jid work) (started_db t jid db) = (d1, Inr n1)"
        and "?b d1 = (d2, Inr n2)" and "complete_replay_job (rn_faults rn) (rn_now rn) t jid (n1 + n2) d2 = (db', Inl e)"
    unfolding replay_of_scheduled [OF work start] bind_act_Inl by blast
  then show ?thesis
  proof cases
    case 1
    then show ?thesis by (rule act_keeps_step [OF a refl])
  next
    case 2
    then show ?thesis using act_keeps_step [OF a refl] act_keeps_step [OF b] by blast
  next
    case 3
    then show ?thesis using act_keeps_step [OF a refl] act_keeps_step [OF b] c by blast
  qed
qed

text \<open>
  C37. A replay that fails half way is never resumed. When the work of a scheduled job fails after
  the job was started, the job stays running; every later run of its outbox item, with whatever
  services and identifiers, finds it not scheduled, does nothing and reports success, so the
  worker completes the item although deliveries are missing and the job is not completed.
\<close>

theorem failed_replay_abandoned:
  fixes db :: "'a gateway_db_scheme"
  assumes run: "create_replay_deliveries env lib rn t jid db = (db1, Inl e)"
    and work: "get_replay_job_work lib (rn_faults rn) db t jid = Inr work" "wk_state work = ''scheduled''"
    and start: "rn_faults rn ''start_replay'' = None"
    and key: "distinct (map rj_id (replay_jobs db))"
  shows "(\<exists>j \<in> set (replay_jobs db1). rj_tenant j = t \<and> rj_id j = jid \<and> rj_state j = ''running'')
     \<and> (\<forall>env2 rn2. rn_faults rn2 ''replay_work'' = None \<longrightarrow> create_replay_deliveries env2 lib rn2 t jid db1 = (db1, Inr ()))"
proof -
  note js = failed_replay_jobs [OF work start run]
  from work obtain j where q: "query_row (rn_faults rn) ''replay_work'' (filter (\<lambda>j. rj_tenant j = t \<and> rj_id j = jid) (replay_jobs db)) = Inr j"
    and s: "rj_state j = ''scheduled''" and u: "rl_unmarshal lib (rj_scope j) \<noteq> None"
    by (auto simp: get_replay_job_work_def split: option.splits)
  from query_row_in [OF q] have j: "j \<in> set (replay_jobs db)" "rj_tenant j = t" "rj_id j = jid" by simp_all
  let ?j = "j\<lparr>rj_state := ''running''\<rparr>"
  have "filter (\<lambda>j. rj_tenant j = t \<and> rj_id j = jid) (replay_jobs db) = [j]"
    using filter_unique_key [OF key j(1), where q = "\<lambda>x. rj_tenant x = t"] j(2,3) by (simp add: conj_commute)
  then have f1: "filter (\<lambda>j. rj_tenant j = t \<and> rj_id j = jid) (replay_jobs db1) = [?j]"
    using j s by (simp add: js filter_update_where)
  then have "?j \<in> set (filter (\<lambda>j. rj_tenant j = t \<and> rj_id j = jid) (replay_jobs db1))" by simp
  then have "\<exists>j \<in> set (replay_jobs db1). rj_tenant j = t \<and> rj_id j = jid \<and> rj_state j = ''running''"
    by (intro bexI [of _ ?j]) simp_all
  moreover have "create_replay_deliveries env2 lib rn2 t jid db1 = (db1, Inr ())" if f: "rn_faults rn2 ''replay_work'' = None" for env2 rn2
  proof -
    obtain req where "rl_unmarshal lib (rj_scope j) = Some req" using u by blast
    then obtain w where "get_replay_job_work lib (rn_faults rn2) db1 t jid = Inr w" "wk_state w = ''running''"
      by (simp add: get_replay_job_work_def f1 query_row_def f)
    then show ?thesis by (simp add: create_replay_deliveries_def Let_def bind_act_cong_read return_act_def)
  qed
  ultimately show ?thesis by blast
qed

definition sources_fail :: faults where
  "sources_fail lbl = (if lbl = ''original_sources'' then Some ErrCanceled else None)"

theorem failed_replay_abandoned_witness:
  "\<exists>db1. create_replay_deliveries sample_fanout_env sample_replay_lib (sample_replay_run\<lparr>rn_faults := sources_fail\<rparr>) ''t'' ''j''
       (sample_replay_db ''scheduled'') = (db1, Inl ErrCanceled)
     \<and> (\<exists>j \<in> set (replay_jobs db1). rj_id j = ''j'' \<and> rj_state j = ''running'')
     \<and> create_replay_deliveries sample_fanout_env sample_replay_lib sample_replay_run ''t'' ''j'' db1 = (db1, Inr ())"
proof -
  let ?db = "sample_replay_db ''scheduled''" and ?rn = "sample_replay_run\<lparr>rn_faults := sources_fail\<rparr>"
  let ?work = "\<lparr> wk_request = sample_request, wk_state = ''scheduled'', wk_config_mode = ''original'', wk_rate_limit = 60 \<rparr>"
  have w: "get_replay_job_work sample_replay_lib (rn_faults ?rn) ?db ''t'' ''j'' = Inr ?work"
    by (simp add: get_replay_job_work_def sample_replay_db_def sample_gateway_db_def sample_job_def sample_replay_lib_def sample_request_def
        query_row_def sources_fail_def)
  have st: "wk_state ?work = ''scheduled''" "rn_faults ?rn ''start_replay'' = None" by (simp_all add: sources_fail_def)
  have run: "create_replay_deliveries sample_fanout_env sample_replay_lib ?rn ''t'' ''j'' ?db = (started_db ''t'' ''j'' ?db, Inl ErrCanceled)"
    unfolding replay_of_scheduled [OF w st]
    by (simp add: bind_act_def replay_event_part_def create_deliveries_from_original_event_def list_original_delivery_replay_sources_def
        sources_fail_def sample_request_def replay_options_def read_act_def query_rows_def)
  have k: "distinct (map rj_id (replay_jobs ?db))" by (simp add: sample_replay_db_def sample_gateway_db_def)
  have f: "rn_faults sample_replay_run ''replay_work'' = None" by (simp add: sample_replay_run_def)
  from failed_replay_abandoned [OF run w st k] run f show ?thesis by blast
qed

text \<open>
  C38. A job that is paused before its approval can never run. When a job that waits for an
  approval is paused and resumed, it is scheduled, although nobody approved it; then nobody can
  approve it any more, and since only the approval would have put it into the outbox, no outbox
  item makes it run.
\<close>

theorem resumed_job_never_approved:
  fixes db :: "'a gateway_db_scheme"
  assumes inv: "justified db"
    and j: "j \<in> set (replay_jobs db)" "rj_tenant j = t" "rj_id j = jid" "rj_state j = ''pending_approval''" "\<not> approved j"
    and pause: "pause_replay_job lib c1 t jid a1 r1 db = (db1, Inr j1)"
    and resume: "resume_replay_job lib c2 t jid a2 r2 db1 = (db2, Inr j2)"
  shows "(\<exists>x \<in> set (replay_jobs db2). rj_tenant x = t \<and> rj_id x = jid \<and> rj_state x = ''scheduled'' \<and> \<not> approved x)
     \<and> (\<forall>q \<in> set (outbox db2). \<not> (ob_kind q = ''replay_job'' \<and> ob_tenant q = t \<and> ob_resource q = jid))
     \<and> (\<forall>call a r. \<exists>e. approve_replay_job lib call t jid a r db2 = (db2, Inl e))"
proof -
  let ?q = "\<lambda>j. rj_tenant j = t \<and> rj_id j = jid"
  have key: "distinct (map rj_id (replay_jobs db))" using inv by (simp add: justified_def)
  have "filter ?q (replay_jobs db) = [j]"
    using filter_unique_key [OF key j(1), where q = "\<lambda>x. rj_tenant x = t"] j(2,3) by (simp add: conj_commute)
  then have f1: "filter ?q (replay_jobs db1) = [j\<lparr>rj_state := ''paused'', rj_paused_at := Some (sc_now c1)\<rparr>]"
    unfolding same_more_replay(1) [OF update_replay_state_Inr [OF pause [unfolded pause_replay_job_def]]]
    using j by (simp add: filter_update_where set_replay_state_def replay_state_guard_def Let_def)
  define x where "x = j\<lparr>rj_state := ''scheduled'', rj_paused_at := Some (sc_now c1)\<rparr>"
  have f2: "filter ?q (replay_jobs db2) = [x]"
    unfolding same_more_replay(1) [OF update_replay_state_Inr [OF resume [unfolded resume_replay_job_def]]] x_def
    using j f1 by (simp add: filter_update_where set_replay_state_def replay_state_guard_def Let_def)
  have x: "rj_state x = ''scheduled''" "\<not> approved x" using j by (simp_all add: x_def approved_def)
  have only: "y = x" if "y \<in> set (replay_jobs db2)" "?q y" for y
  proof -
    have "y \<in> set (filter ?q (replay_jobs db2))" using that by simp
    then show ?thesis by (simp add: f2)
  qed
  have "x \<in> set (filter ?q (replay_jobs db2))" by (simp add: f2)
  then have "\<exists>x \<in> set (replay_jobs db2). rj_tenant x = t \<and> rj_id x = jid \<and> rj_state x = ''scheduled'' \<and> \<not> approved x"
    using x by (intro bexI [of _ x]) simp_all
  moreover have "justified db1"
    using update_state_justified [OF inv, of lib c1 t jid a1 r1 "''paused''" "''replay.paused''"] pause by (simp add: pause_replay_job_def)
  then have "justified db2"
    using update_state_justified [of db1 lib c2 t jid a2 r2 "''scheduled''" "''replay.resumed''"] resume by (simp add: resume_replay_job_def)
  then have "\<not> (ob_kind q = ''replay_job'' \<and> ob_tenant q = t \<and> ob_resource q = jid)" if "q \<in> set (outbox db2)" for q
    using that only x(2) unfolding justified_def job_approved_def by blast
  moreover have "\<exists>e. approve_replay_job lib call t jid a r db2 = (db2, Inl e)" for call a r
  proof (cases "approve_replay_job lib call t jid a r db2")
    case (Pair d res)
    show ?thesis
    proof (cases res)
      case (Inl e)
      then show ?thesis using Pair job_ops_failed(1) by blast
    next
      case (Inr y)
      from approve_replay_Inr(1) [OF Pair [unfolded Inr]] obtain z where z: "z \<in> set (replay_jobs db2)" "approvable (sc_now call) t jid a z" by blast
      then have "z = x" by (intro only) (simp_all add: approvable_def)
      with z(2) x(1) show ?thesis by (simp add: approvable_def)
    qed
  qed
  ultimately show ?thesis by blast
qed

lemma record_audit_first:
  assumes "audit_events db = []" "chain_entries db = []" "chain_heads db = []"
  shows "\<exists>db' e c h. record_audit_event_tx sha no_faults now eid cid inp db = Inr (db', e) \<and> audit_events db' = [e] \<and> ae_id e = eid
     \<and> chain_entries db' = [c] \<and> ce_id c = cid \<and> ce_event_id c = eid \<and> ce_sequence c = 1
     \<and> chain_heads db' = [h] \<and> ch_tenant h = ai_tenant inp \<and> ch_sequence h = 1"
  using assms by (simp add: record_audit_event_tx_def Let_def then_tx_def bind_tx_def insert_audit_event_def try_tx_def
      ensure_audit_chain_head_def exec_tx_def read_tx_def insert_audit_chain_entry_def update_head_def return_tx_def compute_entry_def wrap64_def)

lemma record_audit_second:
  assumes "audit_events db = [e]" "ae_id e \<noteq> eid" "chain_entries db = [c]" "ce_id c \<noteq> cid" "ce_event_id c \<noteq> eid" "ce_sequence c = 1"
    "chain_heads db = [h]" "ch_tenant h = ai_tenant inp" "ch_sequence h = 1"
  shows "\<exists>db' e. record_audit_event_tx sha no_faults now eid cid inp db = Inr (db', e)"
  using assms by (simp add: record_audit_event_tx_def Let_def then_tx_def bind_tx_def insert_audit_event_def try_tx_def
      ensure_audit_chain_head_def exec_tx_def read_tx_def insert_audit_chain_entry_def update_head_def return_tx_def compute_entry_def wrap64_def)

lemma update_state_runs:
  assumes "sc_faults call = no_faults" and "filter (\<lambda>j. rj_tenant j = t \<and> rj_id j = jid \<and> replay_state_guard state j) (replay_jobs db) = x # xs"
    and "audit_tx lib call (audit_of t a action ''replay_job'' jid reason) (replay_jobs_update (update_where (\<lambda>j. rj_tenant j = t \<and> rj_id j = jid
       \<and> replay_state_guard state j) (set_replay_state (sc_now call) state)) db) = Inr (db', e)"
  shows "update_replay_state lib call t jid a reason state action db = (db', Inr (set_replay_state (sc_now call) state x))"
  using assms by (simp add: update_replay_state_def run_tx_ok)

definition sample_call :: "string \<Rightarrow> store_call" where
  "sample_call i = \<lparr> sc_faults = no_faults, sc_now = 9, sc_clock = 9, sc_id = i @ ''i'', sc_outbox = i @ ''o'', sc_audit = i @ ''a'', sc_entry = i @ ''e'' \<rparr>"

definition waiting_job :: replay_job_row where
  "waiting_job = (sample_job ''pending_approval'')\<lparr>rj_approved_by := [], rj_approved_at := None\<rparr>"

lemma sample_audit:
  "audit_tx sample_replay_lib (sample_call i) = record_audit_event_tx (rl_sha sample_replay_lib) no_faults 9 (i @ ''a'') (i @ ''e'')"
  by (simp add: audit_tx_def sample_call_def)

lemma sample_pause_resume:
  "\<exists>db1 j1 db2 j2. pause_replay_job sample_replay_lib (sample_call ''1'') ''t'' ''j'' ''a'' ''r'' (sample_gateway_db [] [] [] [] [] [waiting_job]) = (db1, Inr j1)
     \<and> resume_replay_job sample_replay_lib (sample_call ''2'') ''t'' ''j'' ''a'' ''r'' db1 = (db2, Inr j2)"
proof -
  let ?db = "sample_gateway_db [] [] [] [] [] [waiting_job]"
  let ?up = "\<lambda>state. replay_jobs_update (update_where (\<lambda>j. rj_tenant j = ''t'' \<and> rj_id j = ''j'' \<and> replay_state_guard state j) (set_replay_state 9 state))"
  let ?in = "\<lambda>action. audit_of ''t'' ''a'' action ''replay_job'' ''j'' ''r''"
  have c: "sc_faults (sample_call i) = no_faults" "sc_now (sample_call i) = 9" for i by (simp_all add: sample_call_def)
  have empty: "audit_events (?up ''paused'' ?db) = []" "chain_entries (?up ''paused'' ?db) = []" "chain_heads (?up ''paused'' ?db) = []"
    by (simp_all add: sample_gateway_db_def)
  from record_audit_first [OF empty] obtain db1 e ce h where
    1: "audit_tx sample_replay_lib (sample_call ''1'') (?in ''replay.paused'') (?up ''paused'' ?db) = Inr (db1, e)" and
    t1: "audit_events db1 = [e]" "ae_id e = ''1'' @ ''a''" "chain_entries db1 = [ce]" "ce_id ce = ''1'' @ ''e''" "ce_event_id ce = ''1'' @ ''a''"
      "ce_sequence ce = 1" "chain_heads db1 = [h]" "ch_tenant h = ai_tenant (?in ''replay.paused'')" "ch_sequence h = 1"
    unfolding sample_audit by blast
  have "filter (\<lambda>j. rj_tenant j = ''t'' \<and> rj_id j = ''j'' \<and> replay_state_guard ''paused'' j) (replay_jobs ?db) = [waiting_job]"
    by (simp add: sample_gateway_db_def waiting_job_def sample_job_def replay_state_guard_def)
  from update_state_runs [OF c(1) this, unfolded c, OF 1] obtain j1 where
    p: "pause_replay_job sample_replay_lib (sample_call ''1'') ''t'' ''j'' ''a'' ''r'' ?db = (db1, Inr j1)" by (simp add: pause_replay_job_def)
  have "replay_jobs db1 = [set_replay_state 9 ''paused'' waiting_job]"
    unfolding same_more_replay(1) [OF audit_tx_more [OF 1]]
    by (simp add: sample_gateway_db_def waiting_job_def sample_job_def replay_state_guard_def)
  then have f2: "filter (\<lambda>j. rj_tenant j = ''t'' \<and> rj_id j = ''j'' \<and> replay_state_guard ''scheduled'' j) (replay_jobs db1)
      = [set_replay_state 9 ''paused'' waiting_job]"
    by (simp add: waiting_job_def sample_job_def replay_state_guard_def set_replay_state_def Let_def)
  have "\<exists>db2 e2. audit_tx sample_replay_lib (sample_call ''2'') (?in ''replay.resumed'') (?up ''scheduled'' db1) = Inr (db2, e2)"
    unfolding sample_audit by (rule record_audit_second [where e = e and c = ce and h = h]) (use t1 in \<open>simp_all add: audit_of_def\<close>)
  then obtain db2 e2 where 2: "audit_tx sample_replay_lib (sample_call ''2'') (?in ''replay.resumed'') (?up ''scheduled'' db1) = Inr (db2, e2)" by blast
  from update_state_runs [OF c(1) f2, unfolded c, OF 2] p show ?thesis by (auto simp: resume_replay_job_def)
qed

theorem resumed_job_never_approved_witness:
  "\<exists>db1 j1 db2 j2. pause_replay_job sample_replay_lib (sample_call ''1'') ''t'' ''j'' ''a'' ''r'' (sample_gateway_db [] [] [] [] [] [waiting_job]) = (db1, Inr j1)
     \<and> resume_replay_job sample_replay_lib (sample_call ''2'') ''t'' ''j'' ''a'' ''r'' db1 = (db2, Inr j2)
     \<and> (\<exists>e. approve_replay_job sample_replay_lib (sample_call ''3'') ''t'' ''j'' ''b'' ''ok'' db2 = (db2, Inl e))"
proof -
  let ?db = "sample_gateway_db [] [] [] [] [] [waiting_job]"
  have inv: "justified ?db" by (simp add: justified_def sample_gateway_db_def)
  have j: "waiting_job \<in> set (replay_jobs ?db)" "rj_tenant waiting_job = ''t''" "rj_id waiting_job = ''j''"
    "rj_state waiting_job = ''pending_approval''" "\<not> approved waiting_job"
    by (simp_all add: sample_gateway_db_def waiting_job_def sample_job_def approved_def)
  from sample_pause_resume obtain db1 j1 db2 j2 where
    p: "pause_replay_job sample_replay_lib (sample_call ''1'') ''t'' ''j'' ''a'' ''r'' ?db = (db1, Inr j1)" and
    r: "resume_replay_job sample_replay_lib (sample_call ''2'') ''t'' ''j'' ''a'' ''r'' db1 = (db2, Inr j2)" by blast
  from resumed_job_never_approved [OF inv j p r] p r show ?thesis by blast
qed


definition quarantined_db :: gateway_db where
  "quarantined_db = (sample_gateway_db [sample_event False] [] [] [] [] [])\<lparr>quarantine_entries :=
     [\<lparr> qu_id = ''q'', qu_tenant = ''t'', qu_event = ''ev'', qu_reason = ''r'', qu_state = ''open'' \<rparr>]\<rparr>"

lemma sample_quarantine_release:
  "\<exists>db1. approve_quarantine sample_replay_lib (sample_call ''1'') ''t'' ''q'' ''a'' ''r'' True quarantined_db = (db1, Inr ''ev'')"
proof -
  let ?up = "quarantine_entries_update (update_where (\<lambda>q. qu_tenant q = ''t'' \<and> qu_id q = ''q'' \<and> qu_state q = ''open'')
     (\<lambda>q. q\<lparr>qu_state := ''approved''\<rparr>)) quarantined_db"
  have "audit_events ?up = []" "chain_entries ?up = []" "chain_heads ?up = []" by (simp_all add: quarantined_db_def sample_gateway_db_def)
  from record_audit_event_tx_runs [OF this] obtain d1 e where
    a: "audit_tx sample_replay_lib (sample_call ''1'') (audit_of ''t'' ''a'' ''quarantine.approved'' ''quarantine_entry'' ''q'' ''r'') ?up = Inr (d1, e)"
    unfolding sample_audit by blast
  have o: "outbox d1 = []" unfolding same_more_ingest(2) [OF audit_tx_more [OF a]] by (simp add: quarantined_db_def sample_gateway_db_def)
  show ?thesis
    using a o by (auto simp: approve_quarantine_def decide_quarantine_def run_tx_ok insert_outbox_def sample_call_def quarantined_db_def)
qed


end
