(* ===== verification/Worker_Loop.thy ===== *)
theory Worker_Loop
  imports Replay_Execution
begin

text \<open>
  The worker of internal/worker/worker.go: one run over its phases, the loop over the claimed
  outbox items and the loops over the claimed deliveries; and the dispatch of outbox items of
  internal/app/outbox_processor.go. The stores and clients are fields of the worker, as in the
  code, each an action on a state that is left open; the phases that are not configured are None.
  The second part fixes what the outbox loop relies on in a locale and interprets it on the
  queue and the processor of the gateway.
\<close>

section \<open>Model: stores and clients\<close>

record signal_item =
  si_id :: string
  si_tenant :: string
  si_url :: string
  si_attempt_count :: int
  si_secret :: string
  si_body :: string

record signal_result =
  sl_status :: int
  sl_body :: string
  sl_truncated :: bool
  sl_failure_class :: string

record ('s, 'i, 'r) delivery_store =
  ds_claim :: "string \<Rightarrow> int \<Rightarrow> ('s, 'i list) act"
  ds_record :: "'i \<Rightarrow> 'r \<Rightarrow> go_error option \<Rightarrow> ('s, unit) act"

text \<open>A client answers with a result and an error, and may change the state in between.\<close>

type_synonym ('s, 'i, 'r) sending_client = "'i \<Rightarrow> 's \<Rightarrow> 's \<times> 'r \<times> go_error option"

type_synonym 's phase_store = "string \<Rightarrow> int \<Rightarrow> ('s, unit) act"

datatype phase = PhaseOutbox | PhaseDelivery | PhaseRetention | PhaseMetrics | PhaseAlerts | PhaseAuditChainBackfill
  | PhaseNotification | PhaseSIEM

record 's worker =
  wr_claim_outbox :: "string \<Rightarrow> int \<Rightarrow> ('s, outbox_item list) act"
  wr_complete_outbox :: "string \<Rightarrow> ('s, unit) act"
  wr_processor :: "(outbox_item \<Rightarrow> ('s, unit) act) option"
  wr_delivery_store :: "('s, delivery_item, deliver_result) delivery_store option"
  wr_delivery_client :: "('s, delivery_item, deliver_result) sending_client option"
  wr_notification_store :: "('s, signal_item, signal_result) delivery_store option"
  wr_notification_client :: "('s, signal_item, signal_result) sending_client option"
  wr_siem_store :: "('s phase_store \<times> ('s, signal_item, signal_result) delivery_store) option"
  wr_siem_client :: "('s, signal_item, signal_result) sending_client option"
  wr_retention :: "'s phase_store option"
  wr_metrics :: "'s phase_store option"
  wr_alerts :: "'s phase_store option"
  wr_backfill :: "(string \<Rightarrow> int \<Rightarrow> ('s, backfill_result) act) option"
  wr_id :: string
  wr_limit :: int

section \<open>Model: the phases\<close>

fun process_items ::
    "(string \<Rightarrow> ('s, unit) act) \<Rightarrow> (outbox_item \<Rightarrow> ('s, unit) act) option \<Rightarrow> outbox_item list \<Rightarrow> ('s, unit) act" where
  "process_items finish processor [] = return_act ()"
| "process_items finish processor (item # items) =
     (case processor of
        None \<Rightarrow> then_act (finish (oi_id item)) (process_items finish processor items)
      | Some process \<Rightarrow> (\<lambda>s. case process item s of
            (s', Inl e) \<Rightarrow> if e = ErrDeferred then process_items finish processor items s' else (s', Inl e)
          | (s', Inr _) \<Rightarrow> then_act (finish (oi_id item)) (process_items finish processor items) s'))"

definition run_outbox :: "'s worker \<Rightarrow> int \<Rightarrow> ('s, unit) act" where
  "run_outbox w lmt = bind_act (wr_claim_outbox w (wr_id w) lmt) (process_items (wr_complete_outbox w) (wr_processor w))"

fun deliver_items :: "('s, 'i, 'r) delivery_store \<Rightarrow> ('s, 'i, 'r) sending_client \<Rightarrow> 'i list \<Rightarrow> ('s, unit) act" where
  "deliver_items store client [] = return_act ()"
| "deliver_items store client (item # items) = (\<lambda>s. case client item s of
     (s', r, e) \<Rightarrow> then_act (ds_record store item r e) (deliver_items store client items) s')"

definition run_deliveries :: "('s, 'i, 'r) delivery_store \<Rightarrow> ('s, 'i, 'r) sending_client \<Rightarrow> string \<Rightarrow> int \<Rightarrow> ('s, unit) act" where
  "run_deliveries store client worker_id lmt = bind_act (ds_claim store worker_id lmt) (deliver_items store client)"

definition run_siem_deliveries ::
    "'s phase_store \<times> ('s, 'i, 'r) delivery_store \<Rightarrow> ('s, 'i, 'r) sending_client \<Rightarrow> string \<Rightarrow> int \<Rightarrow> ('s, unit) act" where
  "run_siem_deliveries store client worker_id lmt =
     then_act (fst store worker_id lmt) (run_deliveries (snd store) client worker_id lmt)"

definition stop_after_phase :: "go_error option \<Rightarrow> bool" where
  "stop_after_phase e \<longleftrightarrow> e = Some ErrCanceled \<or> e = Some ErrDeadlineExceeded"

section \<open>Model: a run\<close>

definition store_phase :: "phase \<Rightarrow> 's phase_store option \<Rightarrow> string \<Rightarrow> int \<Rightarrow> (phase \<times> ('s, unit) act) list" where
  "store_phase p store worker_id lmt = (case store of None \<Rightarrow> [] | Some m \<Rightarrow> [(p, m worker_id lmt)])"

definition delivery_phase ::
    "phase \<Rightarrow> ('s, 'i, 'r) delivery_store option \<Rightarrow> ('s, 'i, 'r) sending_client option \<Rightarrow> string \<Rightarrow> int \<Rightarrow> (phase \<times> ('s, unit) act) list" where
  "delivery_phase p store client worker_id lmt =
     (case (store, client) of (Some s, Some c) \<Rightarrow> [(p, run_deliveries s c worker_id lmt)] | _ \<Rightarrow> [])"

text \<open>The configured phases in their order, and their run: it ends after a phase that was cancelled.\<close>

definition worker_phases :: "'s worker \<Rightarrow> int \<Rightarrow> (phase \<times> ('s, unit) act) list" where
  "worker_phases w lmt =
     [(PhaseOutbox, run_outbox w lmt)]
     @ delivery_phase PhaseDelivery (wr_delivery_store w) (wr_delivery_client w) (wr_id w) lmt
     @ store_phase PhaseRetention (wr_retention w) (wr_id w) lmt
     @ store_phase PhaseMetrics (wr_metrics w) (wr_id w) lmt
     @ store_phase PhaseAlerts (wr_alerts w) (wr_id w) lmt
     @ store_phase PhaseAuditChainBackfill (map_option (\<lambda>m worker_id n. then_act (m worker_id n) (return_act ())) (wr_backfill w)) (wr_id w) lmt
     @ delivery_phase PhaseNotification (wr_notification_store w) (wr_notification_client w) (wr_id w) lmt
     @ (case (wr_siem_store w, wr_siem_client w) of
          (Some s, Some c) \<Rightarrow> [(PhaseSIEM, run_siem_deliveries s c (wr_id w) lmt)] | _ \<Rightarrow> [])"

definition error_of :: "'a res \<Rightarrow> go_error option" where
  "error_of r = (case r of Inl e \<Rightarrow> Some e | Inr _ \<Rightarrow> None)"

fun run_phases :: "(phase \<times> ('s, unit) act) list \<Rightarrow> 's \<Rightarrow> 's \<times> (phase \<times> go_error option) list" where
  "run_phases [] s = (s, [])"
| "run_phases ((p, m) # ps) s =
     (case m s of (s', r) \<Rightarrow>
        if stop_after_phase (error_of r) then (s', [(p, error_of r)])
        else case run_phases ps s' of (s'', rs) \<Rightarrow> (s'', (p, error_of r) # rs))"

definition run_once_report :: "'s worker \<Rightarrow> 's \<Rightarrow> 's \<times> (phase \<times> go_error option) list" where
  "run_once_report w = run_phases (worker_phases w (if wr_limit w \<le> 0 then 10 else wr_limit w))"

definition report_errors :: "(phase \<times> go_error option) list \<Rightarrow> (phase \<times> go_error) list" where
  "report_errors rs = concat (map (\<lambda>(p, e). case e of None \<Rightarrow> [] | Some x \<Rightarrow> [(p, x)]) rs)"

definition report_result :: "(phase \<times> go_error option) list \<Rightarrow> phase \<Rightarrow> (phase \<times> go_error option) option" where
  "report_result rs p = List.find (\<lambda>r. fst r = p) rs"

text \<open>\<open>RunOnce\<close>: the state and the joined errors, none of them when the run has no error.\<close>

definition run_once :: "'s worker \<Rightarrow> 's \<Rightarrow> 's \<times> (phase \<times> go_error) list" where
  "run_once w s = (case run_once_report w s of (s', rs) \<Rightarrow> (s', report_errors rs))"

section \<open>Model: the outbox processor\<close>

definition outbox_process ::
    "(outbox_item \<Rightarrow> ('s, unit) act) option \<Rightarrow> (string \<Rightarrow> string \<Rightarrow> ('s, unit) act) option \<Rightarrow> outbox_item \<Rightarrow> ('s, unit) act" where
  "outbox_process fanout reconciliation item =
     (if oi_kind item \<in> {''route_event'', ''route_recovered_event'', ''replay_job''}
      then (case fanout of None \<Rightarrow> return_act () | Some m \<Rightarrow> m item)
      else if oi_kind item = ''reconciliation_job''
      then (case reconciliation of None \<Rightarrow> return_act () | Some m \<Rightarrow> m (oi_tenant item) (oi_resource item))
      else return_act ())"

section \<open>What the outbox loop relies on\<close>

text \<open>
  The queue and the processor of the loop: completing an item completes no other one, and the
  processing of an item completes none.
\<close>

locale outbox_queue =
  fixes finish :: "string \<Rightarrow> ('s, unit) act" and process :: "outbox_item \<Rightarrow> ('s, unit) act" and done_ids :: "'s \<Rightarrow> string set"
  assumes finish_done: "finish i s = (s', r) \<Longrightarrow> done_ids s' \<subseteq> insert i (done_ids s)"
    and process_done: "process item s = (s', r) \<Longrightarrow> done_ids s' \<subseteq> done_ids s"
begin

lemma done_only_processed:
  "process_items finish (Some process) items s = (s', r) \<Longrightarrow>
   done_ids s' \<subseteq> done_ids s \<union> {oi_id item | item. item \<in> set items \<and> (\<exists>u u'. process item u = (u', Inr ()))}"
proof (induction items arbitrary: s)
  case Nil
  then show ?case by simp
next
  case (Cons item items)
  let ?ok = "\<lambda>its. {oi_id item | item. item \<in> set its \<and> (\<exists>u u'. process item u = (u', Inr ()))}"
  have mono: "?ok items \<subseteq> ?ok (item # items)" by auto
  obtain s1 r1 where p: "process item s = (s1, r1)" by fastforce
  note d1 = process_done [OF p]
  show ?case
  proof (cases r1)
    case (Inl e)
    show ?thesis
    proof (cases "e = ErrDeferred")
      case True
      then have "process_items finish (Some process) items s1 = (s', r)" using Cons.prems p Inl by simp
      from Cons.IH [OF this] d1 mono show ?thesis by blast
    next
      case False
      then show ?thesis using Cons.prems p Inl d1 by auto
    qed
  next
    case (Inr u)
    have ok: "oi_id item \<in> ?ok (item # items)" using p Inr by auto
    obtain s2 r2 where f: "finish (oi_id item) s1 = (s2, r2)" by fastforce
    note d2 = finish_done [OF f]
    show ?thesis
    proof (cases r2)
      case (Inl e)
      then have "s' = s2" using Cons.prems p Inr f by (simp add: then_act_def bind_act_def)
      then show ?thesis using d1 d2 ok by blast
    next
      case r2: (Inr v)
      then have "process_items finish (Some process) items s2 = (s', r)" using Cons.prems p Inr f by (simp add: then_act_def bind_act_def)
      from Cons.IH [OF this] d1 d2 ok mono show ?thesis by blast
    qed
  qed
qed

lemma all_processed_or_deferred:
  "process_items finish (Some process) items s = (s', Inr ()) \<Longrightarrow> item \<in> set items \<Longrightarrow>
   \<exists>u u' r. process item u = (u', r) \<and> r \<in> {Inr (), Inl ErrDeferred}"
proof (induction items arbitrary: s)
  case Nil
  then show ?case by simp
next
  case (Cons x items)
  obtain s1 r1 where p: "process x s = (s1, r1)" by fastforce
  then have ok: "r1 = Inr () \<or> r1 = Inl ErrDeferred" using Cons.prems(1) by (cases r1) (auto split: if_splits)
  moreover have "\<exists>t. process_items finish (Some process) items t = (s', Inr ())"
    using Cons.prems(1) p ok by auto
  ultimately show ?case using Cons.IH Cons.prems(2) p by auto
qed

end

section \<open>The outbox of the gateway\<close>

text \<open>The fan-out and the replays leave the outbox alone.\<close>

abbreviation outbox_is :: "outbox_row list \<Rightarrow> 'a gateway_db_scheme \<Rightarrow> bool" where
  "outbox_is qs db \<equiv> outbox db = qs"

lemma snapshot_outbox [act_intros]: "act_keeps (outbox_is qs) (service_snapshot env run i req)"
proof -
  have "outbox (fst (create_delivery_snapshot env f now ids rq db)) = outbox db" for f now ids rq and db :: "'a gateway_db_scheme"
  proof (cases "snd (create_delivery_snapshot env f now ids rq db)")
    case (Inl e)
    then show ?thesis using snapshot_failed [of env f now ids rq db] by (metis prod.collapse)
  next
    case (Inr r)
    then have "create_delivery_snapshot env f now ids rq db = (fst (create_delivery_snapshot env f now ids rq db), Inr r)"
      by (simp add: prod_eq_iff)
    from snapshot_committed [OF this] obtain p where "fst (create_delivery_snapshot env f now ids rq db) = snapshot_db env now ids rq p r db" .
    then show ?thesis by (simp add: snapshot_db_def)
  qed
  then show ?thesis by (simp add: act_keeps_def service_snapshot_def Let_def)
qed

lemma create_deliveries_outbox [act_intros]: "act_keeps (outbox_is qs) (create_deliveries env run opts t ev k ts)"
  by (induction ts arbitrary: k) (auto intro!: act_intros simp: create_delivery_from_target_def)

lemma clone_deliveries_outbox [act_intros]: "act_keeps (outbox_is qs) (clone_deliveries env run opts t k srcs)"
  by (induction srcs arbitrary: k) (auto intro!: act_intros)

lemma jobs_outbox [act_intros]:
  "act_keeps (outbox_is qs) (insert_replay_noop_item f i t jid ev mode err)"
  "act_keeps (outbox_is qs) (start_replay_job f t jid)" "act_keeps (outbox_is qs) (complete_replay_job f now t jid n)"
  unfolding insert_replay_noop_item_def start_replay_job_def complete_replay_job_def Let_def
  by (intro act_intros tx_intros tx_preservesI; auto)+

lemma fanout_outbox [act_intros]: "act_keeps (outbox_is qs) (create_deliveries_for_event env run f t ev opts)"
  unfolding create_deliveries_for_event_def by (intro act_intros)

lemma replay_outbox [act_intros]: "act_keeps (outbox_is qs) (create_replay_deliveries env lib rn t jid)"
  unfolding create_replay_deliveries_def replay_event_part_def create_deliveries_from_original_event_def
    create_delivery_from_existing_def Let_def
  by (intro act_intros)

lemma process_outbox_outbox: "act_keeps (outbox_is qs) (fanout_process_outbox env lib rn item)"
  unfolding fanout_process_outbox_def Let_def by (intro act_intros)

definition completed_ids :: "'a ingest_db_scheme \<Rightarrow> string set" where
  "completed_ids db = set (map ob_id (filter (\<lambda>q. ob_state q = ''completed'') (outbox db)))"

lemma complete_outbox_rows:
  "complete_outbox f i db = (db', r) \<Longrightarrow> outbox db' = outbox db \<or> outbox db' = update_where (\<lambda>q. ob_id q = i) (outbox_unlock ''completed'') (outbox db)"
  by (cases r) (auto simp: complete_outbox_def)

text \<open>The processor of the gateway: each item with the services of its own run.\<close>

definition gateway_processor ::
    "fanout_env \<Rightarrow> replay_lib \<Rightarrow> (string \<Rightarrow> replay_run) \<Rightarrow> outbox_item \<Rightarrow> ('a gateway_db_scheme, unit) act" where
  "gateway_processor env lib rns = outbox_process (Some (\<lambda>item. fanout_process_outbox env lib (rns (oi_id item)) item)) None"

lemma gateway_processor_outbox: "act_keeps (outbox_is qs) (gateway_processor env lib rns item)"
  unfolding gateway_processor_def outbox_process_def
  by (auto intro!: act_intros process_outbox_outbox)

interpretation gateway_outbox: outbox_queue "complete_outbox f" "gateway_processor env lib rns" completed_ids for f env lib rns
proof unfold_locales
  fix i and s s' :: "'a gateway_db_scheme" and r
  assume "complete_outbox f i s = (s', r)"
  from complete_outbox_rows [OF this] show "completed_ids s' \<subseteq> insert i (completed_ids s)"
    by (auto simp: completed_ids_def set_update_where outbox_unlock_def)
next
  fix item and s s' :: "'a gateway_db_scheme" and r
  assume "gateway_processor env lib rns item s = (s', r)"
  then have "outbox s' = outbox s" using act_keeps_step [OF gateway_processor_outbox refl] by blast
  then show "completed_ids s' \<subseteq> completed_ids s" by (simp add: completed_ids_def)
qed

section \<open>Properties\<close>

lemma process_items_keeps:
  assumes "\<And>i. act_keeps I (finish i)" and "\<And>item. act_keeps I (process item)"
  shows "act_keeps I (process_items finish (Some process) items)"
proof (induction items)
  case Nil
  then show ?case by (simp add: act_keeps_return)
next
  case (Cons item items)
  have "act_keeps I (then_act (finish (oi_id item)) (process_items finish (Some process) items))"
    by (intro act_intros assms(1) Cons.IH)
  moreover note Cons.IH assms(2) [of item]
  ultimately show ?case by (fastforce simp: act_keeps_def split: prod.splits sum.splits)
qed

lemma claim_outbox_rows:
  assumes "claim_outbox f now locked w n db = (db', Inr items)"
  shows "\<exists>chosen. outbox db' = update_where chosen (outbox_lock now w) (update_where (outbox_lock_expired now) (outbox_unlock ''pending'') (outbox db))"
proof -
  from assms obtain d1 u where l: "upsert_worker_lease f now w db = Inr (d1, u)"
    and o: "outbox db' = update_where (\<lambda>o1. ob_id o1 \<in> set (outbox_claim_ids now locked n (outbox_update (update_where (outbox_lock_expired now)
        (outbox_unlock ''pending'')) d1))) (outbox_lock now w) (update_where (outbox_lock_expired now) (outbox_unlock ''pending'') (outbox d1))"
    by (auto simp: claim_outbox_def run_tx_ok Let_def try_tx_def split: option.splits)
  from same_more_ingest(2) [OF conjunct1 [OF upsert_worker_lease_more [OF l]]] o show ?thesis by auto
qed


definition sample_item_row :: outbox_row where
  "sample_item_row = route_event_row 1 ''o'' ''t'' ''route_event'' ''ev''"

definition sample_worker :: "gateway_db worker" where
  "sample_worker = \<lparr> wr_claim_outbox = (\<lambda>i n. claim_outbox no_faults 9 (\<lambda>_. False) i (nat n)), wr_complete_outbox = complete_outbox no_faults,
     wr_processor = Some (gateway_processor sample_fanout_env sample_replay_lib (\<lambda>_. sample_replay_run)), wr_delivery_store = None,
     wr_delivery_client = None, wr_notification_store = None, wr_notification_client = None, wr_siem_store = None, wr_siem_client = None,
     wr_retention = Some (\<lambda>_ _. fail_act ErrNotFound), wr_metrics = Some (\<lambda>_ _. return_act ()), wr_alerts = None, wr_backfill = None,
     wr_id = ''w'', wr_limit = 0 \<rparr>"

abbreviation sample_queue_db :: gateway_db where
  "sample_queue_db \<equiv> sample_gateway_db [sample_event True] [] [] [] [sample_item_row] []"

lemma sample_queue_claim:
  "\<exists>d. claim_outbox no_faults 9 (\<lambda>_. False) ''w'' 10 sample_queue_db = (d, Inr [outbox_item_of sample_item_row])
     \<and> outbox d = [outbox_lock 9 ''w'' sample_item_row] \<and> events d = [sample_event True] \<and> subscriptions d = [] \<and> routes d = []"
  by (simp add: claim_outbox_def run_tx_ok upsert_worker_lease_def sample_gateway_db_def sample_item_row_def route_event_row_def
      outbox_lock_expired_def outbox_claim_ids_def claim_ids_def claim_order_def order_by_def outbox_due_def try_tx_def exec_tx_def Let_def)

lemma sample_queue_process:
  assumes "events d = [sample_event True]" "subscriptions d = []" "routes d = []"
  shows "gateway_processor sample_fanout_env sample_replay_lib (\<lambda>_. sample_replay_run) (outbox_item_of sample_item_row) d = (d, Inr ())"
  using assms by (simp add: gateway_processor_def outbox_process_def fanout_process_outbox_def outbox_item_of_def sample_item_row_def route_event_row_def
      Let_def create_deliveries_for_event_def bind_act_cong_read get_event_def no_rows_not_found_def sample_event_def sample_replay_run_def routable_def
      list_delivery_fanout_targets_def subscription_targets_def route_targets_def order_by_def return_act_def query_rows_def)

lemma sample_worker_fields:
  "wr_claim_outbox sample_worker = (\<lambda>i n. claim_outbox no_faults 9 (\<lambda>_. False) i (nat n))"
  "wr_complete_outbox sample_worker = complete_outbox no_faults"
  "wr_processor sample_worker = Some (gateway_processor sample_fanout_env sample_replay_lib (\<lambda>_. sample_replay_run))"
  "wr_id sample_worker = ''w''"
  by (simp_all add: sample_worker_def)

lemma sample_queue_run:
  "\<exists>db'. run_outbox sample_worker 10 sample_queue_db = (db', Inr ()) \<and> completed_ids db' = {''o''}"
proof -
  from sample_queue_claim obtain d where c: "claim_outbox no_faults 9 (\<lambda>_. False) ''w'' 10 sample_queue_db = (d, Inr [outbox_item_of sample_item_row])"
    and d: "outbox d = [outbox_lock 9 ''w'' sample_item_row]" "events d = [sample_event True]" "subscriptions d = []" "routes d = []" by blast
  let ?db' = "outbox_update (update_where (\<lambda>q. ob_id q = ''o'') (outbox_unlock ''completed'')) d"
  have i: "oi_id (outbox_item_of sample_item_row) = ''o''" by (simp add: outbox_item_of_def sample_item_row_def route_event_row_def)
  have "run_outbox sample_worker 10 sample_queue_db = (?db', Inr ())"
    using c by (simp add: run_outbox_def sample_worker_fields sample_queue_process [OF d(2,3,4)] i complete_outbox_def)
  moreover have "completed_ids ?db' = {''o''}"
    by (simp add: completed_ids_def d(1) outbox_lock_def outbox_unlock_def sample_item_row_def route_event_row_def)
  ultimately show ?thesis by blast
qed


lemma run_phases_spec:
  "run_phases ps s = (s', rs) \<Longrightarrow> map fst rs = take (length rs) (map fst ps) \<and> (\<forall>i < length rs - 1. \<not> stop_after_phase (snd (rs ! i)))
     \<and> (length rs < length ps \<longrightarrow> rs \<noteq> [] \<and> stop_after_phase (snd (last rs)))"
proof (induction ps s arbitrary: s' rs rule: run_phases.induct)
  case (1 s)
  then show ?case by simp
next
  case (2 p m ps s)
  obtain s1 r where m: "m s = (s1, r)" by fastforce
  show ?case
  proof (cases "stop_after_phase (error_of r)")
    case True
    then show ?thesis using 2(2) m by auto
  next
    case False
    obtain s2 rs2 where rest: "run_phases ps s1 = (s2, rs2)" by fastforce
    then have rs: "rs = (p, error_of r) # rs2" using 2(2) m False by simp
    note ih = 2(1) [OF m [symmetric] False rest]
    have "\<not> stop_after_phase (snd (rs ! i))" if "i < length rs - 1" for i
      using that ih False by (cases i) (auto simp: rs)
    then show ?thesis using ih by (auto simp: rs)
  qed
qed



end
