(* ===== verification/Gateway_System.thy ===== *)
theory Gateway_System
  imports Worker_Loop Inbound_Capture Delivery_Lifecycle
begin

text \<open>
  The parts of the gateway together: the ingest handlers, the outbox and its processing, the
  delivery attempts and the operators' replay, approval, dead-letter and quarantine operations as
  one step relation on the database, with any arguments and any failing statements; and what holds
  of every delivery in every state it reaches.
\<close>

section \<open>Leaves\<close>

lemma justified_deliveries_update:
  assumes "justified db" and g: "\<And>d. p d \<Longrightarrow> dv_tenant (g d) = dv_tenant d \<and> dv_event (g d) = dv_event d \<and> dv_replay_job (g d) = dv_replay_job d"
  shows "justified (deliveries_update (update_where p g) db)"
proof -
  let ?db = "deliveries_update (update_where p g) db"
  have s: "job_approved ?db = job_approved db" "event_authentic ?db = event_authentic db"
    by (simp_all add: fun_eq_iff job_approved_def event_authentic_def)
  show ?thesis using assms(1) g unfolding justified_def s by (simp add: ball_update_where)
qed

lemma justified_outbox_update:
  assumes "justified db" and g: "\<And>q. p q \<Longrightarrow> ob_kind (g q) = ob_kind q \<and> ob_tenant (g q) = ob_tenant q \<and> ob_resource (g q) = ob_resource q"
  shows "justified (outbox_update (update_where p g) db)"
proof -
  let ?db = "outbox_update (update_where p g) db"
  have s: "job_approved ?db = job_approved db" "event_authentic ?db = event_authentic db"
    by (simp_all add: fun_eq_iff job_approved_def event_authentic_def)
  show ?thesis using assms(1) g unfolding justified_def s by (simp add: ball_update_where)
qed

lemma justified_new_event:
  assumes "justified db"
  shows "justified (events_update (\<lambda>es. es @ [e]) db)"
proof -
  have "event_authentic db t i \<Longrightarrow> event_authentic (events_update (\<lambda>es. es @ [e]) db) t i" for t i
    by (auto simp: event_authentic_def)
  moreover have "job_approved (events_update (\<lambda>es. es @ [e]) db) = job_approved db" by (simp add: fun_eq_iff job_approved_def)
  ultimately show ?thesis using assms unfolding justified_def by simp
qed

lemma ingest_tables_justified:
  "justified (tenants_update a db) = justified db" "justified (raw_payloads_update b db) = justified db"
  "justified (receipts_update c db) = justified db" "justified (normalized_envelopes_update d db) = justified db"
  "justified (dedupe_records_update e db) = justified db" "justified (idempotency_records_update h db) = justified db"
  "justified (endpoints_update i db) = justified db" "justified (delivery_attempts_update j db) = justified db"
  by (rule justified_cong; simp)+

lemma audit_record_justified [tx_intros]:
  "tx_preserves justified (record_audit_event_tx sha f now eid cid inp)"
  "tx_preserves justified (upsert_worker_lease f now w)"
  using justified_more record_audit_event_tx_more upsert_worker_lease_more by (blast intro: tx_preservesI)+

section \<open>Ingest\<close>

lemma insert_event_justified [tx_intros]: "tx_preserves justified (insert_event f e)"
  by (rule tx_preservesI) (auto simp: insert_event_def justified_new_event split: option.splits if_splits)

lemma capture_justified:
  "tx_preserves justified (capture_tenant f t)" "tx_preserves justified (capture_raw f ids st body i)"
  "tx_preserves justified (capture_rest jsonb f now ids i)"
  unfolding capture_tenant_def capture_raw_def capture_rest_def capture_event_def capture_dedupe_def capture_normalized_def Let_def
  by (intro tx_intros; auto simp: ingest_tables_justified other_tables_justified route_event_row_def intro!: insert_outbox_justified tx_intros split: option.splits)+

lemma capture_inbound_justified:
  fixes db :: "'a gateway_db_scheme"
  assumes "justified db" and run: "capture_inbound jsonb f now bucket ids i (db, objs) = ((db', objs'), r)"
  shows "justified db'"
proof (cases r)
  case (Inl e)
  then show ?thesis using capture_inbound_failed run assms(1) by blast
next
  case (Inr x)
  from run [unfolded Inr] show ?thesis
  proof (rule capture_inbound_committed)
    fix st body db1 db2
    assume "capture_tenant f (src_tenant (ci_source i)) db = Inr (db1, ())" and "capture_raw f ids st body i db1 = Inr (db2, ())"
      and "capture_rest jsonb f now ids i db2 = Inr (db', x)"
    then show ?thesis using assms(1) capture_justified by (blast dest: tx_preservesD)
  qed
qed

lemma service_capture_justified:
  fixes db :: "'a gateway_db_scheme"
  assumes "justified db" and "service_capture env f now wall ids (db, objs) src req = Some ((db', objs'), x)"
  shows "justified db'"
  using assms(2)
proof (cases rule: service_capture_cases)
  case (refused e)
  then show ?thesis using assms(1) by simp
next
  case (captured i r)
  then show ?thesis using capture_inbound_justified [OF assms(1)] by blast
qed

lemma ingest_justified:
  fixes db :: "'a gateway_db_scheme"
  assumes "justified db" and "ingest_generic_or_provider env f now wall ids (db, objs) r = Some ((db', objs'), rep)"
  shows "justified db'"
  using assms(2)
proof (cases rule: ingest_path_cases)
  case (unread p)
  then show ?thesis using assms(1) by simp
next
  case (no_source e)
  then show ?thesis using assms(1) by simp
next
  case (served p src req x)
  then show ?thesis using service_capture_justified [OF assms(1)] by blast
qed

lemma product_ingest_justified:
  fixes db :: "'a gateway_db_scheme"
  assumes "justified db" and "ingest_product_event env f now wall ids (db, objs) act r = Some ((db', objs'), rep)"
  shows "justified db'"
proof -
  from assms(2) consider "db' = db" | req x where "ingest env f now wall ids (db, objs) req = Some ((db', objs'), x)"
    by (cases "read_limited_body r") (auto simp: ingest_product_event_def Let_def split: if_splits)
  then show ?thesis
  proof cases
    case 1
    then show ?thesis using assms(1) by simp
  next
    case 2
    then show ?thesis using service_capture_justified [OF assms(1)] assms(1) by (auto simp: ingest_def split: sum.splits)
  qed
qed

section \<open>The outbox and the deliveries\<close>

lemma queue_justified:
  "act_keeps justified (claim_outbox f now locked w n)" "act_keeps justified (complete_outbox f i)"
  "act_keeps justified (enqueue_route_event f now oid t ev b)"
  unfolding claim_outbox_def complete_outbox_def enqueue_route_event_def Let_def
  by (intro act_intros tx_intros tx_preservesI;
      auto simp: outbox_unlock_def outbox_lock_def route_event_row_def intro!: justified_outbox_update insert_outbox_justified)+

lemma attempts_justified:
  "act_keeps justified (claim_due_deliveries dec f now locked w n)"
  "act_keeps justified (record_delivery_attempt sha f now wall aid did item res err)"
  "act_keeps justified (retry_delivery sha f now eid cid t i actor reason)"
  "act_keeps justified (cancel_delivery sha f now eid cid t i actor reason)"
  unfolding claim_due_deliveries_def claim_rows_def release_expired_def record_delivery_attempt_def retry_delivery_def cancel_delivery_def Let_def
  by (intro act_intros tx_intros tx_preservesI;
      auto simp: unlock_delivery_def lock_delivery_def ingest_tables_justified other_tables_justified intro!: justified_deliveries_update)+

section \<open>The operators\<close>

lemma state_changes_justified:
  "act_keeps justified (create_replay lib call t a req)" "act_keeps justified (approve_replay_job lib call t jid a reason)"
  "act_keeps justified (pause_replay_job lib call t jid a reason)" "act_keeps justified (resume_replay_job lib call t jid a reason)"
  "act_keeps justified (cancel_replay_job lib call t jid a reason)"
  by (simp_all add: act_keeps_def create_replay_justified approve_justified update_state_justified pause_replay_job_def
      resume_replay_job_def cancel_replay_job_def)

lemma release_entries_justified: "act_keeps justified (release_entries lib calls t a code reason i es)"
  by (induction es arbitrary: i) (auto intro!: act_intros release_justified)

lemma bulk_release_justified: "act_keeps justified (bulk_release_dead_letter lib f calls t es a code reason)"
  unfolding bulk_release_dead_letter_def by (intro act_intros release_entries_justified)

lemmas operations_justified = state_changes_justified release_justified bulk_release_justified quarantine_justified policy_justified

lemma control_justified:
  "act_keeps justified (control_create_replay st adb lib call a req)"
  "act_keeps justified (control_approve_replay_job st adb lib call a jid reason)"
  "act_keeps justified (control_pause_replay_job st adb lib call a jid reason)"
  "act_keeps justified (control_resume_replay_job st adb lib call a jid reason)"
  "act_keeps justified (control_cancel_replay_job st adb lib call a jid reason)"
  "act_keeps justified (control_release_dead_letter st adb lib call call2 a i code reason)"
  "act_keeps justified (control_bulk_release_dead_letter st adb lib f calls a es code reason)"
  "act_keeps justified (control_approve_quarantine st adb lib call a i reason route)"
  "act_keeps justified (control_reject_quarantine st adb lib call a i reason)"
  "act_keeps justified (control_create_replay_approval_policy st adb lib call a pr)"
  "act_keeps justified (control_disable_replay_approval_policy st adb lib call a pid reason)"
  unfolding control_create_replay_def control_approve_replay_job_def control_pause_replay_job_def control_resume_replay_job_def
    control_cancel_replay_job_def change_replay_state_def control_release_dead_letter_def control_bulk_release_dead_letter_def
    control_approve_quarantine_def control_reject_quarantine_def control_create_replay_approval_policy_def
    control_disable_replay_approval_policy_def Let_def
  by (intro act_intros operations_justified)+

section \<open>The system\<close>

text \<open>A step of the gateway: one call of one of its parts, successful or not.\<close>

inductive gateway_step :: "'a gateway_db_scheme \<Rightarrow> 'a gateway_db_scheme \<Rightarrow> bool" where
  step_ingest: "ingest_generic_or_provider env f now wall ids (db, objs) r = Some ((db', objs'), rep) \<Longrightarrow> gateway_step db db'"
| step_product: "ingest_product_event env f now wall ids (db, objs) act r = Some ((db', objs'), rep) \<Longrightarrow> gateway_step db db'"
| step_claim_outbox: "claim_outbox f now locked w n db = (db', r) \<Longrightarrow> gateway_step db db'"
| step_process: "q \<in> set (outbox db) \<Longrightarrow> fanout_process_outbox env lib rn (outbox_item_of q) db = (db', r) \<Longrightarrow> gateway_step db db'"
| step_complete_outbox: "complete_outbox f i db = (db', r) \<Longrightarrow> gateway_step db db'"
| step_claim: "claim_due_deliveries dec f now locked w n db = (db', r) \<Longrightarrow> gateway_step db db'"
| step_record: "record_delivery_attempt sha f now wall aid did item dr err db = (db', r) \<Longrightarrow> gateway_step db db'"
| step_retry: "retry_delivery sha f now eid cid t i actor reason db = (db', r) \<Longrightarrow> gateway_step db db'"
| step_cancel: "cancel_delivery sha f now eid cid t i actor reason db = (db', r) \<Longrightarrow> gateway_step db db'"
| step_create_replay: "control_create_replay st (adb :: authz_db) lib call a req db = (db', r) \<Longrightarrow> gateway_step db db'"
| step_approve: "control_approve_replay_job st (adb :: authz_db) lib call a jid reason db = (db', r) \<Longrightarrow> gateway_step db db'"
| step_pause: "control_pause_replay_job st (adb :: authz_db) lib call a jid reason db = (db', r) \<Longrightarrow> gateway_step db db'"
| step_resume: "control_resume_replay_job st (adb :: authz_db) lib call a jid reason db = (db', r) \<Longrightarrow> gateway_step db db'"
| step_cancel_replay: "control_cancel_replay_job st (adb :: authz_db) lib call a jid reason db = (db', r) \<Longrightarrow> gateway_step db db'"
| step_release: "control_release_dead_letter st (adb :: authz_db) lib call call2 a i code reason db = (db', r) \<Longrightarrow> gateway_step db db'"
| step_bulk_release: "control_bulk_release_dead_letter st (adb :: authz_db) lib f calls a es code reason db = (db', rs) \<Longrightarrow> gateway_step db db'"
| step_approve_quarantine: "control_approve_quarantine st (adb :: authz_db) lib call a i reason route db = (db', e) \<Longrightarrow> gateway_step db db'"
| step_reject_quarantine: "control_reject_quarantine st (adb :: authz_db) lib call a i reason db = (db', e) \<Longrightarrow> gateway_step db db'"
| step_policy: "control_create_replay_approval_policy st (adb :: authz_db) lib call a pr db = (db', p) \<Longrightarrow> gateway_step db db'"
| step_disable_policy: "control_disable_replay_approval_policy st (adb :: authz_db) lib call a pid reason db = (db', p) \<Longrightarrow> gateway_step db db'"

definition gateway_start :: "'a gateway_db_scheme \<Rightarrow> bool" where
  "gateway_start db \<longleftrightarrow> deliveries db = [] \<and> replay_jobs db = [] \<and> list_all (\<lambda>q. ob_kind q \<noteq> ''replay_job'') (outbox db)"

lemma gateway_step_justified: "gateway_step db db' \<Longrightarrow> justified db \<Longrightarrow> justified db'"
proof (induction rule: gateway_step.induct)
  case (step_process q db env lib rn db' r)
  then show ?case using process_outbox_justified [of db q env lib rn] by simp
qed (blast intro: ingest_justified product_ingest_justified act_keeps_step [OF queue_justified(1)] act_keeps_step [OF queue_justified(2)]
  act_keeps_step [OF attempts_justified(1)] act_keeps_step [OF attempts_justified(2)] act_keeps_step [OF attempts_justified(3)]
  act_keeps_step [OF attempts_justified(4)] act_keeps_step [OF control_justified(1)] act_keeps_step [OF control_justified(2)]
  act_keeps_step [OF control_justified(3)] act_keeps_step [OF control_justified(4)] act_keeps_step [OF control_justified(5)]
  act_keeps_step [OF control_justified(6)] act_keeps_step [OF control_justified(7)] act_keeps_step [OF control_justified(8)]
  act_keeps_step [OF control_justified(9)] act_keeps_step [OF control_justified(10)] act_keeps_step [OF control_justified(11)])+

interpretation gateway: invariant_system gateway_start gateway_step justified
proof unfold_locales
  show "justified db" if "gateway_start db" for db :: "'a gateway_db_scheme"
    using that by (auto simp: gateway_start_def justified_def list_all_iff)
  show "justified db'" if "justified db" "gateway_step db db'" for db db' :: "'a gateway_db_scheme"
    using gateway_step_justified that by blast
qed

text \<open>
  C1. Whatever the gateway delivers was justified. In every state that the ingest handlers, the
  workers and the operators reach from one without deliveries and replays, with any failures in between, every delivery
  is one of an event of the same tenant whose signature was verified (or that was recovered from
  its provider), and a delivery that comes from a replay belongs to a job of the same tenant that
  needed no approval or that somebody other than its author approved before the approval expired.
\<close>

theorem deliveries_justified:
  assumes "reachable gateway_start gateway_step db" and "d \<in> set (deliveries db)"
  shows "(\<exists>e \<in> set (events db). ev_tenant e = dv_tenant d \<and> ev_id e = dv_event d
        \<and> (ev_verified e \<or> ev_reason e = ''provider_api_reconciliation''))
     \<and> (dv_replay_job d \<noteq> [] \<longrightarrow> (\<exists>j \<in> set (replay_jobs db). rj_tenant j = dv_tenant d \<and> rj_id j = dv_replay_job d
          \<and> (rj_approval_required j \<longrightarrow> rj_approved_by j \<noteq> rj_created_by j
               \<and> (\<exists>u v. rj_approved_at j = Some u \<and> rj_approval_expires j = Some v \<and> u < v))))"
  using gateway.reachable_inv [OF assms(1)] assms(2)
  unfolding justified_def job_approved_def event_authentic_def approved_def by blast

definition sample_system_db :: gateway_db where
  "sample_system_db = sample_gateway_db [sample_event True] [sample_subscription ''a''] [] [] [sample_item_row] []"

lemma sample_system_step:
  "\<exists>db' d. gateway_step sample_system_db db' \<and> d \<in> set (deliveries db')"
proof -
  let ?db = sample_system_db and ?run = "sample_run CHR ''1'' (\<lambda>_. no_faults)"
  have f: "fr_faults ?run i = no_faults" for i by (simp add: sample_run_def)
  have e: "get_event no_faults ?db ''t'' ''ev'' = Inr (sample_event True)" "routable live_options (sample_event True)"
    "payload_source no_faults ?db ''t'' ''ev'' = Inr (''n'', [], ''{}'')"
    by (simp_all add: sample_system_db_def get_event_def sample_gateway_db_def sample_event_def routable_def payload_source_def)
  have ts: "event_targets ?db (sample_event True) ''t'' = [subscription_target (sample_subscription ''a'') (hd (endpoints ?db))]"
    by (simp add: event_targets_def subscription_targets_def route_targets_def endpoints_of_def sample_system_db_def sample_gateway_db_def
        sample_event_def sample_subscription_def)
  have b: "\<forall>g \<in> set (event_targets ?db (sample_event True) ''t''). \<exists>body. payload_body sample_fanout_env no_faults ?db ''t'' ''{}'' (ft_transformation g) = Inr body"
    unfolding ts by (simp add: subscription_target_def sample_subscription_def payload_body_def)
  have ids: "distinct_ids ?run" "fresh_from ?run 0 ?db"
    by (auto simp: distinct_ids_def sample_run_def inj_def fresh_from_def sample_system_db_def sample_gateway_db_def dest: arg_cong [where f = length])
  from create_deliveries_run [OF f ids(1) e(3) b ids(2), where opts = live_options] obtain db' where
    c: "create_deliveries sample_fanout_env ?run live_options ''t'' ''ev'' 0 (event_targets ?db (sample_event True) ''t'') ?db = (db', Inr (0 + 1))"
    by (auto simp: ts)
  from create_deliveries_effect [OF c] obtain ds ps ri rs where "db' = appended ds ps ri rs ?db" "length ds = 1" by (auto simp: ts)
  then have "hd ds \<in> set (deliveries db')" by (cases ds) simp_all
  moreover have "create_deliveries_for_event sample_fanout_env ?run no_faults ''t'' ''ev'' live_options ?db = (db', Inr 1)"
    using c by (simp add: fanout_of_event [OF e(1,2)])
  then have "fanout_process_outbox sample_fanout_env sample_replay_lib sample_replay_run (outbox_item_of sample_item_row) ?db = (db', Inr ())"
    by (simp add: fanout_process_outbox_def Let_def outbox_item_of_def sample_item_row_def route_event_row_def sample_replay_run_def)
  moreover have "sample_item_row \<in> set (outbox ?db)" by (simp add: sample_system_db_def sample_gateway_db_def)
  ultimately show ?thesis using step_process by blast
qed

theorem deliveries_justified_witness:
  "\<exists>db d. reachable gateway_start gateway_step (db :: gateway_db) \<and> d \<in> set (deliveries db)
     \<and> (\<exists>e \<in> set (events db). ev_id e = dv_event d \<and> (ev_verified e \<or> ev_reason e = ''provider_api_reconciliation''))"
proof -
  from sample_system_step obtain db' d where s: "gateway_step sample_system_db db'" and d: "d \<in> set (deliveries db')" by blast
  have "gateway_start sample_system_db"
    by (simp add: gateway_start_def sample_system_db_def sample_gateway_db_def sample_item_row_def route_event_row_def)
  then have r: "reachable gateway_start gateway_step db'" using s by (blast intro: reachable.intros)
  from deliveries_justified [OF r d] r d show ?thesis by blast
qed

section \<open>Forged and genuine events\<close>

lemma capture_duplicate:
  assumes run: "capture_inbound jsonb f now bucket ids i (db, objs) = ((db', objs'), Inr r)" and "cg_event ids \<noteq> []"
    and "\<exists>e \<in> set (events db). ev_tenant e = src_tenant (ci_source i) \<and> ev_dedupe_key e = ci_dedupe_key i"
  shows "cr_dedupe r = ''duplicate_suppressed'' \<and> events db' = events db \<and> outbox db' = outbox db
    \<and> (\<exists>e \<in> set (events db). ev_tenant e = src_tenant (ci_source i) \<and> ev_dedupe_key e = ci_dedupe_key i \<and> ev_id e = cr_event r)"
  using run
proof (rule capture_inbound_committed)
  fix st body db1 db2
  assume t: "capture_tenant f (src_tenant (ci_source i)) db = Inr (db1, ())" and w: "capture_raw f ids st body i db1 = Inr (db2, ())"
    and r: "capture_rest jsonb f now ids i db2 = Inr (db', r)"
  have k: "events db2 = events db" "outbox db2 = outbox db"
    using t w by (auto simp: capture_tenant_def capture_raw_def split: if_splits)
  from r obtain db3 where e: "capture_event jsonb f now ids i db2 = Inr (db3, cr_event r, cr_dedupe r)"
    and s: "events db' = events db3" "outbox db' = outbox db3" by (rule capture_rest_Inr)
  from capture_event_Inr [OF e assms(2)] assms(3) show ?thesis unfolding k s by blast
qed

text \<open>
  C40. An event that could not be verified suppresses the genuine one. The dedupe key of a request is
  made of what the request says, before and whatever the result of the verification. Once an
  event that was not verified holds a key, a later request with that key and a valid signature is
  captured as a duplicate of it: no event and no outbox item is added, and the event that both
  now stand for is never fanned out.
\<close>

theorem unverified_event_suppresses_genuine:
  fixes db :: "'a gateway_db_scheme"
  assumes run: "capture_inbound jsonb f now bucket ids i (db, objs) = ((db', objs'), Inr r)" and "cg_event ids \<noteq> []" and "ci_verified i"
    and e: "e \<in> set (events db)" "ev_tenant e = src_tenant (ci_source i)" "ev_dedupe_key e = ci_dedupe_key i" "\<not> ev_verified e"
    and keys: "distinct (map ev_id (events db))" "distinct (map (\<lambda>x. (ev_tenant x, ev_dedupe_key x)) (events db))"
  shows "cr_dedupe r = ''duplicate_suppressed'' \<and> cr_event r = ev_id e \<and> events db' = events db \<and> outbox db' = outbox db
    \<and> (\<forall>env fr f2. f2 ''get_event'' = None \<longrightarrow>
         create_deliveries_for_event env fr f2 (ev_tenant e) (cr_event r) live_options db' = (db', Inr 0))"
proof -
  from capture_duplicate [OF run assms(2)] e obtain x where d: "cr_dedupe r = ''duplicate_suppressed''" "events db' = events db" "outbox db' = outbox db"
    and x: "x \<in> set (events db)" "ev_tenant x = src_tenant (ci_source i)" "ev_dedupe_key x = ci_dedupe_key i" "ev_id x = cr_event r" by blast
  have "inj_on (\<lambda>x. (ev_tenant x, ev_dedupe_key x)) (set (events db))" using keys(2) by (simp add: distinct_map)
  from inj_onD [OF this, of x e] have "x = e" using x e by simp
  then have i: "cr_event r = ev_id e" using x(4) by simp
  have "create_deliveries_for_event env fr f2 (ev_tenant e) (cr_event r) live_options db' = (db', Inr 0)" if "f2 ''get_event'' = None" for env fr f2
  proof -
    have "get_event f2 db' (ev_tenant e) (cr_event r) = Inr e"
      using filter_unique_key [OF keys(1) e(1), where q = "\<lambda>x. ev_tenant x = ev_tenant e"] that
      by (simp add: get_event_def query_row_def conj_commute d(2) i)
    then show ?thesis using e(4) by (simp add: create_deliveries_for_event_def bind_act_cong_read routable_def)
  qed
  with d i show ?thesis by blast
qed

definition genuine_input :: capture_input where
  "genuine_input = \<lparr> ci_source = sample_source, ci_body = ''b'', ci_sha256 = ''h'', ci_content_type = [], ci_headers = [], ci_remote_ip = [],
     ci_now = 9, ci_type = ''y'', ci_provider_event = [], ci_dedupe_key = ''k'', ci_normalized = None, ci_verified = True, ci_reason = ''verified'' \<rparr>"

definition forged_db :: gateway_db where
  "forged_db = sample_gateway_db [sample_event False] [] [] [] [] []"

lemma sample_suppressed:
  "\<exists>db' r. capture_inbound id no_faults 9 None sample_capture_ids genuine_input (forged_db, []) = ((db', []), Inr r)"
  by (simp add: capture_inbound_def prepare_raw_payload_storage_def Let_def capture_tenant_def exec_tx_def capture_raw_def
      insert_row_def try_tx_def capture_rest_def bind_tx_def then_tx_def capture_event_def insert_event_def capture_normalized_def
      return_tx_def read_tx_def query_row_def update_rows_def capture_dedupe_def capture_event_row_def genuine_input_def sample_source_def
      forged_db_def sample_gateway_db_def sample_event_def sample_capture_ids_def)

theorem unverified_event_suppresses_genuine_witness:
  "\<exists>db' r. capture_inbound id no_faults 9 None sample_capture_ids genuine_input (forged_db, []) = ((db', []), Inr r)
     \<and> ci_verified genuine_input \<and> cr_event r = ''ev'' \<and> outbox db' = [] \<and> map ev_verified (events db') = [False]"
proof -
  from sample_suppressed obtain db' r where run: "capture_inbound id no_faults 9 None sample_capture_ids genuine_input (forged_db, []) = ((db', []), Inr r)" by blast
  have h: "cg_event sample_capture_ids \<noteq> []" "ci_verified genuine_input" "sample_event False \<in> set (events forged_db)"
    "ev_tenant (sample_event False) = src_tenant (ci_source genuine_input)" "ev_dedupe_key (sample_event False) = ci_dedupe_key genuine_input"
    "\<not> ev_verified (sample_event False)" "distinct (map ev_id (events forged_db))"
    "distinct (map (\<lambda>x. (ev_tenant x, ev_dedupe_key x)) (events forged_db))"
    by (simp_all add: sample_capture_ids_def genuine_input_def forged_db_def sample_gateway_db_def sample_event_def sample_source_def)
  from unverified_event_suppresses_genuine [OF run h] run h(2) show ?thesis
    by (auto simp: forged_db_def sample_gateway_db_def sample_event_def)
qed

end
