(* ===== verification/Spec2Isabelle.thy ===== *)
theory Spec2Isabelle
  imports Retry_Policy Authn_Tokens Problem_Details Audit_Verify Delivery_Lifecycle Inbound_Capture Gateway_System
begin

text \<open>
  A verification library for Webhookery, a webhook gateway written in Go. The gateway receives
  signed webhooks, stores the evidence, fans each verified event out to the endpoints of the tenant,
  delivers with retries, lets operators replay and release, and keeps a tamper-evident audit log.

  \<^bold>\<open>The parts and how they interact.\<close> An HTTP handler reads a request and calls the ingest
  service; it finds the source, verifies the signature with a provider adapter, normalises the
  payload and captures everything in one transaction, which also puts an item into the outbox. A
  worker claims outbox items; the fan-out turns an event into one delivery per subscription and
  route, each with a payload that a transformation may have changed; a replay job makes
  deliveries from old ones. The worker then claims due deliveries, sends them through the egress
  guard and records the attempt, which succeeds, is retried after the delay of its policy, or
  becomes a dead letter. Operators act through the control service, which asks the
  authorizer first, and every such act is recorded in the hash chain of the audit log.

  \<^bold>\<open>Conventions.\<close> A Go string or byte slice is a \<^typ>\<open>string\<close>; an \<open>int\<close>, \<open>int64\<close> or duration is an
  \<^typ>\<open>int\<close> with the wrap-around written out (\<open>wrap64\<close>) where a computation can leave 64 bits; an
  instant is its number of nanoseconds; an error is a value of \<open>go_error\<close> and a fallible call
  returns \<open>go_error + 'a\<close>. Random identifiers, clocks, SHA-256, HMAC, decryption, the JSON text
  parser, DNS and the wire are arguments of the definitions that use them; a property that relies
  on one of them says so in its hypotheses (for instance that two inputs do not collide). A
  statement of PostgreSQL takes the error the driver answers from a function on the statement's
  label, so every property about the store holds for every combination of failing statements
  unless it says that none fails.

  \<^bold>\<open>The theories, their sources, and what they show.\<close>

  \<^item> \<open>Go_Prelude\<close>, \<open>Go_Numbers\<close>, \<open>Go_Text\<close>, \<open>Go_Base64\<close>, \<open>Go_Json\<close>, \<open>Net_Addr\<close>: what the sources use of
    the Go standard library.
  \<^item> \<open>Sql_Store\<close>, \<open>Sql_Tables\<close>, \<open>Sql_Session\<close>: transactions with rollback, single statements, and
    sequences of both, with the rules \<open>tx_intros\<close> and \<open>act_intros\<close> for invariants; \<open>Gateway_Tables\<close>:
    the tables of migrations/. \<open>Step_Systems\<close>: reachability, and the locales \<open>invariant_system\<close> and
    \<open>bounded_system\<close>.
  \<^item> \<open>Retry_Policy\<close> (internal/retry): accepted policies have delays within their bounds.
  \<^item> \<open>Authz_Policy\<close> (internal/authz, app/authorization.go, enterprise_identity.go): an allowed request
    has a granting role, a matching scope and no deny rule, and depends on its own tenant only.
    Locale \<open>explaining_store\<close>, interpreted on the PostgreSQL store.
  \<^item> \<open>Authn_Tokens\<close> (app/auth.go, server_auth_identity.go): only live credentials pass. Locale
    \<open>authenticator\<close>, interpreted on the four authenticators.
  \<^item> \<open>Problem_Details\<close> (internal/problem), \<open>Blob_Keys\<close> (internal/blobstore).
  \<^item> \<open>Audit_Chain\<close>, \<open>Audit_Verify\<close> (internal/auditchain and the audit operations of store.go): recording,
    backfill and retention keep the chain invariant, reachable chains verify, and a verified
    range commits to its events.
  \<^item> \<open>Ssrf_Guard\<close> (internal/ssrf), \<open>Delivery_Client\<close> (adapters/deliveryhttp), \<open>Hmac_Verifier\<close>
    (pkg/verifier): connections go to public addresses only, and the receiver accepts what the
    client signs.
  \<^item> \<open>Json_Transform\<close> (internal/transform): the effect of operations, and that protected members stay.
  \<^item> \<open>Provider_Verify\<close>, \<open>Provider_Normalize\<close> (internal/provider): a verified request was signed over
    its body; which events are normalised, and when normalisation ends.
  \<^item> \<open>Inbound_Capture\<close> (server_event_ingest_handlers.go, app/service.go, store_ingest.go): what is
    acknowledged is durable and authentic.
  \<^item> \<open>Delivery_Attempts\<close>, \<open>Delivery_Lifecycle\<close> (store.go): claims are due, exclusive and fair; the store
    refines the life cycle of a delivery; attempts are bounded.
  \<^item> \<open>Delivery_Fanout\<close> (app/delivery_fanout.go, store.go): the outbox queue, and that a fan-out reaches
    every target.
  \<^item> \<open>Replay_Jobs\<close>, \<open>Replay_Execution\<close> (app/control.go, delivery_fanout.go, store.go): requests,
    approvals, state changes, dead letters and quarantine, and the work of a job.
  \<^item> \<open>Worker_Loop\<close> (internal/worker, app/outbox_processor.go): an item is completed only after its
    work. Locale \<open>outbox_queue\<close>, interpreted on the gateway's queue and processor.
  \<^item> \<open>Gateway_System\<close>: all of these as one step relation; every delivery is one of a verified event
    and, when it is a replay, of a job that was approved if it had to be.

  \<^bold>\<open>Bounds and fuel.\<close> The recursions over lists end by their structure. Rendering a template may not
  end, so it is a partial function into an option; there are theorems for when it returns and for
  when it does not. No other definition uses fuel. The limits of the code (body size, response
  size, limits of claims, 64-bit ranges) are the constants of the sources.

  \<^bold>\<open>Simplifications.\<close> Transactions run one after the other; rows that other transactions hold under
  \<open>FOR UPDATE SKIP LOCKED\<close> are an argument of the claims. A table lists its rows in the order of
  their insertion, and a tie of \<open>ORDER BY\<close> keeps that order. Columns that no modelled statement
  reads are left out. A wrapped error is the error it wraps.

  \<^bold>\<open>Not modelled.\<close> The command line, the HTML console, configuration, migrations, the HTTP routing of
  the control interface and the generated references only pass values on. The envelope
  encryption, the key services, the object store client and the provider and signal clients
  wrap libraries that are arguments here. Provider reconciliation, evidence exports,
  incidents, schemas, adapter releases, metrics, alerts, notifications, SIEM export, SCIM and SSO,
  and retention beyond the audit log are further features on the same store; they do not
  take part in the path from a webhook to its deliveries, except that reconciliation adds events
  marked as recovered, whose fan-out is modelled.
\<close>

end
